(* ===== verification/Prelude.thy ===== *)
theory Prelude
  imports Main "HOL-Library.AList" "HOL-Library.Char_ord" "HOL-Library.List_Lexorder"
    "HOL-Library.Product_Lexorder" "HOL-Library.Multiset"
begin

text \<open>
  Shared ground of the development: Python text, dictionaries, JSON values, timestamps and
  the generic lemmas the component theories use.

  Text is a \<open>string\<close> holding its UTF-8 encoding, one \<open>char\<close> per byte; byte order
  is code point order, so comparing and sorting text agrees with Python. \<open>strip\<close> and
  \<open>lower\<close> act on the ASCII range; bytes from 128 on pass through unchanged.
  A dictionary is an association list in insertion order (\<^const>\<open>AList.update\<close> keeps the
  position of a key it overwrites and appends a new one, as Python does).
  A timestamp is a number of microseconds since the epoch.
\<close>

named_theorems model_defs \<open>plain definitions of the model, to be unfolded in component proofs\<close>
named_theorems frame \<open>what an operation leaves unchanged\<close>

type_synonym ('k, 'v) dict = "('k \<times> 'v) list"
type_synonym instant = int
type_synonym uuid = nat

subsection \<open>Python text\<close>

definition ascii_ws :: "char \<Rightarrow> bool" where
  "ascii_ws c = (let n = of_char c :: nat in (9 \<le> n \<and> n \<le> 13) \<or> (28 \<le> n \<and> n \<le> 32))"

definition strip :: "string \<Rightarrow> string" where
  "strip s = rev (dropWhile ascii_ws (rev (dropWhile ascii_ws s)))"

definition lower_char :: "char \<Rightarrow> char" where
  "lower_char c = (let n = of_char c :: nat in if 65 \<le> n \<and> n \<le> 90 then char_of (n + 32) else c)"

definition lower :: "string \<Rightarrow> string" where
  "lower s = map lower_char s"

definition starts_with :: "string \<Rightarrow> string \<Rightarrow> bool" where
  "starts_with p s = (take (length p) s = p)"

text \<open>\<open>s.rstrip(chars)\<close> and \<open>s.strip(chars)\<close>.\<close>

definition rstrip_of :: "(char \<Rightarrow> bool) \<Rightarrow> string \<Rightarrow> string" where
  "rstrip_of p s = rev (dropWhile p (rev s))"

definition strip_of :: "(char \<Rightarrow> bool) \<Rightarrow> string \<Rightarrow> string" where
  "strip_of p s = rstrip_of p (dropWhile p s)"

text \<open>\<open>needle in hay\<close>.\<close>

fun occurs :: "string \<Rightarrow> string \<Rightarrow> bool" where
  "occurs needle [] \<longleftrightarrow> needle = []"
| "occurs needle (c # cs) \<longleftrightarrow> starts_with needle (c # cs) \<or> occurs needle cs"

text \<open>\<open>s[:n]\<close>, which counts code points.\<close>

fun utf8_take :: "nat \<Rightarrow> string \<Rightarrow> string" where
  "utf8_take n [] = []"
| "utf8_take n (c # cs) =
     (if 128 \<le> (of_char c :: nat) \<and> (of_char c :: nat) < 192 then c # utf8_take n cs
      else if n = 0 then [] else c # utf8_take (n - 1) cs)"

fun join :: "string \<Rightarrow> string list \<Rightarrow> string" where
  "join sep [] = []"
| "join sep [x] = x"
| "join sep (x # y # zs) = x @ sep @ join sep (y # zs)"

definition digit_char :: "nat \<Rightarrow> char" where
  "digit_char d = char_of (if d < 10 then 48 + d else 87 + d)"

fun base_digits :: "nat \<Rightarrow> nat \<Rightarrow> nat list" where
  "base_digits b n = (if b < 2 \<or> n < b then [n] else base_digits b (n div b) @ [n mod b])"

declare base_digits.simps [simp del]

definition nat_str :: "nat \<Rightarrow> string" where
  "nat_str n = map digit_char (base_digits 10 n)"

definition int_str :: "int \<Rightarrow> string" where
  "int_str i = (if i < 0 then CHR ''-'' # nat_str (nat (- i)) else nat_str (nat i))"

text \<open>The format \<open>:+d\<close>: an explicit sign.\<close>

definition signed_str :: "int \<Rightarrow> string" where
  "signed_str i = (if i < 0 then int_str i else CHR ''+'' # int_str i)"

text \<open>The format \<open>:0wd\<close> for a natural number: zero padding to \<open>w\<close> characters.\<close>

definition zero_pad :: "nat \<Rightarrow> string \<Rightarrow> string" where
  "zero_pad w s = replicate (w - length s) (CHR ''0'') @ s"

text \<open>The UTF-8 bytes of the rightwards arrow U+2192, which the factor details contain.\<close>

definition arrow :: string where
  "arrow = [CHR 0xE2, CHR 0x86, CHR 0x92]"

text \<open>\<open>repr\<close> of text: the quote choice and the escapes of CPython.\<close>

definition repr_char :: "char \<Rightarrow> char \<Rightarrow> string" where
  "repr_char q c =
     (let n = of_char c :: nat in
      if c = q \<or> n = 92 then [char_of (92::nat), c]
      else if n = 9 then [char_of (92::nat), CHR ''t'']
      else if n = 10 then [char_of (92::nat), CHR ''n'']
      else if n = 13 then [char_of (92::nat), CHR ''r'']
      else if n < 32 \<or> n = 127 then
        [char_of (92::nat), CHR ''x''] @ zero_pad 2 (map digit_char (base_digits 16 n))
      else [c])"

definition py_repr :: "string \<Rightarrow> string" where
  "py_repr s =
     (let sq = char_of (39::nat); dq = char_of (34::nat);
          q = (if sq \<in> set s \<and> dq \<notin> set s then dq else sq)
      in q # concat (map (repr_char q) s) @ [q])"

text \<open>\<open>str\<close> of a UUID: 32 hexadecimal digits in groups 8-4-4-4-12.\<close>

definition uuid_str :: "uuid \<Rightarrow> string" where
  "uuid_str u =
     (let h = zero_pad 32 (map digit_char (base_digits 16 u)) in
      take 8 h @ ''-'' @ take 4 (drop 8 h) @ ''-'' @ take 4 (drop 12 h) @ ''-''
      @ take 4 (drop 16 h) @ ''-'' @ drop 20 h)"

subsection \<open>JSON values\<close>

text \<open>
  The values a \<open>dict[str, Any]\<close> column, payload or response body can hold. A finite
  float is a mantissa and a binary exponent; \<open>json.loads\<close> also yields the infinities (for
  \<open>Infinity\<close> or an overflowing literal such as \<open>1e400\<close>) and NaN.
\<close>

datatype json =
    JNull
  | JBool bool
  | JInt int
  | JFloat int int
  | JInf bool
  | JNaN
  | JStr string
  | JList "json list"
  | JObj "(string \<times> json) list"

fun json_truthy :: "json \<Rightarrow> bool" where
  "json_truthy JNull = False"
| "json_truthy (JBool b) = b"
| "json_truthy (JInt i) = (i \<noteq> 0)"
| "json_truthy (JFloat m e) = (m \<noteq> 0)"
| "json_truthy (JInf pos) = True"
| "json_truthy JNaN = True"
| "json_truthy (JStr s) = (s \<noteq> [])"
| "json_truthy (JList xs) = (xs \<noteq> [])"
| "json_truthy (JObj kvs) = (kvs \<noteq> [])"

text \<open>\<open>d.get(k)\<close> on a mapping: a missing key reads as \<open>None\<close>.\<close>

definition dict_get :: "(string, json) dict \<Rightarrow> string \<Rightarrow> json" where
  "dict_get d k = (case map_of d k of None \<Rightarrow> JNull | Some v \<Rightarrow> v)"

text \<open>\<open>v or []\<close>.\<close>

definition or_empty_list :: "json \<Rightarrow> json" where
  "or_empty_list v = (if json_truthy v then v else JList [])"

text \<open>
  \<open>len\<close> of a JSON value: text counts code points (bytes that do not continue one);
  numbers, booleans and \<open>None\<close> have no length and raise.
\<close>

datatype py_exn =
    TypeError
  | ValueError
  | LookupError
  | RuntimeError
  | SQLAlchemyError
  | StorageError
  | InvalidDedupeInputError
  | InvalidCorrelationInputError
  | OtherError string

definition utf8_length :: "string \<Rightarrow> nat" where
  "utf8_length s = length (filter (\<lambda>c. let n = of_char c :: nat in \<not> (128 \<le> n \<and> n < 192)) s)"

fun json_len :: "json \<Rightarrow> py_exn + nat" where
  "json_len (JStr s) = Inr (utf8_length s)"
| "json_len (JList xs) = Inr (length xs)"
| "json_len (JObj kvs) = Inr (length kvs)"
| "json_len _ = Inl TypeError"

text \<open>\<open>repr\<close> and \<open>str\<close> of a JSON value; the text of a float is a parameter.\<close>

fun json_repr :: "(json \<Rightarrow> string) \<Rightarrow> json \<Rightarrow> string" where
  "json_repr float_text JNull = ''None''"
| "json_repr float_text (JBool b) = (if b then ''True'' else ''False'')"
| "json_repr float_text (JInt i) = int_str i"
| "json_repr float_text (JFloat m e) = float_text (JFloat m e)"
| "json_repr float_text (JInf pos) = (if pos then ''inf'' else ''-inf'')"
| "json_repr float_text JNaN = ''nan''"
| "json_repr float_text (JStr s) = py_repr s"
| "json_repr float_text (JList vs) = ''['' @ join '', '' (map (json_repr float_text) vs) @ '']''"
| "json_repr float_text (JObj kvs) =
     ''{'' @ join '', '' (map (\<lambda>(k, v). py_repr k @ '': '' @ json_repr float_text v) kvs) @ ''}''"

definition json_text :: "(json \<Rightarrow> string) \<Rightarrow> json \<Rightarrow> string" where
  "json_text float_text v = (case v of JStr s \<Rightarrow> s | _ \<Rightarrow> json_repr float_text v)"

subsection \<open>Results\<close>

text \<open>Continuing after an operation that may raise.\<close>

fun then_ok :: "'e + 'a \<Rightarrow> ('a \<Rightarrow> 'e + 'b) \<Rightarrow> 'e + 'b" where
  "then_ok (Inl e) f = Inl e"
| "then_ok (Inr x) f = f x"

lemma then_ok_eq_Inr [simp]: "then_ok r f = Inr y \<longleftrightarrow> (\<exists>x. r = Inr x \<and> f x = Inr y)"
  by (cases r) auto

lemma then_ok_eq_Inl: "then_ok r f = Inl e \<longleftrightarrow> r = Inl e \<or> (\<exists>x. r = Inr x \<and> f x = Inl e)"
  by (cases r) auto

subsection \<open>Timestamps\<close>

text \<open>
  A Python \<open>datetime\<close> is naive (a wall-clock reading) or aware (a reading with its UTC
  offset), both in microseconds.
\<close>

datatype datetime = Naive int | Aware int int

fun as_utc :: "datetime \<Rightarrow> instant" where
  "as_utc (Naive t) = t"
| "as_utc (Aware t off) = t - off"

fun is_aware :: "datetime \<Rightarrow> bool" where
  "is_aware (Naive _) = False"
| "is_aware (Aware _ _) = True"

definition us_per_second :: int where
  "us_per_second = 1000000"

definition seconds :: "int \<Rightarrow> int" where
  "seconds n = n * us_per_second"

lemma seconds_mono [simp]: "seconds a \<le> seconds b \<longleftrightarrow> a \<le> b"
  by (simp add: seconds_def us_per_second_def)

lemma seconds_pos [simp]: "0 < seconds a \<longleftrightarrow> 0 < a"
  by (simp add: seconds_def us_per_second_def)

lemma seconds_nonneg [simp]: "0 \<le> seconds a \<longleftrightarrow> 0 \<le> a"
  by (simp add: seconds_def us_per_second_def)

text \<open>
  Rounding a quotient to the nearest integer, ties to even: \<open>round(x)\<close> and the format
  \<open>:.0f\<close> on the seconds of a time span given in microseconds.
\<close>

definition round_half_even :: "int \<Rightarrow> int \<Rightarrow> int" where
  "round_half_even n d =
     (let q = n div d; r = n mod d in
      if 2 * r < d then q else if d < 2 * r then q + 1 else if even q then q else q + 1)"

subsection \<open>Lemmas on text\<close>

lemma dropWhile_id: "xs = [] \<or> \<not> P (hd xs) \<Longrightarrow> dropWhile P xs = xs"
  by (cases xs) auto

lemma strip_strip [simp]: "strip (strip s) = strip s"
proof -
  let ?r = "dropWhile ascii_ws (rev (dropWhile ascii_ws s))"
  have r: "?r = [] \<or> \<not> ascii_ws (hd ?r)"
    using hd_dropWhile [of ascii_ws "rev (dropWhile ascii_ws s)"] by blast
  have "rev ?r = [] \<or> \<not> ascii_ws (hd (rev ?r))"
  proof (cases "?r = []")
    case False
    then have ne: "dropWhile ascii_ws s \<noteq> []"
      by (cases "dropWhile ascii_ws s = []") simp_all
    have "last ?r = last (rev (dropWhile ascii_ws s))"
      using False by (metis dropWhile_eq_drop last_drop drop_eq_Nil not_le)
    also have "\<dots> = hd (dropWhile ascii_ws s)" using ne by (simp add: last_rev)
    finally show ?thesis using hd_dropWhile [OF ne] False by (simp add: hd_rev)
  qed simp
  then have "dropWhile ascii_ws (strip s) = strip s"
    unfolding strip_def by (rule dropWhile_id)
  moreover have "rev (strip s) = ?r" by (simp add: strip_def)
  ultimately show ?thesis
    unfolding strip_def [of "strip s"] using dropWhile_id [of ?r ascii_ws] r by (simp add: strip_def)
qed

lemma strip_Nil [simp]: "strip [] = []"
  by (simp add: strip_def)

lemma starts_with_iff: "starts_with p s \<longleftrightarrow> (\<exists>b. s = p @ b)"
  by (metis append_take_drop_id append_eq_conv_conj starts_with_def)

lemma occurs_iff: "occurs needle hay \<longleftrightarrow> (\<exists>a b. hay = a @ needle @ b)"
proof (induction needle hay rule: occurs.induct)
  case (2 needle c cs)
  have "(\<exists>a b. c # cs = a @ needle @ b) \<longleftrightarrow>
      (\<exists>b. c # cs = needle @ b) \<or> (\<exists>a b. cs = a @ needle @ b)"
    by (metis Cons_eq_append_conv append_Cons append_Nil)
  with 2 show ?case by (simp add: starts_with_iff)
qed simp

lemma occurs_within: "occurs needle s \<Longrightarrow> occurs needle (a @ s @ b)"
  unfolding occurs_iff by (metis append.assoc)

lemma lower_append [simp]: "lower (a @ b) = lower a @ lower b"
  by (simp add: lower_def)

lemma in_join: "x \<in> set xs \<Longrightarrow> \<exists>a b. join sep xs = a @ x @ b"
proof (induction sep xs rule: join.induct)
  case (3 sep x' y zs)
  show ?case
  proof (cases "x = x'")
    case True
    then show ?thesis by (metis append_Nil join.simps(3))
  next
    case False
    with 3 obtain a b where "join sep (y # zs) = a @ x @ b" by auto
    then have "join sep (x' # y # zs) = (x' @ sep @ a) @ x @ b" by simp
    then show ?thesis by blast
  qed
next
  case (2 sep y)
  then have "join sep [y] = [] @ x @ []" by simp
  then show ?case by blast
qed simp

lemma base_digits_nonempty [simp]: "base_digits b n \<noteq> []"
  by (subst base_digits.simps) simp

lemma base_digits_less: "2 \<le> b \<Longrightarrow> d \<in> set (base_digits b n) \<Longrightarrow> d < b"
proof (induction b n rule: base_digits.induct)
  case (1 b n)
  then show ?case by (subst (asm) base_digits.simps) (auto split: if_splits)
qed

fun digits_value :: "nat \<Rightarrow> nat list \<Rightarrow> nat" where
  "digits_value b [] = 0"
| "digits_value b (d # ds) = d * b ^ length ds + digits_value b ds"

lemma digits_value_append:
  "digits_value b (xs @ ys) = digits_value b xs * b ^ length ys + digits_value b ys"
  by (induction xs) (auto simp: algebra_simps power_add)

lemma digits_value_base_digits: "digits_value b (base_digits b n) = n"
proof (induction b n rule: base_digits.induct)
  case (1 b n)
  show ?case
  proof (cases "b < 2 \<or> n < b")
    case True
    then show ?thesis by (subst base_digits.simps) simp
  next
    case False
    with 1 have "digits_value b (base_digits b (n div b)) = n div b" by simp
    with False show ?thesis
      by (subst base_digits.simps) (simp add: digits_value_append)
  qed
qed

lemma base_digits_inject: "base_digits b m = base_digits b n \<longleftrightarrow> m = n"
  by (metis digits_value_base_digits)

subsection \<open>Lemmas on dictionaries\<close>

lemma set_AList_update:
  "distinct (map fst al) \<Longrightarrow> set (AList.update k v al) = insert (k, v) {(i, r) \<in> set al. i \<noteq> k}"
  by (induction al) (auto simp: image_iff)

lemma update_present_keys: "map_of al k = Some v \<Longrightarrow> map fst (AList.update k v' al) = map fst al"
  by (induction al) auto

lemma map_of_filter_value:
  "distinct (map fst al) \<Longrightarrow>
     map_of (filter (\<lambda>(i, r). P r) al) i =
       (case map_of al i of None \<Rightarrow> None | Some r \<Rightarrow> if P r then Some r else None)"
proof (induction al)
  case (Cons x al)
  have "map_of (filter (\<lambda>(i, r). P r) al) (fst x) = None"
    using Cons.prems by (force simp: map_of_eq_None_iff)
  with Cons show ?case by (cases x) auto
qed simp

subsection \<open>Lemmas on lists\<close>

lemma set_map_filter: "set (List.map_filter f xs) = {y. \<exists>x \<in> set xs. f x = Some y}"
  by (induction xs) (auto simp: List.map_filter_def split: option.splits)

lemma find_not_None: "find P xs \<noteq> None \<longleftrightarrow> (\<exists>x \<in> set xs. P x)"
  unfolding find_None_iff by blast

lemma dom_fold_update:
  "map_of (fold (\<lambda>e. AList.update (f e) (g e)) es al) k \<noteq> None \<longleftrightarrow> k \<in> f ` set es \<or> map_of al k \<noteq> None"
  by (induction es arbitrary: al) (auto simp: update_conv)

subsection \<open>Lemmas on sorting\<close>

lemma sort_map_mset: "mset xs = mset ys \<Longrightarrow> sort (map f xs) = sort (map f ys)"
  by (metis mset_map mset_sort properties_for_sort sorted_sort)

lemma sort_key_distinct_keys:
  assumes "mset xs = mset ys" "distinct (map k ys)"
  shows "sort_key k xs = sort_key k ys"
proof (rule sort_key_inj_key_eq)
  show "mset xs = mset (sort_key k ys)" using assms(1) by simp
  have "set xs = set ys" using assms(1) by (rule mset_eq_setD)
  then show "inj_on k (set xs)" using assms(2) by (simp add: distinct_map)
  show "sorted (map k (sort_key k ys))" by simp
qed

end
