(* ===== verification/Alert_Model.thy ===== *)
theory Alert_Model
  imports Prelude
begin

text \<open>
  The domain records the pipeline passes around: indicators (models/ioc.py), risk and
  decision results (models/assessment.py) and the canonical alert (models/canonical.py).
  Enumerations are datatypes with a \<open>..._value\<close> function for the string the code stores.
\<close>

subsection \<open>Indicators\<close>

datatype ioc_type = IPV4 | DOMAIN | URL | MD5 | SHA1 | SHA256 | EMAIL

fun ioc_type_value :: "ioc_type \<Rightarrow> string" where
  "ioc_type_value IPV4 = ''ipv4''"
| "ioc_type_value DOMAIN = ''domain''"
| "ioc_type_value URL = ''url''"
| "ioc_type_value MD5 = ''md5''"
| "ioc_type_value SHA1 = ''sha1''"
| "ioc_type_value SHA256 = ''sha256''"
| "ioc_type_value EMAIL = ''email''"

definition all_ioc_types :: "ioc_type list" where
  "all_ioc_types = [IPV4, DOMAIN, URL, MD5, SHA1, SHA256, EMAIL]"

definition hash_lengths :: "(ioc_type, nat) dict" where
  "hash_lengths = [(MD5, 32), (SHA1, 40), (SHA256, 64)]"

record ioc_provenance =
  p_field :: string
  p_extractor :: string
  p_raw_value :: string
  p_offset :: "nat option"
  p_location :: "string option"

record ioc =
  i_type :: ioc_type
  i_value :: string
  i_provenance :: "ioc_provenance list"
  i_enrichment :: "(string, json) dict"

definition ioc_key :: "ioc \<Rightarrow> string" where
  "ioc_key i = ioc_type_value (i_type i) @ '':'' @ i_value i"

definition ioc_is_allowlisted :: "ioc \<Rightarrow> bool" where
  "ioc_is_allowlisted i =
     (case dict_get (i_enrichment i) ''allowlist'' of
        JObj kvs \<Rightarrow> json_truthy (dict_get kvs ''matched'')
      | _ \<Rightarrow> False)"

definition ioc_sort_key :: "ioc \<Rightarrow> string \<times> string" where
  "ioc_sort_key i = (ioc_type_value (i_type i), i_value i)"

subsection \<open>Risk and decision results\<close>

datatype risk_tier = INFORMATIONAL | LOW | MEDIUM | HIGH | CRITICAL

fun risk_tier_value :: "risk_tier \<Rightarrow> string" where
  "risk_tier_value INFORMATIONAL = ''informational''"
| "risk_tier_value LOW = ''low''"
| "risk_tier_value MEDIUM = ''medium''"
| "risk_tier_value HIGH = ''high''"
| "risk_tier_value CRITICAL = ''critical''"

definition all_risk_tiers :: "risk_tier list" where
  "all_risk_tiers = [INFORMATIONAL, LOW, MEDIUM, HIGH, CRITICAL]"

record score_factor =
  f_name :: string
  f_points :: int
  f_max :: int
  f_detail :: string

record risk_assessment =
  r_score :: int
  r_tier :: risk_tier
  r_engine_version :: string
  r_factors :: "score_factor list"
  r_summary :: string
  r_degraded :: bool

datatype decision_action = SUPPRESS | MONITOR | QUEUE_L1 | OPEN_INCIDENT

fun decision_action_value :: "decision_action \<Rightarrow> string" where
  "decision_action_value SUPPRESS = ''suppress''"
| "decision_action_value MONITOR = ''monitor''"
| "decision_action_value QUEUE_L1 = ''queue_l1''"
| "decision_action_value OPEN_INCIDENT = ''open_incident''"

datatype decision_severity = SEV1 | SEV2

fun decision_severity_value :: "decision_severity \<Rightarrow> string" where
  "decision_severity_value SEV1 = ''SEV1''"
| "decision_severity_value SEV2 = ''SEV2''"

record decision =
  d_action :: decision_action
  d_severity :: "decision_severity option"
  d_reasons :: "string list"
  d_runbook :: "string option"
  d_decided_at :: instant

subsection \<open>The canonical alert\<close>

record canonical_rule =
  rule_id :: string
  rule_level :: int
  rule_description :: string
  rule_groups :: "string list"
  rule_mitre :: "(string, json) dict"

record canonical_agent =
  agent_id :: string
  agent_name :: string
  agent_ip :: "string option"

record canonical_asset =
  asset_name :: "string option"
  asset_tier :: "string option"
  asset_owner :: "string option"

record canonical_source_event =
  se_rule :: canonical_rule
  se_agent :: canonical_agent
  se_location :: "string option"
  se_full_log :: "string option"
  se_data :: "(string, json) dict"
  se_syscheck :: "(string, json) dict"

record canonical_dedupe =
  cd_group_key :: string
  cd_occurrences :: nat
  cd_first_seen :: instant
  cd_last_seen :: instant
  cd_event_identity :: "string option"
  cd_generation :: nat
  cd_duplicate_deliveries :: nat

record canonical_alert =
  c_alert_id :: uuid
  c_source :: string
  c_received_at :: instant
  c_source_event :: canonical_source_event
  c_dedupe :: "canonical_dedupe option"
  c_iocs :: "ioc list"
  c_asset :: "canonical_asset option"
  c_enrichment_status :: "string option"
  c_risk :: "risk_assessment option"
  c_decision :: "decision option"

subsection \<open>Lemmas\<close>

lemma ioc_type_value_inject [simp]: "ioc_type_value s = ioc_type_value t \<longleftrightarrow> s = t"
  by (cases s; cases t) simp_all

lemma risk_tier_value_inject [simp]: "risk_tier_value s = risk_tier_value t \<longleftrightarrow> s = t"
  by (cases s; cases t) simp_all

lemma decision_action_value_inject [simp]:
  "decision_action_value s = decision_action_value t \<longleftrightarrow> s = t"
  by (cases s; cases t) simp_all

lemma set_all_ioc_types [simp]: "set all_ioc_types = UNIV"
  unfolding all_ioc_types_def using ioc_type.exhaust by auto

lemma set_all_risk_tiers [simp]: "set all_risk_tiers = UNIV"
  unfolding all_risk_tiers_def using risk_tier.exhaust by auto

text \<open>The type name holds no colon, so an indicator key determines type and value.\<close>

lemma ioc_type_value_no_colon: "CHR '':'' \<notin> set (ioc_type_value t)"
  by (cases t) simp_all

lemma append_sep_inject:
  assumes "x \<notin> set as" "x \<notin> set bs"
  shows "as @ x # cs = bs @ x # ds \<longleftrightarrow> as = bs \<and> cs = ds"
  using assms
proof (induction as arbitrary: bs)
  case Nil
  then show ?case by (cases bs) auto
next
  case (Cons a as)
  then show ?case by (cases bs) auto
qed

lemma ioc_key_eq_iff: "ioc_key i = ioc_key j \<longleftrightarrow> i_type i = i_type j \<and> i_value i = i_value j"
  by (simp add: ioc_key_def append_sep_inject ioc_type_value_no_colon)

lemma ioc_sort_key_eq_iff: "ioc_sort_key i = ioc_sort_key j \<longleftrightarrow> ioc_key i = ioc_key j"
  by (simp add: ioc_sort_key_def ioc_key_eq_iff)

end
