(* ===== verification/Scoring_Policy.thy ===== *)
theory Scoring_Policy
  imports Alert_Model
begin

text \<open>
  The scoring policy (scoring/policy.py): one record per configuration class, the validators
  pydantic runs when a policy is loaded, and the lookups the engine makes. A policy value is
  accepted by \<open>scoring_policy_validate\<close>, which returns it normalised or the errors found.
  \<open>default_scoring_policy\<close> is the bundled app/config/scoring.yaml.
\<close>

subsection \<open>Configuration records\<close>

record severity_band =
  sb_min :: int
  sb_max :: int
  sb_points :: int

record rule_severity_config =
  rs_max :: int
  rs_bands :: "severity_band list"

record rule_groups_mitre_config =
  rgm_max :: int
  rgm_group_keywords :: "string list"
  rgm_group_points :: int
  rgm_mitre_points :: int
  rgm_multi_tactic_points :: int
  rgm_multi_tactic_threshold :: int

record asset_criticality_config =
  ac_max :: int
  ac_unknown_points :: int
  ac_bands :: "(string, int) dict"
  ac_tier_aliases :: "(string, string list) dict"

record recurrence_rule =
  rr_name :: string
  rr_min_occurrences :: int
  rr_max_window_seconds :: int
  rr_points :: int

record recurrence_velocity_config =
  rv_max :: int
  rv_rules :: "recurrence_rule list"

record ioc_evidence_config =
  ie_max :: int
  ie_per_indicator :: int
  ie_max_counted :: int

record enrichment_status_config =
  es_max :: int
  es_points :: "(string, int) dict"

record virustotal_intel_config =
  vt_provider :: string
  vt_malicious_high_min :: int
  vt_malicious_high_points :: int
  vt_malicious_low_points :: int
  vt_suspicious_min :: int
  vt_suspicious_only_points :: int

record misp_intel_config =
  mi_provider :: string
  mi_event_match_points :: int
  mi_threat_actor_bonus_points :: int
  mi_threat_actor_tags :: "string list"

record threat_intel_config =
  ti_max :: int
  ti_detail_max_iocs :: int
  ti_handled_types :: "string list"
  ti_virustotal :: virustotal_intel_config
  ti_misp :: misp_intel_config

record allowlist_config =
  al_subtract :: int

record tier_band =
  tb_name :: risk_tier
  tb_min :: int
  tb_max :: int

record scoring_policy =
  sp_engine_version :: string
  sp_rule_severity :: rule_severity_config
  sp_rule_groups_mitre :: rule_groups_mitre_config
  sp_asset_criticality :: asset_criticality_config
  sp_recurrence_velocity :: recurrence_velocity_config
  sp_ioc_evidence :: ioc_evidence_config
  sp_enrichment_status :: enrichment_status_config
  sp_threat_intel :: "threat_intel_config option"
  sp_allowlist :: allowlist_config
  sp_tiers :: "tier_band list"

subsection \<open>Validation\<close>

datatype policy_error =
    Out_of_range string
  | Blank_field string
  | Inverted_severity_band int int
  | Empty_severity_bands
  | Unknown_asset_band string
  | Unknown_alias_target string
  | Unknown_enrichment_status string
  | High_below_low
  | Low_below_suspicious
  | Blank_threat_actor_tag
  | Empty_handled_types
  | Unknown_handled_type string
  | Duplicate_tier risk_tier
  | Tier_start risk_tier int int
  | Inverted_tier risk_tier
  | Incomplete_coverage int
  | Virustotal_clipped int int
  | Misp_clipped int int

definition ensure :: "bool \<Rightarrow> policy_error \<Rightarrow> policy_error list" where
  "ensure b e = (if b then [] else [e])"

definition enrichment_statuses :: "string list" where
  "enrichment_statuses = [''complete'', ''partial'', ''failed'', ''skipped'']"

definition asset_band_names :: "string list" where
  "asset_band_names = [''critical'', ''high'', ''medium'', ''low'']"

definition severity_band_errors :: "severity_band \<Rightarrow> policy_error list" where
  "severity_band_errors b =
     ensure (0 \<le> sb_min b \<and> sb_min b \<le> 15) (Out_of_range ''min'')
     @ ensure (0 \<le> sb_max b \<and> sb_max b \<le> 15) (Out_of_range ''max'')
     @ ensure (0 \<le> sb_points b) (Out_of_range ''points'')
     @ ensure (sb_min b \<le> sb_max b) (Inverted_severity_band (sb_min b) (sb_max b))"

definition rule_severity_errors :: "rule_severity_config \<Rightarrow> policy_error list" where
  "rule_severity_errors c =
     ensure (0 \<le> rs_max c) (Out_of_range ''max'')
     @ concat (map severity_band_errors (rs_bands c))
     @ ensure (rs_bands c \<noteq> []) Empty_severity_bands"

definition rule_groups_mitre_errors :: "rule_groups_mitre_config \<Rightarrow> policy_error list" where
  "rule_groups_mitre_errors c =
     ensure (0 \<le> rgm_max c) (Out_of_range ''max'')
     @ ensure (0 \<le> rgm_group_points c) (Out_of_range ''group_points'')
     @ ensure (0 \<le> rgm_mitre_points c) (Out_of_range ''mitre_points'')
     @ ensure (0 \<le> rgm_multi_tactic_points c) (Out_of_range ''multi_tactic_points'')
     @ ensure (2 \<le> rgm_multi_tactic_threshold c) (Out_of_range ''multi_tactic_threshold'')"

definition asset_criticality_errors :: "asset_criticality_config \<Rightarrow> policy_error list" where
  "asset_criticality_errors c =
     ensure (0 \<le> ac_max c) (Out_of_range ''max'')
     @ ensure (0 \<le> ac_unknown_points c) (Out_of_range ''unknown_points'')
     @ concat (map (\<lambda>(n, _). ensure (n \<in> set asset_band_names) (Unknown_asset_band n)) (ac_bands c))
     @ concat (map (\<lambda>(n, _). ensure (n \<in> set asset_band_names) (Unknown_alias_target n))
         (ac_tier_aliases c))"

definition recurrence_rule_errors :: "recurrence_rule \<Rightarrow> policy_error list" where
  "recurrence_rule_errors r =
     ensure (rr_name r \<noteq> []) (Blank_field ''name'')
     @ ensure (1 \<le> rr_min_occurrences r) (Out_of_range ''min_occurrences'')
     @ ensure (0 \<le> rr_max_window_seconds r) (Out_of_range ''max_window_seconds'')
     @ ensure (0 \<le> rr_points r) (Out_of_range ''points'')"

definition recurrence_velocity_errors :: "recurrence_velocity_config \<Rightarrow> policy_error list" where
  "recurrence_velocity_errors c =
     ensure (0 \<le> rv_max c) (Out_of_range ''max'')
     @ concat (map recurrence_rule_errors (rv_rules c))"

definition ioc_evidence_errors :: "ioc_evidence_config \<Rightarrow> policy_error list" where
  "ioc_evidence_errors c =
     ensure (0 \<le> ie_max c) (Out_of_range ''max'')
     @ ensure (0 \<le> ie_per_indicator c) (Out_of_range ''per_indicator'')
     @ ensure (0 \<le> ie_max_counted c) (Out_of_range ''max_counted'')"

definition enrichment_status_errors :: "enrichment_status_config \<Rightarrow> policy_error list" where
  "enrichment_status_errors c =
     ensure (0 \<le> es_max c) (Out_of_range ''max'')
     @ concat (map (\<lambda>(s, _). ensure (s \<in> set enrichment_statuses) (Unknown_enrichment_status s))
         (es_points c))"

definition virustotal_errors :: "virustotal_intel_config \<Rightarrow> policy_error list" where
  "virustotal_errors c =
     ensure (1 \<le> vt_malicious_high_min c) (Out_of_range ''malicious_high_min'')
     @ ensure (0 \<le> vt_malicious_high_points c) (Out_of_range ''malicious_high_points'')
     @ ensure (0 \<le> vt_malicious_low_points c) (Out_of_range ''malicious_low_points'')
     @ ensure (1 \<le> vt_suspicious_min c) (Out_of_range ''suspicious_min'')
     @ ensure (0 \<le> vt_suspicious_only_points c) (Out_of_range ''suspicious_only_points'')
     @ ensure (vt_malicious_low_points c \<le> vt_malicious_high_points c) High_below_low
     @ ensure (vt_suspicious_only_points c \<le> vt_malicious_low_points c) Low_below_suspicious"

text \<open>\<open>MispIntelConfig._normalized_tags\<close>: strip, lowercase, drop repeats in order.\<close>

fun add_tags :: "string list \<Rightarrow> string list \<Rightarrow> string list" where
  "add_tags acc [] = acc"
| "add_tags acc (t # ts) =
     (let c = lower (strip t) in
      if c \<in> set acc then add_tags acc ts else add_tags (acc @ [c]) ts)"

definition normalized_tags :: "string list \<Rightarrow> string list" where
  "normalized_tags ts = add_tags [] ts"

definition misp_errors :: "misp_intel_config \<Rightarrow> policy_error list" where
  "misp_errors c =
     ensure (0 \<le> mi_event_match_points c) (Out_of_range ''event_match_points'')
     @ ensure (0 \<le> mi_threat_actor_bonus_points c) (Out_of_range ''threat_actor_bonus_points'')
     @ concat (map (\<lambda>t. ensure (lower (strip t) \<noteq> []) Blank_threat_actor_tag)
         (mi_threat_actor_tags c))"

text \<open>\<open>ThreatIntelConfig._known_types\<close> returns the sorted set of the names.\<close>

definition known_types :: "string list \<Rightarrow> string list" where
  "known_types ts = remdups (sort ts)"

definition threat_intel_errors :: "threat_intel_config \<Rightarrow> policy_error list" where
  "threat_intel_errors c =
     ensure (0 \<le> ti_max c) (Out_of_range ''max'')
     @ ensure (1 \<le> ti_detail_max_iocs c) (Out_of_range ''detail_max_iocs'')
     @ ensure (ti_handled_types c \<noteq> []) Empty_handled_types
     @ concat (map (\<lambda>n. ensure (n \<in> set (map ioc_type_value all_ioc_types)) (Unknown_handled_type n))
         (ti_handled_types c))
     @ virustotal_errors (ti_virustotal c) @ misp_errors (ti_misp c)"

definition tier_band_errors :: "tier_band \<Rightarrow> policy_error list" where
  "tier_band_errors b =
     ensure (0 \<le> tb_min b \<and> tb_min b \<le> 100) (Out_of_range ''min'')
     @ ensure (0 \<le> tb_max b \<and> tb_max b \<le> 100) (Out_of_range ''max'')"

text \<open>
  \<open>ScoringPolicy._tiers_cover_0_to_100\<close>: the loop over the bands with its two variables
  \<open>expected\<close> and \<open>seen\<close>; the first error raised, if any.
\<close>

fun tiers_loop :: "int \<Rightarrow> risk_tier list \<Rightarrow> tier_band list \<Rightarrow> policy_error option" where
  "tiers_loop expected seen [] =
     (if expected \<noteq> 101 then Some (Incomplete_coverage (expected - 1)) else None)"
| "tiers_loop expected seen (b # bs) =
     (if tb_name b \<in> set seen then Some (Duplicate_tier (tb_name b))
      else if tb_min b \<noteq> expected then Some (Tier_start (tb_name b) (tb_min b) expected)
      else if tb_max b < tb_min b then Some (Inverted_tier (tb_name b))
      else tiers_loop (tb_max b + 1) (tb_name b # seen) bs)"

definition tiers_cover_0_to_100 :: "tier_band list \<Rightarrow> policy_error option" where
  "tiers_cover_0_to_100 bs = tiers_loop 0 [] bs"

definition intel_weights_within_factor_max :: "threat_intel_config option \<Rightarrow> policy_error option" where
  "intel_weights_within_factor_max ti =
     (case ti of
        None \<Rightarrow> None
      | Some intel \<Rightarrow>
          (let vt = ti_virustotal intel; misp = ti_misp intel;
               vt_max = max (max (vt_malicious_high_points vt) (vt_malicious_low_points vt))
                          (vt_suspicious_only_points vt);
               misp_max = mi_event_match_points misp + mi_threat_actor_bonus_points misp
           in if ti_max intel < vt_max then Some (Virustotal_clipped (ti_max intel) vt_max)
              else if ti_max intel < misp_max then Some (Misp_clipped (ti_max intel) misp_max)
              else None))"

definition policy_field_errors :: "scoring_policy \<Rightarrow> policy_error list" where
  "policy_field_errors p =
     ensure (sp_engine_version p \<noteq> []) (Blank_field ''engine_version'')
     @ rule_severity_errors (sp_rule_severity p)
     @ rule_groups_mitre_errors (sp_rule_groups_mitre p)
     @ asset_criticality_errors (sp_asset_criticality p)
     @ recurrence_velocity_errors (sp_recurrence_velocity p)
     @ ioc_evidence_errors (sp_ioc_evidence p)
     @ enrichment_status_errors (sp_enrichment_status p)
     @ (case sp_threat_intel p of None \<Rightarrow> [] | Some c \<Rightarrow> threat_intel_errors c)
     @ ensure (0 \<le> al_subtract (sp_allowlist p)) (Out_of_range ''subtract'')
     @ concat (map tier_band_errors (sp_tiers p))"

definition normalise_intel :: "threat_intel_config \<Rightarrow> threat_intel_config" where
  "normalise_intel c =
     c\<lparr>ti_handled_types := known_types (ti_handled_types c),
       ti_misp := (ti_misp c)\<lparr>mi_threat_actor_tags :=
         normalized_tags (mi_threat_actor_tags (ti_misp c))\<rparr>\<rparr>"

text \<open>
  \<open>ScoringPolicy.model_validate\<close>: the field errors all together, then the two model
  validators in declaration order, then the normalised policy.
\<close>

definition scoring_policy_validate :: "scoring_policy \<Rightarrow> policy_error list + scoring_policy" where
  "scoring_policy_validate p =
     (case policy_field_errors p of
        e # es \<Rightarrow> Inl (e # es)
      | [] \<Rightarrow>
          (case tiers_cover_0_to_100 (sp_tiers p) of
             Some e \<Rightarrow> Inl [e]
           | None \<Rightarrow>
               (case intel_weights_within_factor_max (sp_threat_intel p) of
                  Some e \<Rightarrow> Inl [e]
                | None \<Rightarrow> Inr (p\<lparr>sp_threat_intel := map_option normalise_intel (sp_threat_intel p)\<rparr>))))"

subsection \<open>Lookups\<close>

definition resolve :: "asset_criticality_config \<Rightarrow> string option \<Rightarrow> string option" where
  "resolve c tier =
     (let label = lower (strip (case tier of None \<Rightarrow> [] | Some t \<Rightarrow> t)) in
      if label = [] then None
      else map_option fst
        (find (\<lambda>(band, aliases). label = band \<or> label \<in> set (map (\<lambda>a. lower (strip a)) aliases))
          (ac_tier_aliases c)))"

definition is_threat_actor_tag :: "misp_intel_config \<Rightarrow> string \<Rightarrow> bool" where
  "is_threat_actor_tag c tag =
     (let cleaned = lower (strip tag) in
      list_ex (\<lambda>listed. cleaned = listed \<or> starts_with (listed @ '':'') cleaned)
        (mi_threat_actor_tags c))"

definition tier_for :: "scoring_policy \<Rightarrow> int \<Rightarrow> risk_tier" where
  "tier_for p score =
     (case find (\<lambda>b. tb_min b \<le> score \<and> score \<le> tb_max b) (sp_tiers p) of
        Some b \<Rightarrow> tb_name b
      | None \<Rightarrow> (if 100 < score then CRITICAL else INFORMATIONAL))"

subsection \<open>The bundled policy\<close>

definition default_scoring_policy :: scoring_policy where
  "default_scoring_policy = \<lparr>
     sp_engine_version = ''scoring.v2'',
     sp_rule_severity = \<lparr>rs_max = 40, rs_bands =
       [\<lparr>sb_min = 0, sb_max = 2, sb_points = 0\<rparr>, \<lparr>sb_min = 3, sb_max = 4, sb_points = 6\<rparr>,
        \<lparr>sb_min = 5, sb_max = 6, sb_points = 14\<rparr>, \<lparr>sb_min = 7, sb_max = 8, sb_points = 22\<rparr>,
        \<lparr>sb_min = 9, sb_max = 10, sb_points = 30\<rparr>, \<lparr>sb_min = 11, sb_max = 15, sb_points = 40\<rparr>]\<rparr>,
     sp_rule_groups_mitre = \<lparr>rgm_max = 15,
       rgm_group_keywords = [''authentication_failed'', ''malware'', ''attack'', ''account_management''],
       rgm_group_points = 4, rgm_mitre_points = 4, rgm_multi_tactic_points = 3,
       rgm_multi_tactic_threshold = 2\<rparr>,
     sp_asset_criticality = \<lparr>ac_max = 25, ac_unknown_points = 8,
       ac_bands = [(''critical'', 25), (''high'', 18), (''medium'', 10), (''low'', 5)],
       ac_tier_aliases =
         [(''critical'', [''critical'']), (''high'', [''high'', ''tier-1'', ''tier-0'', ''tier1'', ''tier0'']),
          (''medium'', [''medium'', ''standard'', ''tier-2'', ''tier2'']),
          (''low'', [''low'', ''tier-3'', ''tier3''])]\<rparr>,
     sp_recurrence_velocity = \<lparr>rv_max = 20, rv_rules =
       [\<lparr>rr_name = ''rapid_burst'', rr_min_occurrences = 3, rr_max_window_seconds = 900, rr_points = 12\<rparr>,
        \<lparr>rr_name = ''rising_burst'', rr_min_occurrences = 5, rr_max_window_seconds = 900, rr_points = 6\<rparr>,
        \<lparr>rr_name = ''sustained_volume'', rr_min_occurrences = 10, rr_max_window_seconds = 86400,
          rr_points = 8\<rparr>]\<rparr>,
     sp_ioc_evidence = \<lparr>ie_max = 15, ie_per_indicator = 3, ie_max_counted = 5\<rparr>,
     sp_enrichment_status = \<lparr>es_max = 5,
       es_points = [(''complete'', 5), (''partial'', 2), (''skipped'', 0), (''failed'', 0)]\<rparr>,
     sp_threat_intel = Some \<lparr>ti_max = 25, ti_detail_max_iocs = 3,
       ti_handled_types = [''domain'', ''ipv4'', ''md5'', ''sha1'', ''sha256'', ''url''],
       ti_virustotal = \<lparr>vt_provider = ''virustotal'', vt_malicious_high_min = 10,
         vt_malicious_high_points = 15, vt_malicious_low_points = 8, vt_suspicious_min = 1,
         vt_suspicious_only_points = 4\<rparr>,
       ti_misp = \<lparr>mi_provider = ''misp'', mi_event_match_points = 10,
         mi_threat_actor_bonus_points = 5,
         mi_threat_actor_tags = [''apt'', ''threat-actor'', ''intrusion-set'']\<rparr>\<rparr>,
     sp_allowlist = \<lparr>al_subtract = 20\<rparr>,
     sp_tiers =
       [\<lparr>tb_name = INFORMATIONAL, tb_min = 0, tb_max = 24\<rparr>,
        \<lparr>tb_name = LOW, tb_min = 25, tb_max = 44\<rparr>, \<lparr>tb_name = MEDIUM, tb_min = 45, tb_max = 69\<rparr>,
        \<lparr>tb_name = HIGH, tb_min = 70, tb_max = 84\<rparr>, \<lparr>tb_name = CRITICAL, tb_min = 85, tb_max = 100\<rparr>]\<rparr>"

text \<open>The file lists the indicator types in its own order; loading it sorts them.\<close>

definition scoring_yaml :: scoring_policy where
  "scoring_yaml = default_scoring_policy\<lparr>sp_threat_intel :=
     map_option (\<lambda>c. c\<lparr>ti_handled_types :=
       [''ipv4'', ''domain'', ''url'', ''md5'', ''sha1'', ''sha256'']\<rparr>)
       (sp_threat_intel default_scoring_policy)\<rparr>"

subsection \<open>Tier bands cover 0 to 100 without overlap\<close>

lemma tiers_loop_lower:
  "tiers_loop e seen bs = None \<Longrightarrow> b \<in> set bs \<Longrightarrow> e \<le> tb_min b \<and> tb_min b \<le> tb_max b"
proof (induction bs arbitrary: e seen)
  case Nil
  then show ?case by simp
next
  case (Cons a bs)
  then show ?case by (fastforce split: if_splits)
qed

lemma tiers_loop_cover:
  assumes "tiers_loop e seen bs = None" "e \<le> s" "s \<le> 100"
  shows "\<exists>b. find (\<lambda>b. tb_min b \<le> s \<and> s \<le> tb_max b) bs = Some b"
  using assms
proof (induction bs arbitrary: e seen)
  case Nil
  then show ?case by (simp split: if_splits)
next
  case (Cons a bs)
  then have rest: "tiers_loop (tb_max a + 1) (tb_name a # seen) bs = None" and "tb_min a = e"
    by (auto split: if_splits)
  show ?case
  proof (cases "s \<le> tb_max a")
    case True
    with Cons.prems \<open>tb_min a = e\<close> show ?thesis by simp
  next
    case False
    then have "tb_max a + 1 \<le> s" by simp
    with Cons.IH [OF rest] Cons.prems show ?thesis using False by simp
  qed
qed

lemma tiers_loop_unique:
  assumes "tiers_loop e seen bs = None" "b \<in> set bs" "c \<in> set bs"
    and "tb_min b \<le> s" "s \<le> tb_max b" "tb_min c \<le> s" "s \<le> tb_max c"
  shows "b = c"
  using assms
proof (induction bs arbitrary: e seen)
  case Nil
  then show ?case by simp
next
  case (Cons a bs)
  from Cons.prems(1) have rest: "tiers_loop (tb_max a + 1) (tb_name a # seen) bs = None"
    by (simp split: if_splits)
  have later: "tb_max a < tb_min x" if "x \<in> set bs" for x
    using tiers_loop_lower [OF rest that] by simp
  from Cons show ?case
    using rest later by fastforce
qed

lemma find_Some_set: "find P xs = Some x \<Longrightarrow> x \<in> set xs \<and> P x"
  by (induction xs) (auto split: if_splits)

lemma tier_for_band:
  assumes "tiers_cover_0_to_100 (sp_tiers p) = None" "0 \<le> s" "s \<le> 100"
  shows "\<exists>!b. b \<in> set (sp_tiers p) \<and> tb_min b \<le> s \<and> s \<le> tb_max b"
    and "\<exists>b \<in> set (sp_tiers p). tb_min b \<le> s \<and> s \<le> tb_max b \<and> tb_name b = tier_for p s"
proof -
  from assms have loop: "tiers_loop 0 [] (sp_tiers p) = None"
    by (simp add: tiers_cover_0_to_100_def)
  then obtain b where b: "find (\<lambda>b. tb_min b \<le> s \<and> s \<le> tb_max b) (sp_tiers p) = Some b"
    using tiers_loop_cover assms(2,3) by blast
  note in_b = find_Some_set [OF b]
  show "\<exists>!b. b \<in> set (sp_tiers p) \<and> tb_min b \<le> s \<and> s \<le> tb_max b"
    using in_b tiers_loop_unique [OF loop] by blast
  show "\<exists>b \<in> set (sp_tiers p). tb_min b \<le> s \<and> s \<le> tb_max b \<and> tb_name b = tier_for p s"
    using in_b b by (auto simp: tier_for_def)
qed

end
