(* ===== verification/Scoring_Engine.thy ===== *)
theory Scoring_Engine
  imports Scoring_Policy
begin

text \<open>
  The scoring engine (scoring/engine.py): one function per factor, the composition
  \<open>score_alert\<close>, the rule-severity-only \<open>degraded_score\<close> and the wrapper
  \<open>risk_scorer_score\<close> (\<open>RiskScorer.score\<close>). The engine raises in one place: \<open>len\<close> of a
  MITRE tactic value that has no length. A time span is exact microseconds where the code
  holds the same value as a double.
\<close>

subsection \<open>Evidence factors\<close>

definition clamp :: "int \<Rightarrow> int" where
  "clamp score = max 0 (min 100 score)"

definition rule_severity_factor :: "canonical_rule \<Rightarrow> rule_severity_config \<Rightarrow> score_factor" where
  "rule_severity_factor rule cfg =
     (let level = rule_level rule in
      case find (\<lambda>b. sb_min b \<le> level \<and> level \<le> sb_max b) (rs_bands cfg) of
        Some band \<Rightarrow>
          \<lparr>f_name = ''rule_severity'', f_points = sb_points band, f_max = rs_max cfg,
           f_detail = ''Wazuh rule level '' @ int_str level @ '' '' @ arrow @ '' severity band ''
             @ int_str (sb_min band) @ ''-'' @ int_str (sb_max band) @ '' (''
             @ int_str (sb_points band) @ ''/'' @ int_str (rs_max cfg) @ '')''\<rparr>
      | None \<Rightarrow>
          \<lparr>f_name = ''rule_severity'', f_points = 0, f_max = rs_max cfg,
           f_detail = ''Wazuh rule level '' @ int_str level
             @ '' is outside all configured severity bands (0/'' @ int_str (rs_max cfg) @ '')''\<rparr>)"

definition rule_groups_mitre_factor ::
    "canonical_rule \<Rightarrow> rule_groups_mitre_config \<Rightarrow> py_exn + score_factor" where
  "rule_groups_mitre_factor rule cfg =
     (let matched = filter (\<lambda>g. g \<in> set (rgm_group_keywords cfg)) (rule_groups rule);
          p1 = (if matched \<noteq> [] then rgm_group_points cfg * int (length matched) else 0);
          n1 = (if matched \<noteq> [] then [''groups '' @ join '', '' matched] else []);
          technique_ids = or_empty_list (dict_get (rule_mitre rule) ''id'');
          technique_names = or_empty_list (dict_get (rule_mitre rule) ''technique'');
          tactics = or_empty_list (dict_get (rule_mitre rule) ''tactic'');
          has_technique = (json_truthy technique_ids \<or> json_truthy technique_names);
          p2 = (if has_technique then p1 + rgm_mitre_points cfg else p1);
          n2 = (if has_technique then n1 @ [''MITRE technique present''] else n1)
      in case json_len tactics of
           Inl e \<Rightarrow> Inl e
         | Inr n \<Rightarrow>
             (let many = (rgm_multi_tactic_threshold cfg \<le> int n);
                  p3 = (if many then p2 + rgm_multi_tactic_points cfg else p2);
                  n3 = (if many then n2 @ [int_str (int n) @ '' MITRE tactics''] else n2);
                  points = min p3 (rgm_max cfg);
                  notes = (if n3 = [] then [''no suspicious groups or MITRE technique''] else n3)
              in Inr \<lparr>f_name = ''rule_groups_mitre'', f_points = points, f_max = rgm_max cfg,
                   f_detail = join ''; '' notes @ '' ('' @ int_str points @ ''/''
                     @ int_str (rgm_max cfg) @ '')''\<rparr>))"

definition asset_criticality_factor ::
    "canonical_asset option \<Rightarrow> asset_criticality_config \<Rightarrow> score_factor" where
  "asset_criticality_factor asset cfg =
     (let tier = (case asset of None \<Rightarrow> None | Some a \<Rightarrow> asset_tier a) in
      case resolve cfg tier of
        None \<Rightarrow>
          (let points = ac_unknown_points cfg;
               label = (case tier of
                   None \<Rightarrow> ''no tier label''
                 | Some t \<Rightarrow> if t = [] then ''no tier label'' else ''tier '' @ py_repr t)
           in \<lparr>f_name = ''asset_criticality'', f_points = points, f_max = ac_max cfg,
               f_detail = ''asset '' @ label @ '' '' @ arrow @ '' unknown ('' @ int_str points
                 @ ''/'' @ int_str (ac_max cfg) @ '')''\<rparr>)
      | Some band \<Rightarrow>
          (let points = (case map_of (ac_bands cfg) band of None \<Rightarrow> 0 | Some p \<Rightarrow> p)
           in \<lparr>f_name = ''asset_criticality'', f_points = points, f_max = ac_max cfg,
               f_detail = ''asset tier '' @ (case tier of None \<Rightarrow> ''None'' | Some t \<Rightarrow> py_repr t)
                 @ '' '' @ arrow @ '' '' @ band @ '' ('' @ int_str points @ ''/''
                 @ int_str (ac_max cfg) @ '')''\<rparr>))"

definition recurrence_rule_met :: "int \<Rightarrow> int \<Rightarrow> recurrence_rule \<Rightarrow> bool" where
  "recurrence_rule_met occurrences span r =
     (rr_min_occurrences r \<le> occurrences \<and> span \<le> seconds (rr_max_window_seconds r))"

definition recurrence_velocity_factor ::
    "canonical_dedupe option \<Rightarrow> recurrence_velocity_config \<Rightarrow> score_factor" where
  "recurrence_velocity_factor dedupe cfg =
     (case dedupe of
        None \<Rightarrow>
          \<lparr>f_name = ''recurrence_velocity'', f_points = 0, f_max = rv_max cfg,
           f_detail = ''no recurrence data (0/'' @ int_str (rv_max cfg) @ '')''\<rparr>
      | Some d \<Rightarrow>
          (let occurrences = int (cd_occurrences d);
               span = max 0 (cd_last_seen d - cd_first_seen d);
               matched = filter (recurrence_rule_met occurrences span) (rv_rules cfg);
               total = sum_list (map rr_points matched);
               points = min total (rv_max cfg);
               prefix = int_str occurrences @ '' occurrence(s) over ''
                 @ int_str (round_half_even span us_per_second) @ ''s; ''
           in \<lparr>f_name = ''recurrence_velocity'', f_points = points, f_max = rv_max cfg,
               f_detail =
                 (if matched \<noteq> [] then prefix @ ''matched '' @ join '', '' (map rr_name matched)
                    @ '' ('' @ int_str points @ ''/'' @ int_str (rv_max cfg) @ '')''
                  else prefix @ ''no recurrence threshold met (0/'' @ int_str (rv_max cfg) @ '')'')\<rparr>))"

definition ioc_evidence_factor :: "ioc list \<Rightarrow> ioc_evidence_config \<Rightarrow> score_factor" where
  "ioc_evidence_factor iocs cfg =
     (let count = int (length iocs);
          counted = min count (ie_max_counted cfg);
          points = min (counted * ie_per_indicator cfg) (ie_max cfg);
          types = remdups (sort (map (\<lambda>i. ioc_type_value (i_type i)) iocs))
      in \<lparr>f_name = ''ioc_evidence'', f_points = points, f_max = ie_max cfg,
          f_detail =
            (if types \<noteq> [] then int_str count @ '' indicator(s) ('' @ join '', '' types @ '') ''
               @ arrow @ '' '' @ int_str points @ ''/'' @ int_str (ie_max cfg)
             else ''no indicators extracted (0/'' @ int_str (ie_max cfg) @ '')'')\<rparr>)"

definition enrichment_status_factor ::
    "string option \<Rightarrow> enrichment_status_config \<Rightarrow> score_factor" where
  "enrichment_status_factor status cfg =
     (let raw = (case status of None \<Rightarrow> ''skipped'' | Some s \<Rightarrow> if s = [] then ''skipped'' else s);
          normalized = lower (strip raw);
          points = (case map_of (es_points cfg) normalized of None \<Rightarrow> 0 | Some p \<Rightarrow> p)
      in \<lparr>f_name = ''enrichment_status'', f_points = points, f_max = es_max cfg,
          f_detail =
            (if normalized = ''failed'' then
               ''enrichment unavailable ('' @ normalized @ '') '' @ arrow @ '' 0/''
               @ int_str (es_max cfg) @ '' (fail-safe)''
             else if points \<noteq> 0 then
               ''enrichment '' @ normalized @ '' '' @ arrow @ '' '' @ int_str points @ ''/''
               @ int_str (es_max cfg)
             else ''enrichment '' @ normalized @ '' '' @ arrow @ '' 0/'' @ int_str (es_max cfg))\<rparr>)"

subsection \<open>Reading provider payloads\<close>

definition intel_unavailable_statuses :: "string list" where
  "intel_unavailable_statuses = [''error'', ''timeout'', ''rate_limited'']"

definition vt_handled_types :: "ioc_type list" where
  "vt_handled_types = [IPV4, DOMAIN, URL, MD5, SHA1, SHA256]"

definition misp_handled_types :: "ioc_type list" where
  "misp_handled_types = all_ioc_types"

definition provider_payload :: "ioc \<Rightarrow> string \<Rightarrow> (string, json) dict option" where
  "provider_payload i provider =
     (case dict_get (i_enrichment i) provider of JObj kvs \<Rightarrow> Some kvs | _ \<Rightarrow> None)"

text \<open>The text of a value that is not a string is never one of the three status words.\<close>

definition lookup_available :: "(string, json) dict \<Rightarrow> bool" where
  "lookup_available payload =
     (case dict_get payload ''lookup_status'' of
        JStr s \<Rightarrow> s \<notin> set intel_unavailable_statuses
      | _ \<Rightarrow> True)"

definition payload_result :: "(string, json) dict \<Rightarrow> (string, json) dict" where
  "payload_result payload = (case dict_get payload ''result'' of JObj kvs \<Rightarrow> kvs | _ \<Rightarrow> [])"

definition evidence_count :: "(string, json) dict \<Rightarrow> string \<Rightarrow> int" where
  "evidence_count payload key =
     (case dict_get payload key of JInt i \<Rightarrow> (if 0 < i then i else 0) | _ \<Rightarrow> 0)"

fun json_item_text :: "json \<Rightarrow> string list" where
  "json_item_text (JStr s) = [s]"
| "json_item_text (JInt i) = [int_str i]"
| "json_item_text (JBool b) = [if b then ''True'' else ''False'']"
| "json_item_text _ = []"

definition string_list :: "(string, json) dict \<Rightarrow> string \<Rightarrow> string list" where
  "string_list payload key =
     (case dict_get payload key of JList vs \<Rightarrow> concat (map json_item_text vs) | _ \<Rightarrow> [])"

definition safe_tag_char :: "char \<Rightarrow> bool" where
  "safe_tag_char c =
     (let n = of_char c :: nat in
      (48 \<le> n \<and> n \<le> 57) \<or> (65 \<le> n \<and> n \<le> 90) \<or> (97 \<le> n \<and> n \<le> 122))"

definition safe_tag :: "string \<Rightarrow> bool" where
  "safe_tag s =
     (case s of
        [] \<Rightarrow> False
      | c # cs \<Rightarrow> safe_tag_char c \<and> length cs \<le> 63
          \<and> list_all (\<lambda>d. safe_tag_char d \<or> d \<in> set '':.+_@/-'') cs)"

definition virustotal_award :: "(string, json) dict \<Rightarrow> threat_intel_config \<Rightarrow> int" where
  "virustotal_award result cfg =
     (let vt = ti_virustotal cfg; malicious = evidence_count result ''malicious'' in
      if vt_malicious_high_min vt \<le> malicious then vt_malicious_high_points vt
      else if 0 < malicious then vt_malicious_low_points vt
      else if vt_suspicious_min vt \<le> evidence_count result ''suspicious''
        then vt_suspicious_only_points vt
      else 0)"

subsection \<open>The threat-intelligence factor\<close>

record intel_state =
  in_total :: int
  in_vt_hits :: "string list"
  in_vt_malicious :: "(string, int) dict"
  in_vt_suspicious_total :: int
  in_misp_hits :: "string list"
  in_misp_actor_tags :: "string list"

definition listed_with_more :: "nat \<Rightarrow> string list \<Rightarrow> string" where
  "listed_with_more limit hits =
     (let more = int (length hits) - int limit in
      ''['' @ join '', '' (take limit hits)
      @ (if 0 < more then '' (+'' @ int_str more @ '' more)'' else []) @ '']'')"

definition intel_detail :: "threat_intel_config \<Rightarrow> int \<Rightarrow> intel_state \<Rightarrow> string" where
  "intel_detail cfg points st =
     (let limit = nat (ti_detail_max_iocs cfg);
          vt_hits = sort (in_vt_hits st);
          misp_hits = sort (in_misp_hits st);
          part1 = (if vt_hits \<noteq> [] then
              [''Virustotal: '' @ int_str (int (length vt_hits)) @ '' indicator(s) with malicious verdicts ''
               @ listed_with_more limit vt_hits @ '', max ''
               @ int_str (foldr max (map snd (in_vt_malicious st)) 0) @ '' engine(s) flagging'']
            else []);
          part2 = (if in_vt_suspicious_total st \<noteq> 0 then
              [''Virustotal: '' @ (if vt_hits = [] then ''suspicious-only evidence'' else ''further suspicious hits'')
               @ '', '' @ int_str (in_vt_suspicious_total st) @ '' suspicious engine hit(s)'']
            else []);
          part3 = (if misp_hits \<noteq> [] then
              [''MISP: '' @ int_str (int (length misp_hits)) @ '' indicator(s) matched events ''
               @ listed_with_more limit misp_hits
               @ (if in_misp_actor_tags st \<noteq> [] then
                    ''; threat-actor tags '' @ join '', '' (take limit (sort (in_misp_actor_tags st)))
                  else [])]
            else []);
          parts = part1 @ part2 @ part3
      in if parts = [] then ''no corroborating threat-intel verdicts (0/'' @ int_str (ti_max cfg) @ '')''
         else join ''; '' parts @ '' '' @ arrow @ '' '' @ int_str points @ ''/'' @ int_str (ti_max cfg))"

definition vt_step :: "threat_intel_config \<Rightarrow> ioc \<Rightarrow> intel_state \<Rightarrow> intel_state" where
  "vt_step cfg i st =
     (case provider_payload i (vt_provider (ti_virustotal cfg)) of
        None \<Rightarrow> st
      | Some payload \<Rightarrow>
          if lookup_available payload \<and> i_type i \<in> set vt_handled_types then
            (let result = payload_result payload;
                 award = virustotal_award result cfg;
                 malicious = evidence_count result ''malicious'';
                 st1 = (if award \<noteq> 0 then
                     st\<lparr>in_total := in_total st + award,
                        in_vt_hits := in_vt_hits st @ [ioc_key i],
                        in_vt_malicious := AList.update (ioc_key i) malicious (in_vt_malicious st)\<rparr>
                   else st)
             in st1\<lparr>in_vt_suspicious_total :=
                  in_vt_suspicious_total st1 + evidence_count result ''suspicious''\<rparr>)
          else st)"

definition misp_step :: "threat_intel_config \<Rightarrow> ioc \<Rightarrow> intel_state \<Rightarrow> intel_state" where
  "misp_step cfg i st =
     (let misp = ti_misp cfg;
          narrate = (0 < mi_event_match_points misp \<or> 0 < mi_threat_actor_bonus_points misp)
      in case provider_payload i (mi_provider misp) of
           None \<Rightarrow> st
         | Some payload \<Rightarrow>
             if \<not> lookup_available payload \<or> i_type i \<notin> set misp_handled_types then st
             else
               (let result = payload_result payload in
                if evidence_count result ''match_count'' \<le> 0 \<and> string_list result ''event_ids'' = []
                then st
                else
                  (let st1 = st\<lparr>in_total := in_total st + mi_event_match_points misp,
                         in_misp_hits :=
                           (if narrate then in_misp_hits st @ [ioc_key i] else in_misp_hits st)\<rparr>
                   in case find (is_threat_actor_tag misp) (string_list result ''tags'') of
                        None \<Rightarrow> st1
                      | Some tag \<Rightarrow>
                          st1\<lparr>in_total := in_total st1 + mi_threat_actor_bonus_points misp,
                              in_misp_actor_tags :=
                                (if safe_tag tag \<and> narrate then List.insert tag (in_misp_actor_tags st1)
                                 else in_misp_actor_tags st1)\<rparr>)))"

definition intel_step :: "threat_intel_config \<Rightarrow> intel_state \<Rightarrow> ioc \<Rightarrow> intel_state" where
  "intel_step cfg st i =
     (if ioc_type_value (i_type i) \<notin> set (ti_handled_types cfg) then st
      else misp_step cfg i (vt_step cfg i st))"

definition intel_init :: intel_state where
  "intel_init = \<lparr>in_total = 0, in_vt_hits = [], in_vt_malicious = [], in_vt_suspicious_total = 0,
     in_misp_hits = [], in_misp_actor_tags = []\<rparr>"

definition threat_intel_factor :: "ioc list \<Rightarrow> threat_intel_config \<Rightarrow> score_factor" where
  "threat_intel_factor iocs cfg =
     (let st = foldl (intel_step cfg) intel_init (sort_key ioc_key iocs);
          points = min (in_total st) (ti_max cfg)
      in \<lparr>f_name = ''threat_intel'', f_points = points, f_max = ti_max cfg,
          f_detail = intel_detail cfg points st\<rparr>)"

definition allowlist_factor :: "ioc list \<Rightarrow> allowlist_config \<Rightarrow> score_factor" where
  "allowlist_factor iocs cfg =
     (if list_ex ioc_is_allowlisted iocs then
        \<lparr>f_name = ''allowlist_modifier'', f_points = - al_subtract cfg, f_max = al_subtract cfg,
         f_detail = ''allowlisted indicator present '' @ arrow @ '' -'' @ int_str (al_subtract cfg)\<rparr>
      else
        \<lparr>f_name = ''allowlist_modifier'', f_points = 0, f_max = al_subtract cfg,
         f_detail = ''no allowlisted indicators''\<rparr>)"

subsection \<open>Composition\<close>

definition factor_order :: "string list" where
  "factor_order = [''rule_severity'', ''rule_groups_mitre'', ''asset_criticality'',
     ''recurrence_velocity'', ''ioc_evidence'', ''enrichment_status'', ''threat_intel'',
     ''allowlist_modifier'']"

definition score_summary :: "int \<Rightarrow> risk_tier \<Rightarrow> score_factor list \<Rightarrow> string" where
  "score_summary score tier factors =
     ''Score '' @ int_str score @ '' ('' @ risk_tier_value tier @ ''): ''
     @ join '', '' (map (\<lambda>f. f_name f @ '' '' @ signed_str (f_points f) @ ''/'' @ int_str (f_max f)) factors)
     @ ''.''"

definition score_alert :: "canonical_alert \<Rightarrow> scoring_policy \<Rightarrow> py_exn + risk_assessment" where
  "score_alert alert policy =
     (let rule = se_rule (c_source_event alert); iocs = c_iocs alert in
      case rule_groups_mitre_factor rule (sp_rule_groups_mitre policy) of
        Inl e \<Rightarrow> Inl e
      | Inr groups_mitre \<Rightarrow>
          (let built =
             [(''rule_severity'', rule_severity_factor rule (sp_rule_severity policy)),
              (''rule_groups_mitre'', groups_mitre),
              (''asset_criticality'',
                asset_criticality_factor (c_asset alert) (sp_asset_criticality policy)),
              (''recurrence_velocity'',
                recurrence_velocity_factor (c_dedupe alert) (sp_recurrence_velocity policy)),
              (''ioc_evidence'', ioc_evidence_factor iocs (sp_ioc_evidence policy)),
              (''enrichment_status'',
                enrichment_status_factor (c_enrichment_status alert) (sp_enrichment_status policy)),
              (''allowlist_modifier'', allowlist_factor iocs (sp_allowlist policy))];
             built' = (case sp_threat_intel policy of
                 None \<Rightarrow> built
               | Some intel \<Rightarrow> AList.update ''threat_intel'' (threat_intel_factor iocs intel) built);
             factors = List.map_filter (map_of built') factor_order;
             score = clamp (sum_list (map f_points factors));
             tier = tier_for policy score
           in Inr \<lparr>r_score = score, r_tier = tier, r_engine_version = sp_engine_version policy,
                r_factors = factors, r_summary = score_summary score tier factors,
                r_degraded = False\<rparr>))"

definition degraded_score :: "canonical_alert \<Rightarrow> scoring_policy \<Rightarrow> risk_assessment" where
  "degraded_score alert policy =
     (let factor = rule_severity_factor (se_rule (c_source_event alert)) (sp_rule_severity policy);
          score = clamp (f_points factor);
          tier = tier_for policy score
      in \<lparr>r_score = score, r_tier = tier, r_engine_version = sp_engine_version policy,
          r_factors = [factor],
          r_summary = ''Degraded fallback: '' @ f_detail factor @ ''; score '' @ int_str score
            @ '' ('' @ risk_tier_value tier @ '').'',
          r_degraded = True\<rparr>)"

definition risk_scorer_score :: "scoring_policy \<Rightarrow> canonical_alert \<Rightarrow> risk_assessment" where
  "risk_scorer_score policy alert =
     (case score_alert alert policy of
        Inr r \<Rightarrow> r
      | Inl e \<Rightarrow> degraded_score alert policy)"


subsection \<open>The awards as a sum\<close>

text \<open>
  What one indicator earns, without the running state: the reference the loop is compared
  with. Points do not depend on the order in which the loop visits the indicators.
\<close>

definition vt_points :: "threat_intel_config \<Rightarrow> ioc \<Rightarrow> int" where
  "vt_points cfg i =
     (case provider_payload i (vt_provider (ti_virustotal cfg)) of
        None \<Rightarrow> 0
      | Some payload \<Rightarrow>
          if lookup_available payload \<and> i_type i \<in> set vt_handled_types
          then virustotal_award (payload_result payload) cfg else 0)"

definition misp_match :: "(string, json) dict \<Rightarrow> bool" where
  "misp_match result = (0 < evidence_count result ''match_count'' \<or> string_list result ''event_ids'' \<noteq> [])"

definition misp_points :: "threat_intel_config \<Rightarrow> ioc \<Rightarrow> int" where
  "misp_points cfg i =
     (case provider_payload i (mi_provider (ti_misp cfg)) of
        None \<Rightarrow> 0
      | Some payload \<Rightarrow>
          if lookup_available payload \<and> i_type i \<in> set misp_handled_types
            \<and> misp_match (payload_result payload)
          then mi_event_match_points (ti_misp cfg)
            + (if list_ex (is_threat_actor_tag (ti_misp cfg)) (string_list (payload_result payload) ''tags'')
               then mi_threat_actor_bonus_points (ti_misp cfg) else 0)
          else 0)"

definition intel_award :: "threat_intel_config \<Rightarrow> ioc \<Rightarrow> int" where
  "intel_award cfg i =
     (if ioc_type_value (i_type i) \<in> set (ti_handled_types cfg)
      then vt_points cfg i + misp_points cfg i else 0)"

lemma vt_step_total: "in_total (vt_step cfg i st) = in_total st + vt_points cfg i"
  by (simp add: vt_step_def vt_points_def Let_def split: option.splits)

lemma find_None_list_ex: "find P xs = None \<longleftrightarrow> \<not> list_ex P xs"
  by (induction xs) auto

lemma misp_step_total: "in_total (misp_step cfg i st) = in_total st + misp_points cfg i"
  by (auto simp: misp_step_def misp_points_def misp_match_def Let_def find_None_list_ex
      split: option.splits dest!: find_Some_set simp: list_ex_iff find_None_iff)

lemma intel_step_total: "in_total (intel_step cfg st i) = in_total st + intel_award cfg i"
  by (simp add: intel_step_def intel_award_def vt_step_total misp_step_total)

lemma intel_fold_total:
  "in_total (foldl (intel_step cfg) st is) = in_total st + sum_list (map (intel_award cfg) is)"
  by (induction "is" arbitrary: st) (simp_all add: intel_step_total)

lemma sum_list_sort_key: "sum_list (map (f :: 'a \<Rightarrow> int) (sort_key k xs)) = sum_list (map f xs)"
  by (metis mset_map mset_sort sum_mset_sum_list)

lemma threat_intel_points:
  "f_points (threat_intel_factor iocs cfg) = min (sum_list (map (intel_award cfg) iocs)) (ti_max cfg)"
  by (simp add: threat_intel_factor_def Let_def intel_fold_total intel_init_def sum_list_sort_key)

subsection \<open>Factor names and caps\<close>

lemma factor_names [simp]:
  "f_name (rule_severity_factor rule c1) = ''rule_severity''"
  "f_name (asset_criticality_factor asset c2) = ''asset_criticality''"
  "f_name (recurrence_velocity_factor dd c3) = ''recurrence_velocity''"
  "f_name (ioc_evidence_factor iocs c4) = ''ioc_evidence''"
  "f_name (enrichment_status_factor st c5) = ''enrichment_status''"
  "f_name (threat_intel_factor iocs c6) = ''threat_intel''"
  "f_name (allowlist_factor iocs c7) = ''allowlist_modifier''"
  by (simp_all add: rule_severity_factor_def asset_criticality_factor_def
      recurrence_velocity_factor_def ioc_evidence_factor_def enrichment_status_factor_def
      threat_intel_factor_def allowlist_factor_def Let_def split: option.splits)

lemma groups_mitre_name:
  "rule_groups_mitre_factor rule cfg = Inr f \<Longrightarrow> f_name f = ''rule_groups_mitre''"
  by (auto simp: rule_groups_mitre_factor_def Let_def split: sum.splits)

lemma groups_mitre_raises_iff:
  "(\<exists>e. rule_groups_mitre_factor rule cfg = Inl e) \<longleftrightarrow>
     (\<exists>e. json_len (or_empty_list (dict_get (rule_mitre rule) ''tactic'')) = Inl e)"
  by (auto simp: rule_groups_mitre_factor_def Let_def split: sum.splits)

lemma sum_list_map_nonneg: "(\<And>x. x \<in> set xs \<Longrightarrow> 0 \<le> f x) \<Longrightarrow> 0 \<le> sum_list (map (f :: 'a \<Rightarrow> int) xs)"
  by (induction xs) auto

lemma ensure_Nil [simp]: "ensure b e = [] \<longleftrightarrow> b"
  by (simp add: ensure_def)

lemma concat_map_Nil [simp]: "concat (map f xs) = [] \<longleftrightarrow> (\<forall>x \<in> set xs. f x = [])"
  by (induction xs) auto

text \<open>What validation guarantees of the policy it returns.\<close>

lemma validate_InrD:
  assumes "scoring_policy_validate raw = Inr p"
  shows "policy_field_errors raw = []" "tiers_cover_0_to_100 (sp_tiers p) = None"
    and "p = raw\<lparr>sp_threat_intel := map_option normalise_intel (sp_threat_intel raw)\<rparr>"
  using assms by (auto simp: scoring_policy_validate_def split: list.splits option.splits)

definition weights_ok :: "scoring_policy \<Rightarrow> bool" where
  "weights_ok p \<longleftrightarrow>
     rule_groups_mitre_errors (sp_rule_groups_mitre p) = []
     \<and> recurrence_velocity_errors (sp_recurrence_velocity p) = []
     \<and> ioc_evidence_errors (sp_ioc_evidence p) = []
     \<and> 0 \<le> al_subtract (sp_allowlist p)
     \<and> (case sp_threat_intel p of None \<Rightarrow> True
        | Some c \<Rightarrow> 0 \<le> ti_max c \<and> virustotal_errors (ti_virustotal c) = []
            \<and> 0 \<le> mi_event_match_points (ti_misp c) \<and> 0 \<le> mi_threat_actor_bonus_points (ti_misp c))"

lemma validate_weights_ok: "scoring_policy_validate raw = Inr p \<Longrightarrow> weights_ok p"
  using validate_InrD(1) [of raw p] validate_InrD(3) [of raw p]
  by (auto simp: weights_ok_def policy_field_errors_def threat_intel_errors_def misp_errors_def
      normalise_intel_def split: option.splits)

lemma intel_award_nonneg:
  assumes "virustotal_errors (ti_virustotal c) = []"
    and "0 \<le> mi_event_match_points (ti_misp c)" "0 \<le> mi_threat_actor_bonus_points (ti_misp c)"
  shows "0 \<le> intel_award c i"
  using assms
  by (auto simp: intel_award_def vt_points_def misp_points_def virustotal_award_def
      virustotal_errors_def Let_def split: option.splits)

lemma groups_mitre_cap:
  assumes "rule_groups_mitre_factor rule c = Inr f" "rule_groups_mitre_errors c = []"
  shows "0 \<le> f_points f" "f_points f \<le> f_max f"
  using assms
  by (auto simp: rule_groups_mitre_factor_def rule_groups_mitre_errors_def Let_def
      split: sum.splits if_splits)

lemma recurrence_cap:
  assumes "recurrence_velocity_errors c = []"
  shows "0 \<le> f_points (recurrence_velocity_factor d c)"
    and "f_points (recurrence_velocity_factor d c) \<le> f_max (recurrence_velocity_factor d c)"
  using assms
  by (auto simp: recurrence_velocity_factor_def recurrence_velocity_errors_def
      recurrence_rule_errors_def Let_def split: option.splits intro!: sum_list_map_nonneg)

lemma ioc_evidence_cap:
  assumes "ioc_evidence_errors c = []"
  shows "0 \<le> f_points (ioc_evidence_factor iocs c)"
    and "f_points (ioc_evidence_factor iocs c) \<le> f_max (ioc_evidence_factor iocs c)"
  using assms by (auto simp: ioc_evidence_factor_def ioc_evidence_errors_def Let_def)

lemma threat_intel_cap:
  assumes "0 \<le> ti_max c" "virustotal_errors (ti_virustotal c) = []"
    and "0 \<le> mi_event_match_points (ti_misp c)" "0 \<le> mi_threat_actor_bonus_points (ti_misp c)"
  shows "0 \<le> f_points (threat_intel_factor iocs c)"
    and "f_points (threat_intel_factor iocs c) \<le> f_max (threat_intel_factor iocs c)"
proof -
  have "0 \<le> sum_list (map (intel_award c) iocs)"
    using assms(2-) by (intro sum_list_map_nonneg intel_award_nonneg)
  then show "0 \<le> f_points (threat_intel_factor iocs c)"
    using assms(1) by (simp add: threat_intel_points)
  show "f_points (threat_intel_factor iocs c) \<le> f_max (threat_intel_factor iocs c)"
    by (simp add: threat_intel_factor_def Let_def)
qed


subsection \<open>Properties\<close>

lemma json_len_Inl: "json_len v = Inl e \<Longrightarrow> e = TypeError"
  by (cases v) auto

definition factors_of :: "canonical_alert \<Rightarrow> scoring_policy \<Rightarrow> score_factor \<Rightarrow> score_factor list" where
  "factors_of a p g =
     [rule_severity_factor (se_rule (c_source_event a)) (sp_rule_severity p), g,
      asset_criticality_factor (c_asset a) (sp_asset_criticality p),
      recurrence_velocity_factor (c_dedupe a) (sp_recurrence_velocity p),
      ioc_evidence_factor (c_iocs a) (sp_ioc_evidence p),
      enrichment_status_factor (c_enrichment_status a) (sp_enrichment_status p)]
     @ (case sp_threat_intel p of None \<Rightarrow> [] | Some c \<Rightarrow> [threat_intel_factor (c_iocs a) c])
     @ [allowlist_factor (c_iocs a) (sp_allowlist p)]"

definition assessment_of :: "scoring_policy \<Rightarrow> score_factor list \<Rightarrow> risk_assessment" where
  "assessment_of p fs =
     (let score = clamp (sum_list (map f_points fs)) in
      \<lparr>r_score = score, r_tier = tier_for p score, r_engine_version = sp_engine_version p,
       r_factors = fs, r_summary = score_summary score (tier_for p score) fs, r_degraded = False\<rparr>)"

lemma score_alert_eq:
  "score_alert a p =
     (case rule_groups_mitre_factor (se_rule (c_source_event a)) (sp_rule_groups_mitre p) of
        Inl e \<Rightarrow> Inl e
      | Inr g \<Rightarrow> Inr (assessment_of p (factors_of a p g)))"
proof (cases "sp_threat_intel p")
  case None
  then show ?thesis
    by (simp add: score_alert_def factors_of_def assessment_of_def factor_order_def Let_def
        List.map_filter_def split: sum.split)
next
  case (Some c)
  then show ?thesis
    by (simp add: score_alert_def factors_of_def assessment_of_def factor_order_def Let_def
        List.map_filter_def split: sum.split)
qed

lemma score_alert_InrD:
  assumes "score_alert a p = Inr r"
  obtains g where "rule_groups_mitre_factor (se_rule (c_source_event a)) (sp_rule_groups_mitre p) = Inr g"
    and "r = assessment_of p (factors_of a p g)"
  using assms by (auto simp: score_alert_eq split: sum.splits)

lemma assessment_of_simps [simp]:
  "r_factors (assessment_of p fs) = fs"
  "r_score (assessment_of p fs) = clamp (sum_list (map f_points fs))"
  "r_tier (assessment_of p fs) = tier_for p (clamp (sum_list (map f_points fs)))"
  "r_degraded (assessment_of p fs) = False"
  "r_engine_version (assessment_of p fs) = sp_engine_version p"
  by (simp_all add: assessment_of_def Let_def)

lemma score_alert_raises_iff:
  "(\<exists>e. score_alert a p = Inl e) \<longleftrightarrow>
     (\<exists>e. json_len (or_empty_list (dict_get (rule_mitre (se_rule (c_source_event a))) ''tactic'')) = Inl e)"
  using groups_mitre_raises_iff [of "se_rule (c_source_event a)" "sp_rule_groups_mitre p"]
  by (auto simp: score_alert_eq split: sum.splits)

lemma clamp_range [simp]: "0 \<le> clamp x" "clamp x \<le> 100"
  by (auto simp: clamp_def)

lemma scorer_score_range: "0 \<le> r_score (risk_scorer_score p a) \<and> r_score (risk_scorer_score p a) \<le> 100"
  by (auto simp: risk_scorer_score_def degraded_score_def Let_def split: sum.splits
      elim: score_alert_InrD)

lemma scorer_tier: "r_tier (risk_scorer_score p a) = tier_for p (r_score (risk_scorer_score p a))"
  by (auto simp: risk_scorer_score_def degraded_score_def Let_def split: sum.splits
      elim: score_alert_InrD)

lemma scorer_degraded_iff:
  "r_degraded (risk_scorer_score p a) \<longleftrightarrow> (\<exists>e. score_alert a p = Inl e)"
  by (auto simp: risk_scorer_score_def degraded_score_def Let_def split: sum.splits
      elim: score_alert_InrD)

text \<open>
  C26. Scoring never fails and is always in contract: for every alert and every policy that
  validation accepts, \<open>RiskScorer.score\<close> returns a score in 0..100 whose tier is the one
  band that holds it.
\<close>

theorem scorer_in_contract:
  assumes "scoring_policy_validate raw = Inr p"
  shows "0 \<le> r_score (risk_scorer_score p a) \<and> r_score (risk_scorer_score p a) \<le> 100
    \<and> (\<exists>!b. b \<in> set (sp_tiers p) \<and> tb_min b \<le> r_score (risk_scorer_score p a)
          \<and> r_score (risk_scorer_score p a) \<le> tb_max b)
    \<and> (\<exists>b \<in> set (sp_tiers p). tb_min b \<le> r_score (risk_scorer_score p a)
          \<and> r_score (risk_scorer_score p a) \<le> tb_max b
          \<and> tb_name b = r_tier (risk_scorer_score p a))"
  using tier_for_band [OF validate_InrD(2) [OF assms]] scorer_score_range [of p a]
  by (simp add: scorer_tier)

text \<open>
  The degraded fallback is taken exactly when the MITRE \<open>tactic\<close> value of the alert is a
  number or \<open>True\<close> (a value that is truthy and has no length); in every other case the
  result is the full engine's.
\<close>

theorem degraded_iff_tactic_unsized:
  "r_degraded (risk_scorer_score p a) \<longleftrightarrow>
     (case dict_get (rule_mitre (se_rule (c_source_event a))) ''tactic'' of
        JBool b \<Rightarrow> b | JInt i \<Rightarrow> i \<noteq> 0 | JFloat m e \<Rightarrow> m \<noteq> 0
      | JInf _ \<Rightarrow> True | JNaN \<Rightarrow> True | _ \<Rightarrow> False)"
  unfolding scorer_degraded_iff score_alert_raises_iff
  by (simp add: or_empty_list_def split: json.splits)

text \<open>
  The factor list is fixed by the policy: the declared order, with \<open>threat_intel\<close> in its
  place exactly when the policy configures it.
\<close>

theorem factor_list_names:
  assumes "score_alert a p = Inr r"
  shows "map f_name (r_factors r) =
    filter (\<lambda>n. n = ''threat_intel'' \<longrightarrow> sp_threat_intel p \<noteq> None) factor_order"
  using assms
  by (elim score_alert_InrD)
     (simp add: factors_of_def factor_order_def groups_mitre_name split: option.split)

definition capped_factors :: "string list" where
  "capped_factors = [''rule_groups_mitre'', ''recurrence_velocity'', ''ioc_evidence'', ''threat_intel'']"

definition within_cap :: "score_factor \<Rightarrow> bool" where
  "within_cap f \<longleftrightarrow>
     (f_name f \<in> set capped_factors \<longrightarrow> 0 \<le> f_points f \<and> f_points f \<le> f_max f)
     \<and> (f_name f = ''allowlist_modifier'' \<longrightarrow> - f_max f \<le> f_points f \<and> f_points f \<le> 0)"

lemma within_cap_uncapped:
  "within_cap (rule_severity_factor rule c1)"
  "within_cap (asset_criticality_factor asset c2)"
  "within_cap (enrichment_status_factor st c3)"
  by (simp_all add: within_cap_def capped_factors_def)

lemma within_cap_capped:
  assumes "weights_ok p"
  shows "rule_groups_mitre_factor rule (sp_rule_groups_mitre p) = Inr g \<Longrightarrow> within_cap g"
    and "within_cap (recurrence_velocity_factor d (sp_recurrence_velocity p))"
    and "within_cap (ioc_evidence_factor iocs (sp_ioc_evidence p))"
    and "sp_threat_intel p = Some c \<Longrightarrow> within_cap (threat_intel_factor iocs c)"
    and "within_cap (allowlist_factor iocs (sp_allowlist p))"
  using assms
  by (simp_all add: weights_ok_def within_cap_def groups_mitre_name groups_mitre_cap recurrence_cap
      ioc_evidence_cap threat_intel_cap)
     (simp add: allowlist_factor_def capped_factors_def)

text \<open>
  Under a validated policy the four capped factors stay between 0 and their maximum, and
  the allowlist modifier between minus its maximum and 0.
\<close>

theorem capped_factor_bounds:
  assumes "scoring_policy_validate raw = Inr p" "score_alert a p = Inr r" "f \<in> set (r_factors r)"
  shows "(f_name f \<in> set capped_factors \<longrightarrow> 0 \<le> f_points f \<and> f_points f \<le> f_max f)
    \<and> (f_name f = ''allowlist_modifier'' \<longrightarrow> - f_max f \<le> f_points f \<and> f_points f \<le> 0)"
proof -
  note cap = within_cap_uncapped within_cap_capped [OF validate_weights_ok [OF assms(1)]]
  from assms(2) obtain g where g: "rule_groups_mitre_factor (se_rule (c_source_event a))
      (sp_rule_groups_mitre p) = Inr g" and r: "r = assessment_of p (factors_of a p g)"
    by (rule score_alert_InrD)
  have "\<forall>f \<in> set (factors_of a p g). within_cap f"
    using cap g by (auto simp only: factors_of_def set_append set_simps Un_iff insert_iff
        empty_iff option.set split: option.splits)
  with assms(3) show ?thesis by (simp add: r within_cap_def)
qed

end
