(* ===== verification/Scoring_Facts.thy ===== *)
theory Scoring_Facts
  imports Scoring_Engine
begin

text \<open>
  Properties of the scoring component that rest on several factors at once: loading a policy
  is idempotent, the score ignores the order of indicators, an intelligence outage only lowers
  the intel factor; with the closed examples the witnesses use.
\<close>

subsection \<open>Normalising text twice\<close>

lemma lower_char_idem [simp]: "lower_char (lower_char c) = lower_char c"
  by (auto simp: lower_char_def Let_def)

lemma ascii_ws_lower_char [simp]: "ascii_ws (lower_char c) = ascii_ws c"
  by (auto simp: lower_char_def ascii_ws_def Let_def)

lemma strip_lower: "strip (lower s) = lower (strip s)"
  by (simp add: strip_def lower_def dropWhile_map rev_map comp_def)

lemma lower_idem [simp]: "lower (lower s) = lower s"
  by (simp add: lower_def)

lemma clean_idem [simp]: "lower (strip (lower (strip s))) = lower (strip s)"
  by (simp add: strip_lower)

lemma add_tags_set: "set (add_tags acc ts) = set acc \<union> (\<lambda>t. lower (strip t)) ` set ts"
  by (induction acc ts rule: add_tags.induct) (auto simp: Let_def)

lemma add_tags_distinct: "distinct acc \<Longrightarrow> distinct (add_tags acc ts)"
  by (induction acc ts rule: add_tags.induct) (auto simp: Let_def)

lemma add_tags_clean:
  "distinct (acc @ ts) \<Longrightarrow> \<forall>t \<in> set ts. lower (strip t) = t \<Longrightarrow> add_tags acc ts = acc @ ts"
  by (induction acc ts rule: add_tags.induct) (auto simp: Let_def)

lemma normalized_tags_idem [simp]: "normalized_tags (normalized_tags ts) = normalized_tags ts"
  unfolding normalized_tags_def
  by (subst add_tags_clean) (auto simp: add_tags_distinct add_tags_set)

lemma known_types_idem [simp]: "known_types (known_types ts) = known_types ts"
  by (simp add: known_types_def sorted_sort_id sorted_remdups)

lemma normalise_intel_idem [simp]: "normalise_intel (normalise_intel c) = normalise_intel c"
  by (simp add: normalise_intel_def)

lemma sort_eq_Nil [simp]: "sort xs = [] \<longleftrightarrow> xs = []"
  by (metis length_0_conv length_sort)

lemma normalise_intel_errors:
  "threat_intel_errors c = [] \<Longrightarrow> threat_intel_errors (normalise_intel c) = []"
  by (auto simp: threat_intel_errors_def normalise_intel_def misp_errors_def normalized_tags_def
      add_tags_set known_types_def)

lemma intel_weights_normalised:
  "intel_weights_within_factor_max (map_option normalise_intel ti) = intel_weights_within_factor_max ti"
  by (cases ti) (simp_all add: intel_weights_within_factor_max_def normalise_intel_def Let_def)

text \<open>
  Loading is idempotent: the policy that validation returns is accepted again and
  returned unchanged, so the engine always runs on a normalised policy.
\<close>

theorem validate_idempotent:
  assumes "scoring_policy_validate raw = Inr p"
  shows "scoring_policy_validate p = Inr p"
proof -
  have p: "p = raw\<lparr>sp_threat_intel := map_option normalise_intel (sp_threat_intel raw)\<rparr>"
    and errs: "policy_field_errors raw = []"
    using validate_InrD [OF assms] by blast+
  have "policy_field_errors p = []"
    using errs by (auto simp: p policy_field_errors_def normalise_intel_errors split: option.splits)
  moreover have "intel_weights_within_factor_max (sp_threat_intel p) = None"
    using assms
    by (simp add: p scoring_policy_validate_def intel_weights_normalised
        split: list.splits option.splits)
  ultimately show ?thesis
    using validate_InrD(2) [OF assms]
    by (simp add: scoring_policy_validate_def p option.map_comp comp_def)
qed

subsection \<open>Order of indicators\<close>

lemma factors_of_permuted:
  assumes "mset is = mset (c_iocs a)" "distinct (map ioc_key (c_iocs a))"
  shows "factors_of (a\<lparr>c_iocs := is\<rparr>) p g = factors_of a p g"
proof -
  have "length is = length (c_iocs a)" "set is = set (c_iocs a)"
    using mset_eq_length [OF assms(1)] mset_eq_setD [OF assms(1)] by blast+
  then have "ioc_evidence_factor is c = ioc_evidence_factor (c_iocs a) c"
    and "allowlist_factor is c' = allowlist_factor (c_iocs a) c'" for c c'
    using sort_map_mset [OF assms(1), of "\<lambda>i. ioc_type_value (i_type i)"]
    by (simp_all only: ioc_evidence_factor_def allowlist_factor_def list_ex_iff)
  moreover have "threat_intel_factor is c = threat_intel_factor (c_iocs a) c" for c
    using sort_key_distinct_keys [OF assms] by (simp add: threat_intel_factor_def)
  ultimately show ?thesis by (simp add: factors_of_def split: option.split)
qed

text \<open>
  The whole assessment (score, tier, factor texts, summary, or the exception) does not
  depend on the order in which extraction or enrichment lists the indicators.
\<close>

theorem score_ignores_ioc_order:
  assumes "mset is = mset (c_iocs a)" "distinct (map ioc_key (c_iocs a))"
  shows "score_alert (a\<lparr>c_iocs := is\<rparr>) p = score_alert a p"
  using factors_of_permuted [OF assms] by (simp add: score_alert_eq split: sum.split)

subsection \<open>Provider outages\<close>

text \<open>
  \<open>intel_lost i j\<close>: indicator \<open>j\<close> is \<open>i\<close> where each provider's payload is kept, gone, or
  replaced by a lookup that failed, timed out or was rate limited.
\<close>

definition intel_lost :: "ioc \<Rightarrow> ioc \<Rightarrow> bool" where
  "intel_lost i j \<longleftrightarrow> i_type j = i_type i
     \<and> (\<forall>prov. provider_payload j prov = provider_payload i prov
         \<or> (case provider_payload j prov of None \<Rightarrow> True | Some pl \<Rightarrow> \<not> lookup_available pl))"

abbreviation payload_lost :: "ioc \<Rightarrow> string \<Rightarrow> bool" where
  "payload_lost j prov \<equiv>
     (case provider_payload j prov of None \<Rightarrow> True | Some pl \<Rightarrow> \<not> lookup_available pl)"

lemma vt_points_cong:
  "i_type j = i_type i \<Longrightarrow> provider_payload j (vt_provider (ti_virustotal c)) =
     provider_payload i (vt_provider (ti_virustotal c)) \<Longrightarrow> vt_points c j = vt_points c i"
  by (simp add: vt_points_def cong: option.case_cong)

lemma misp_points_cong:
  "i_type j = i_type i \<Longrightarrow> provider_payload j (mi_provider (ti_misp c)) =
     provider_payload i (mi_provider (ti_misp c)) \<Longrightarrow> misp_points c j = misp_points c i"
  by (simp add: misp_points_def cong: option.case_cong)

lemma vt_points_lost: "payload_lost j (vt_provider (ti_virustotal c)) \<Longrightarrow> vt_points c j = 0"
  by (cases "provider_payload j (vt_provider (ti_virustotal c))") (simp_all add: vt_points_def)

lemma misp_points_lost: "payload_lost j (mi_provider (ti_misp c)) \<Longrightarrow> misp_points c j = 0"
  by (cases "provider_payload j (mi_provider (ti_misp c))") (simp_all add: misp_points_def)

lemma intel_award_lost:
  assumes "intel_lost i j" "virustotal_errors (ti_virustotal c) = []"
    and "0 \<le> mi_event_match_points (ti_misp c)" "0 \<le> mi_threat_actor_bonus_points (ti_misp c)"
  shows "intel_award c j \<le> intel_award c i"
proof -
  have ty: "i_type j = i_type i"
    and lost: "provider_payload j q = provider_payload i q
      \<or> (case provider_payload j q of None \<Rightarrow> True | Some pl \<Rightarrow> \<not> lookup_available pl)" for q
    using assms(1) unfolding intel_lost_def by blast+
  have vt: "vt_points c j = vt_points c i \<or> vt_points c j = 0"
    using lost [of "vt_provider (ti_virustotal c)"] vt_points_cong vt_points_lost ty by blast
  have mi: "misp_points c j = misp_points c i \<or> misp_points c j = 0"
    using lost [of "mi_provider (ti_misp c)"] misp_points_cong misp_points_lost ty by blast
  have "0 \<le> vt_points c i" "0 \<le> misp_points c i"
    using assms(2-) by (auto simp: vt_points_def misp_points_def virustotal_award_def
        virustotal_errors_def Let_def split: option.splits)
  with vt mi have "vt_points c j \<le> vt_points c i" "misp_points c j \<le> misp_points c i" by auto
  with ty show ?thesis by (simp add: intel_award_def)
qed

text \<open>
  An intelligence outage can only lower the intel factor: dropping provider payloads, or
  replacing them by failed lookups, on any of the indicators never raises its points.
\<close>

theorem intel_outage_only_lowers:
  assumes "scoring_policy_validate raw = Inr p" "sp_threat_intel p = Some c"
    and "list_all2 intel_lost is js"
  shows "f_points (threat_intel_factor js c) \<le> f_points (threat_intel_factor is c)"
proof -
  have ok: "virustotal_errors (ti_virustotal c) = []" "0 \<le> mi_event_match_points (ti_misp c)"
      "0 \<le> mi_threat_actor_bonus_points (ti_misp c)"
    using validate_weights_ok [OF assms(1)] assms(2) by (simp_all add: weights_ok_def)
  have "sum_list (map (intel_award c) js) \<le> sum_list (map (intel_award c) is)"
    using assms(3)
    by (induction rule: list_all2_induct) (auto simp: intel_award_lost [OF _ ok] intro: add_mono)
  then show ?thesis by (simp add: threat_intel_points)
qed

text \<open>
  The intel factor is the sum of the documented per-indicator awards, capped: the loop
  with its running state, sorting and narration computes exactly the reference
  \<open>intel_award\<close> (VirusTotal band plus MISP match plus at most one threat-actor bonus).
\<close>

theorem threat_intel_is_capped_sum:
  "f_points (threat_intel_factor iocs cfg) = min (sum_list (map (intel_award cfg) iocs)) (ti_max cfg)"
  by (rule threat_intel_points)


subsection \<open>Point tables outside their factor's range\<close>

text \<open>A policy file whose enrichment table exceeds its maximum and has a negative band.\<close>

definition loose_policy :: scoring_policy where
  "loose_policy = default_scoring_policy\<lparr>
     sp_enrichment_status := \<lparr>es_max = 5, es_points = [(''complete'', 50), (''failed'', -40)]\<rparr>,
     sp_asset_criticality := (sp_asset_criticality default_scoring_policy)\<lparr>
       ac_bands := [(''low'', -5)]\<rparr>\<rparr>"

text \<open>
  Validation does not bound the point tables: a policy that awards 50 of 5 points, and
  negative points, is accepted as it is, and the engine then emits a factor above its own
  maximum and a factor below 0.
\<close>

theorem point_tables_unchecked:
  "scoring_policy_validate loose_policy = Inr loose_policy
   \<and> f_points (enrichment_status_factor (Some ''complete'') (sp_enrichment_status loose_policy))
       > f_max (enrichment_status_factor (Some ''complete'') (sp_enrichment_status loose_policy))
   \<and> f_points (asset_criticality_factor (Some \<lparr>asset_name = None, asset_tier = Some ''low'', asset_owner = None\<rparr>)
       (sp_asset_criticality loose_policy)) < 0"
  by code_simp

subsection \<open>Examples\<close>

definition sample_ioc :: ioc where
  "sample_ioc = \<lparr>i_type = IPV4, i_value = ''203.0.113.50'', i_provenance = [],
     i_enrichment = [(''virustotal'', JObj [(''lookup_status'', JStr ''found''),
        (''result'', JObj [(''malicious'', JInt 12), (''suspicious'', JInt 1)])])]\<rparr>"

definition sample_domain :: ioc where
  "sample_domain = \<lparr>i_type = DOMAIN, i_value = ''evil.example.com'', i_provenance = [],
     i_enrichment = [(''misp'', JObj [(''lookup_status'', JStr ''found''),
        (''result'', JObj [(''match_count'', JInt 2), (''tags'', JList [JStr ''apt:28''])])])]\<rparr>"

definition sample_alert :: canonical_alert where
  "sample_alert = \<lparr>c_alert_id = 1, c_source = ''wazuh'', c_received_at = 0,
     c_source_event = \<lparr>se_rule = \<lparr>rule_id = ''5710'', rule_level = 10, rule_description = ''sshd'',
         rule_groups = [''syslog'', ''attack''],
         rule_mitre = [(''id'', JList [JStr ''T1110'']), (''tactic'', JList [JStr ''Credential Access''])]\<rparr>,
       se_agent = \<lparr>agent_id = ''001'', agent_name = ''web'', agent_ip = None\<rparr>,
       se_location = None, se_full_log = None, se_data = [], se_syscheck = []\<rparr>,
     c_dedupe = None, c_iocs = [sample_ioc, sample_domain],
     c_asset = Some \<lparr>asset_name = None, asset_tier = Some ''Tier-1'', asset_owner = None\<rparr>,
     c_enrichment_status = Some ''complete'', c_risk = None, c_decision = None\<rparr>"

lemma yaml_accepted: "scoring_policy_validate scoring_yaml = Inr default_scoring_policy"
  by code_simp

lemma sample_score:
  "map_sum id (\<lambda>r. (r_score r, r_tier r, map f_points (r_factors r)))
     (score_alert sample_alert default_scoring_policy)
   = Inr (92, CRITICAL, [30, 8, 18, 0, 6, 5, 25, 0])"
  by code_simp

subsection \<open>Witnesses\<close>

lemma sample_scored:
  obtains r where "score_alert sample_alert default_scoring_policy = Inr r"
    "map f_points (r_factors r) = [30, 8, 18, 0, 6, 5, 25, 0]"
  using sample_score by (cases "score_alert sample_alert default_scoring_policy") auto

theorem scorer_in_contract_witness:
  "\<exists>b \<in> set (sp_tiers default_scoring_policy).
     tb_min b \<le> r_score (risk_scorer_score default_scoring_policy sample_alert)
     \<and> tb_name b = r_tier (risk_scorer_score default_scoring_policy sample_alert)"
  using scorer_in_contract [OF yaml_accepted, of sample_alert] by blast

theorem factor_list_names_witness:
  "\<exists>r. score_alert sample_alert default_scoring_policy = Inr r
     \<and> hd (map f_name (r_factors r)) = ''rule_severity''"
proof -
  obtain r where r: "score_alert sample_alert default_scoring_policy = Inr r" by (rule sample_scored)
  from factor_list_names [OF r] have "hd (map f_name (r_factors r)) = ''rule_severity''"
    by (simp add: factor_order_def)
  with r show ?thesis by blast
qed

theorem capped_factor_bounds_witness:
  "\<exists>r. score_alert sample_alert default_scoring_policy = Inr r
     \<and> 0 \<le> f_points (r_factors r ! 1) \<and> f_points (r_factors r ! 1) \<le> f_max (r_factors r ! 1)"
proof -
  obtain r where r: "score_alert sample_alert default_scoring_policy = Inr r"
      "map f_points (r_factors r) = [30, 8, 18, 0, 6, 5, 25, 0]" by (rule sample_scored)
  then have "length (map f_points (r_factors r)) = length [30::int, 8, 18, 0, 6, 5, 25, 0]" by (simp only:)
  then have len: "length (r_factors r) = 8" by simp
  have "map f_name (r_factors r) ! 1 = ''rule_groups_mitre''"
    by (simp add: factor_list_names [OF r(1)] factor_order_def)
  with len have "f_name (r_factors r ! 1) \<in> set capped_factors" by (simp add: capped_factors_def)
  with capped_factor_bounds [OF yaml_accepted r(1), of "r_factors r ! 1"] len r(1)
  show ?thesis by simp
qed

theorem validate_idempotent_witness:
  "scoring_policy_validate default_scoring_policy = Inr default_scoring_policy"
  by (rule validate_idempotent [OF yaml_accepted])

theorem score_ignores_ioc_order_witness:
  "score_alert (sample_alert\<lparr>c_iocs := [sample_domain, sample_ioc]\<rparr>) default_scoring_policy
     = score_alert sample_alert default_scoring_policy"
proof (rule score_ignores_ioc_order)
  show "mset [sample_domain, sample_ioc] = mset (c_iocs sample_alert)" by (simp add: sample_alert_def)
  show "distinct (map ioc_key (c_iocs sample_alert))" by code_simp
qed

theorem intel_outage_only_lowers_witness:
  "\<exists>c. sp_threat_intel default_scoring_policy = Some c
     \<and> f_points (threat_intel_factor [sample_ioc\<lparr>i_enrichment := []\<rparr>] c)
       \<le> f_points (threat_intel_factor [sample_ioc] c)"
proof -
  obtain c where c: "sp_threat_intel default_scoring_policy = Some c"
    by (simp add: default_scoring_policy_def)
  have "intel_lost sample_ioc (sample_ioc\<lparr>i_enrichment := []\<rparr>)"
    by (simp add: intel_lost_def provider_payload_def dict_get_def)
  with intel_outage_only_lowers [OF yaml_accepted c, of "[sample_ioc]" "[sample_ioc\<lparr>i_enrichment := []\<rparr>]"] c
  show ?thesis by simp
qed

end
