(* ===== verification/Decision_Router.thy ===== *)
theory Decision_Router
  imports Scoring_Facts
begin

text \<open>
  The decision engine (decisions/policy.py, decisions/router.py): the tier table with its
  validators and the pure \<open>decide\<close>. A missing tier is the \<open>KeyError\<close> of the subscript; a
  validated policy has none. \<open>now\<close> stands for the clock read when no timestamp is given.
\<close>

subsection \<open>Policy\<close>

record tier_decision =
  td_action :: decision_action
  td_severity :: "decision_severity option"

record decision_policy =
  dp_policy_version :: string
  dp_tier_actions :: "(risk_tier, tier_decision) dict"
  dp_allowlisted_action :: decision_action

datatype decision_policy_error =
    Blank_policy_version
  | Severity_required
  | Severity_not_allowed decision_action
  | Missing_tiers "risk_tier list"

definition severity_consistency :: "tier_decision \<Rightarrow> decision_policy_error option" where
  "severity_consistency td =
     (if td_action td = OPEN_INCIDENT \<and> td_severity td = None then Some Severity_required
      else if td_action td \<noteq> OPEN_INCIDENT \<and> td_severity td \<noteq> None
        then Some (Severity_not_allowed (td_action td))
      else None)"

definition all_tiers_present :: "decision_policy \<Rightarrow> decision_policy_error option" where
  "all_tiers_present p =
     (let missing = filter (\<lambda>t. map_of (dp_tier_actions p) t = None) all_risk_tiers in
      if missing \<noteq> [] then Some (Missing_tiers missing) else None)"

definition decision_policy_validate :: "decision_policy \<Rightarrow> decision_policy_error list + decision_policy" where
  "decision_policy_validate p =
     (let field_errors =
        (if dp_policy_version p = [] then [Blank_policy_version] else [])
        @ List.map_filter (\<lambda>(t, td). severity_consistency td) (dp_tier_actions p)
      in if field_errors \<noteq> [] then Inl field_errors
         else (case all_tiers_present p of Some e \<Rightarrow> Inl [e] | None \<Rightarrow> Inr p))"

subsection \<open>Routing\<close>

definition alert_is_allowlisted :: "canonical_alert \<Rightarrow> bool" where
  "alert_is_allowlisted a = list_ex ioc_is_allowlisted (c_iocs a)"

definition decide ::
    "risk_assessment \<Rightarrow> canonical_alert \<Rightarrow> decision_policy \<Rightarrow> instant option \<Rightarrow> instant
      \<Rightarrow> py_exn + decision" where
  "decide risk alert policy decided_at now =
     (let decided = (case decided_at of None \<Rightarrow> now | Some t \<Rightarrow> t) in
      if alert_is_allowlisted alert then
        Inr \<lparr>d_action = dp_allowlisted_action policy, d_severity = None,
          d_reasons = [''allowlisted indicator present; suppressed regardless of score''],
          d_runbook = None, d_decided_at = decided\<rparr>
      else
        (case map_of (dp_tier_actions policy) (r_tier risk) of
           None \<Rightarrow> Inl LookupError
         | Some td \<Rightarrow>
             Inr \<lparr>d_action = td_action td, d_severity = td_severity td,
               d_reasons =
                 [''score='' @ int_str (r_score risk) @ '' tier='' @ risk_tier_value (r_tier risk)]
                 @ (case td_severity td of None \<Rightarrow> []
                    | Some s \<Rightarrow> [''severity='' @ decision_severity_value s]),
               d_runbook = None, d_decided_at = decided\<rparr>))"

text \<open>The bundled app/config/decisions.yaml.\<close>

definition default_decision_policy :: decision_policy where
  "default_decision_policy = \<lparr>dp_policy_version = ''decisions.v1'',
     dp_tier_actions =
       [(INFORMATIONAL, \<lparr>td_action = MONITOR, td_severity = None\<rparr>),
        (LOW, \<lparr>td_action = MONITOR, td_severity = None\<rparr>),
        (MEDIUM, \<lparr>td_action = QUEUE_L1, td_severity = None\<rparr>),
        (HIGH, \<lparr>td_action = OPEN_INCIDENT, td_severity = Some SEV2\<rparr>),
        (CRITICAL, \<lparr>td_action = OPEN_INCIDENT, td_severity = Some SEV1\<rparr>)],
     dp_allowlisted_action = SUPPRESS\<rparr>"

subsection \<open>What validation gives\<close>

lemma decision_validate_InrD:
  assumes "decision_policy_validate raw = Inr p"
  shows "p = raw" "\<exists>td. map_of (dp_tier_actions p) t = Some td"
    and "map_of (dp_tier_actions p) t = Some td \<Longrightarrow> (td_action td = OPEN_INCIDENT \<longleftrightarrow> td_severity td \<noteq> None)"
proof -
  from assms show p: "p = raw"
    by (auto simp: decision_policy_validate_def Let_def split: if_splits option.splits)
  have "t \<in> set all_risk_tiers" by simp
  moreover from assms p have "filter (\<lambda>t. map_of (dp_tier_actions p) t = None) all_risk_tiers = []"
    by (auto simp: decision_policy_validate_def all_tiers_present_def Let_def
        split: if_splits option.splits)
  ultimately show "\<exists>td. map_of (dp_tier_actions p) t = Some td"
    by (auto simp: filter_empty_conv)
  assume "map_of (dp_tier_actions p) t = Some td"
  then have "(t, td) \<in> set (dp_tier_actions p)" by (rule map_of_SomeD)
  moreover from assms p have "List.map_filter (\<lambda>(t, td). severity_consistency td) (dp_tier_actions p) = []"
    by (auto simp: decision_policy_validate_def Let_def split: if_splits option.splits)
  ultimately have "severity_consistency td = None"
    by (auto simp: List.map_filter_def filter_empty_conv)
  then show "td_action td = OPEN_INCIDENT \<longleftrightarrow> td_severity td \<noteq> None"
    by (auto simp: severity_consistency_def split: if_splits)
qed

subsection \<open>Properties\<close>

text \<open>
  Routing under a validated policy never fails and follows the table: an allowlisted alert
  gets the allowlist action and no severity whatever its score; any other alert gets its
  tier's action, and then \<open>open_incident\<close> carries a severity and no other action does.
\<close>

theorem decide_spec:
  assumes "decision_policy_validate raw = Inr p"
  shows "\<exists>d. decide risk alert p at now = Inr d
    \<and> d_decided_at d = (case at of None \<Rightarrow> now | Some t \<Rightarrow> t)
    \<and> (if alert_is_allowlisted alert
       then d_action d = dp_allowlisted_action p \<and> d_severity d = None
       else (\<exists>td. map_of (dp_tier_actions p) (r_tier risk) = Some td
               \<and> d_action d = td_action td \<and> d_severity d = td_severity td
               \<and> (d_action d = OPEN_INCIDENT \<longleftrightarrow> d_severity d \<noteq> None)))"
proof -
  obtain td where td: "map_of (dp_tier_actions p) (r_tier risk) = Some td"
    using decision_validate_InrD(2) [OF assms] by blast
  note open_iff = decision_validate_InrD(3) [OF assms td]
  show ?thesis
  proof (cases "alert_is_allowlisted alert")
    case True
    then show ?thesis by (simp add: decide_def Let_def)
  next
    case False
    with td open_iff show ?thesis by (simp add: decide_def Let_def)
  qed
qed

theorem decide_spec_witness:
  "\<exists>d. decide (risk_scorer_score default_scoring_policy sample_alert) sample_alert
      default_decision_policy (Some 7) 0 = Inr d \<and> d_decided_at d = 7"
proof -
  have ok: "decision_policy_validate default_decision_policy = Inr default_decision_policy"
    by code_simp
  show ?thesis
    using decide_spec [OF ok, of "risk_scorer_score default_scoring_policy sample_alert" sample_alert
        "Some 7" 0] by auto
qed

text \<open>An accepted policy that routes allowlisted sources to \<open>open_incident\<close>.\<close>

definition escalating_allowlist_policy :: decision_policy where
  "escalating_allowlist_policy = default_decision_policy\<lparr>dp_allowlisted_action := OPEN_INCIDENT\<rparr>"

text \<open>
  The allowlist action is not covered by the severity check: a policy that routes
  allowlisted sources to \<open>open_incident\<close> is accepted, and such an alert then gets an
  \<open>open_incident\<close> decision without a severity, explained as suppressed.
\<close>

theorem allowlist_action_unchecked:
  "decision_policy_validate escalating_allowlist_policy = Inr escalating_allowlist_policy
   \<and> (alert_is_allowlisted alert \<longrightarrow>
       (\<exists>d. decide risk alert escalating_allowlist_policy at now = Inr d
          \<and> d_action d = OPEN_INCIDENT \<and> d_severity d = None
          \<and> d_reasons d = [''allowlisted indicator present; suppressed regardless of score'']))"
proof -
  have "decision_policy_validate escalating_allowlist_policy = Inr escalating_allowlist_policy"
    by code_simp
  then show ?thesis
    by (simp add: decide_def Let_def escalating_allowlist_policy_def)
qed

definition allowlisted_alert :: canonical_alert where
  "allowlisted_alert = sample_alert\<lparr>c_iocs := [sample_ioc\<lparr>i_enrichment :=
     [(''allowlist'', JObj [(''matched'', JBool True)])]\<rparr>]\<rparr>"

theorem allowlist_action_unchecked_witness:
  "\<exists>d. decide (risk_scorer_score default_scoring_policy allowlisted_alert) allowlisted_alert
      escalating_allowlist_policy (Some 7) 0 = Inr d \<and> d_action d = OPEN_INCIDENT \<and> d_severity d = None"
proof -
  have "alert_is_allowlisted allowlisted_alert" by code_simp
  then show ?thesis
    using allowlist_action_unchecked [of allowlisted_alert
        "risk_scorer_score default_scoring_policy allowlisted_alert" "Some 7" 0] by auto
qed

end
