(* ===== verification/Dedup_Keys.thy ===== *)
theory Dedup_Keys
  imports Alert_Model
begin

text \<open>
  The source alert (ingest/schemas.py) and the keys deduplication derives from it
  (ingest/deduplication.py): percent-encoded group keys, event identities, and the payload
  fingerprint. The SHA-256 of a serialized payload is the parameter \<open>digest\<close>, applied to
  the payload after key sorting.
\<close>

subsection \<open>The validated source alert\<close>

record wazuh_mitre =
  wm_id :: "string list"
  wm_tactic :: "string list"
  wm_technique :: "string list"
  wm_extra :: "(string, json) dict"

record wazuh_rule =
  wr_id :: string
  wr_level :: nat
  wr_description :: string
  wr_groups :: "string list"
  wr_mitre :: "wazuh_mitre option"
  wr_firedtimes :: nat
  wr_mail :: bool
  wr_extra :: "(string, json) dict"

record wazuh_agent =
  wg_id :: string
  wg_name :: string
  wg_ip :: "string option"
  wg_labels :: "(string, json) dict option"
  wg_extra :: "(string, json) dict"

record wazuh_data =
  wd_srcip :: "string option"
  wd_srcport :: json
  wd_dstip :: "string option"
  wd_srcuser :: "string option"
  wd_dstuser :: "string option"
  wd_protocol :: "string option"
  wd_extra :: "(string, json) dict"

record wazuh_alert =
  w_id :: "string option"
  w_timestamp :: "string option"
  w_rule :: wazuh_rule
  w_agent :: wazuh_agent
  w_data :: "wazuh_data option"
  w_manager :: "(string, json) dict option"
  w_decoder :: "(string, json) dict option"
  w_location :: "string option"
  w_full_log :: "string option"
  w_syscheck :: "(string, json) dict option"
  w_extra :: "(string, json) dict"

subsection \<open>The JSON dump of an alert\<close>

definition str_or_null :: "string option \<Rightarrow> json" where
  "str_or_null s = (case s of None \<Rightarrow> JNull | Some s \<Rightarrow> JStr s)"

definition obj_or_null :: "(string, json) dict option \<Rightarrow> json" where
  "obj_or_null d = (case d of None \<Rightarrow> JNull | Some d \<Rightarrow> JObj d)"

definition str_list :: "string list \<Rightarrow> json" where
  "str_list xs = JList (map JStr xs)"

definition mitre_dump :: "wazuh_mitre \<Rightarrow> (string, json) dict" where
  "mitre_dump m =
     [(''id'', str_list (wm_id m)), (''tactic'', str_list (wm_tactic m)),
      (''technique'', str_list (wm_technique m))] @ wm_extra m"

definition rule_dump :: "wazuh_rule \<Rightarrow> (string, json) dict" where
  "rule_dump r =
     [(''id'', JStr (wr_id r)), (''level'', JInt (int (wr_level r))),
      (''description'', JStr (wr_description r)), (''groups'', str_list (wr_groups r)),
      (''mitre'', obj_or_null (map_option mitre_dump (wr_mitre r))),
      (''firedtimes'', JInt (int (wr_firedtimes r))), (''mail'', JBool (wr_mail r))] @ wr_extra r"

definition agent_dump :: "wazuh_agent \<Rightarrow> (string, json) dict" where
  "agent_dump g =
     [(''id'', JStr (wg_id g)), (''name'', JStr (wg_name g)), (''ip'', str_or_null (wg_ip g)),
      (''labels'', obj_or_null (wg_labels g))] @ wg_extra g"

definition data_dump :: "wazuh_data \<Rightarrow> (string, json) dict" where
  "data_dump d =
     [(''srcip'', str_or_null (wd_srcip d)), (''srcport'', wd_srcport d),
      (''dstip'', str_or_null (wd_dstip d)), (''srcuser'', str_or_null (wd_srcuser d)),
      (''dstuser'', str_or_null (wd_dstuser d)), (''protocol'', str_or_null (wd_protocol d))]
     @ wd_extra d"

definition alert_dump :: "wazuh_alert \<Rightarrow> (string, json) dict" where
  "alert_dump a =
     [(''id'', str_or_null (w_id a)), (''timestamp'', str_or_null (w_timestamp a)),
      (''rule'', JObj (rule_dump (w_rule a))), (''agent'', JObj (agent_dump (w_agent a))),
      (''data'', obj_or_null (map_option data_dump (w_data a))),
      (''manager'', obj_or_null (w_manager a)), (''decoder'', obj_or_null (w_decoder a)),
      (''location'', str_or_null (w_location a)), (''full_log'', str_or_null (w_full_log a)),
      (''syscheck'', obj_or_null (w_syscheck a))] @ w_extra a"

subsection \<open>Identity payload and fingerprint\<close>

definition volatile_identity_fields :: "string list list" where
  "volatile_identity_fields = [[''rule'', ''firedtimes''], [''id'']]"

fun pop_path :: "string list \<Rightarrow> (string, json) dict \<Rightarrow> (string, json) dict" where
  "pop_path [] d = d"
| "pop_path [k] d = AList.delete k d"
| "pop_path (k # k' # ks) d =
     (case map_of d k of Some (JObj kvs) \<Rightarrow> AList.update k (JObj (pop_path (k' # ks) kvs)) d | _ \<Rightarrow> d)"

definition identity_payload :: "wazuh_alert \<Rightarrow> (string, json) dict" where
  "identity_payload a = fold pop_path volatile_identity_fields (alert_dump a)"

primrec sort_keys :: "json \<Rightarrow> json" where
  "sort_keys JNull = JNull"
| "sort_keys (JBool b) = JBool b"
| "sort_keys (JInt i) = JInt i"
| "sort_keys (JFloat m e) = JFloat m e"
| "sort_keys (JInf pos) = JInf pos"
| "sort_keys JNaN = JNaN"
| "sort_keys (JStr s) = JStr s"
| "sort_keys (JList xs) = JList (map sort_keys xs)"
| "sort_keys (JObj kvs) = JObj (sort_key fst (map (map_prod id sort_keys) kvs))"

definition payload_fingerprint :: "(json \<Rightarrow> string) \<Rightarrow> wazuh_alert \<Rightarrow> string" where
  "payload_fingerprint digest a = digest (sort_keys (JObj (identity_payload a)))"

subsection \<open>Keys\<close>

definition require_non_empty :: "string \<Rightarrow> py_exn + string" where
  "require_non_empty value =
     (let cleaned = strip value in if cleaned = [] then Inl InvalidDedupeInputError else Inr cleaned)"

definition require_aware :: "datetime \<Rightarrow> py_exn + instant" where
  "require_aware t = (if is_aware t then Inr (as_utc t) else Inl InvalidDedupeInputError)"

definition unreserved :: "char \<Rightarrow> bool" where
  "unreserved c =
     (let n = of_char c :: nat in
      (48 \<le> n \<and> n \<le> 57) \<or> (65 \<le> n \<and> n \<le> 90) \<or> (97 \<le> n \<and> n \<le> 122)
      \<or> c \<in> set ''_.-~'')"

definition upper_hex :: "nat \<Rightarrow> char" where
  "upper_hex d = char_of (if d < 10 then 48 + d else 55 + d)"

definition quote_char :: "char \<Rightarrow> string" where
  "quote_char c =
     (if unreserved c then [c]
      else let n = of_char c :: nat in [CHR ''%'', upper_hex (n div 16), upper_hex (n mod 16)])"

definition quote :: "string \<Rightarrow> string" where
  "quote s = concat (map quote_char s)"

definition quote_component :: "string \<Rightarrow> py_exn + string" where
  "quote_component value = then_ok (require_non_empty value) (\<lambda>cleaned. Inr (quote cleaned))"

definition compute_group_key :: "string \<Rightarrow> string \<Rightarrow> py_exn + string" where
  "compute_group_key rid gid =
     then_ok (quote_component rid) (\<lambda>r.
     then_ok (quote_component gid) (\<lambda>a.
       Inr (''wazuh:'' @ r @ '':'' @ a)))"

definition compute_event_identity :: "(json \<Rightarrow> string) \<Rightarrow> wazuh_alert \<Rightarrow> py_exn + string" where
  "compute_event_identity digest alert =
     then_ok (require_non_empty (wr_id (w_rule alert))) (\<lambda>rid.
     then_ok (require_non_empty (wg_id (w_agent alert))) (\<lambda>gid.
       let event_id = strip (case w_id alert of None \<Rightarrow> [] | Some s \<Rightarrow> s) in
       if event_id \<noteq> [] then
         then_ok (quote_component event_id) (\<lambda>e.
         then_ok (quote_component rid) (\<lambda>r.
         then_ok (quote_component gid) (\<lambda>a.
           Inr (''wazuh:'' @ e @ '':'' @ r @ '':'' @ a))))
       else Inr (''wazuh-h1:'' @ payload_fingerprint digest alert)))"

text \<open>What one delivery is classified by: its identity, group, fingerprint and arrival.\<close>

record delivery_key =
  k_identity :: string
  k_group :: string
  k_fingerprint :: string
  k_received :: instant

definition delivery_key_of ::
  "(json \<Rightarrow> string) \<Rightarrow> wazuh_alert \<Rightarrow> datetime \<Rightarrow> py_exn + delivery_key" where
  "delivery_key_of digest alert received_at =
     then_ok (compute_event_identity digest alert) (\<lambda>identity.
     then_ok (compute_group_key (wr_id (w_rule alert)) (wg_id (w_agent alert))) (\<lambda>group_key.
     then_ok (require_aware received_at) (\<lambda>received.
       Inr \<lparr>k_identity = identity, k_group = group_key,
             k_fingerprint = payload_fingerprint digest alert, k_received = received\<rparr>)))"

subsection \<open>The keys are injective\<close>

lemma colon_not_unreserved: "\<not> unreserved (CHR '':'')"
  by (simp add: unreserved_def)

lemma percent_not_unreserved: "\<not> unreserved (CHR ''%'')"
  by (simp add: unreserved_def)

lemma upper_hex_unreserved: "d < 16 \<Longrightarrow> unreserved (upper_hex d)"
  by (auto simp: upper_hex_def unreserved_def)

lemma upper_hex_code: "d < 16 \<Longrightarrow> of_char (upper_hex d) = (if d < 10 then 48 + d else 55 + d)"
  by (simp add: upper_hex_def take_bit_eq_mod)

lemma upper_hex_inject: assumes "c < 16" "d < 16" shows "upper_hex c = upper_hex d \<longleftrightarrow> c = d"
proof
  assume "upper_hex c = upper_hex d"
  with assms have "(if c < 10 then 48 + c else 55 + c) = (if d < 10 then 48 + d else 55 + d)"
    using upper_hex_code by metis
  then show "c = d" by (simp split: if_splits)
qed simp

lemma char_high_digit: "(of_char c :: nat) div 16 < 16"
proof -
  have "(of_char c :: nat) < 256" by (rule nat_of_char_less_256)
  then show ?thesis by linarith
qed

lemma set_quote_char: "x \<in> set (quote_char c) \<Longrightarrow> unreserved x \<or> x = CHR ''%''"
  using char_high_digit [of c]
  by (auto simp: quote_char_def Let_def upper_hex_unreserved split: if_splits)

lemma quote_no_colon: "CHR '':'' \<notin> set (quote s)"
  using set_quote_char colon_not_unreserved by (fastforce simp: quote_def)

lemma quote_char_append_inject:
  "quote_char c @ xs = quote_char d @ ys \<longleftrightarrow> c = d \<and> xs = ys"
proof -
  have "c = d" if "(of_char c :: nat) div 16 = of_char d div 16" "(of_char c :: nat) mod 16 = of_char d mod 16"
    using that by (metis div_mult_mod_eq of_char_eq_iff)
  then show ?thesis
    using char_high_digit [of c] char_high_digit [of d] percent_not_unreserved
    by (auto simp: quote_char_def Let_def upper_hex_inject split: if_splits)
qed

lemma quote_inject [simp]: "quote s = quote t \<longleftrightarrow> s = t"
proof (induction s arbitrary: t)
  case Nil
  then show ?case by (cases t) (auto simp: quote_def quote_char_def Let_def)
next
  case (Cons c s)
  show ?case
  proof (cases t)
    case Nil
    then show ?thesis by (auto simp: quote_def quote_char_def Let_def)
  next
    case (Cons d t')
    with Cons.IH [of t'] show ?thesis by (simp add: quote_def quote_char_append_inject)
  qed
qed

lemma require_non_empty_eq [simp]:
  "require_non_empty s = Inr t \<longleftrightarrow> strip s \<noteq> [] \<and> t = strip s"
  by (auto simp: require_non_empty_def Let_def)

lemma quote_component_eq [simp]:
  "quote_component s = Inr t \<longleftrightarrow> strip s \<noteq> [] \<and> t = quote (strip s)"
  by (auto simp: quote_component_def)

lemma compute_group_key_eq:
  "compute_group_key r g = Inr k \<longleftrightarrow>
     strip r \<noteq> [] \<and> strip g \<noteq> [] \<and> k = ''wazuh:'' @ quote (strip r) @ '':'' @ quote (strip g)"
  by (auto simp: compute_group_key_def)

text \<open>
  C32. The group key is collision-free: two rule and agent ids share a key exactly when they
  agree after trimming, whatever separators the ids contain, and a key exists exactly when
  neither id is blank.
\<close>

theorem group_key_collision_free:
  "(\<exists>k. compute_group_key r g = Inr k) = (strip r \<noteq> [] \<and> strip g \<noteq> [])
   \<and> (compute_group_key r g = Inr k \<and> compute_group_key r' g' = Inr k'
       \<longrightarrow> (k = k') = (strip r = strip r' \<and> strip g = strip g'))"
  by (auto simp: compute_group_key_eq append_sep_inject quote_no_colon)

theorem group_key_collision_free_witness:
  "compute_group_key ''a:b'' ''c'' = Inr ''wazuh:a%3Ab:c''
   \<and> compute_group_key ''a'' ''b:c'' = Inr ''wazuh:a:b%3Ac'' \<and> ''a:b'' \<noteq> ''a''"
proof -
  have keys: "compute_group_key ''a:b'' ''c'' = Inr ''wazuh:a%3Ab:c''"
    "compute_group_key ''a'' ''b:c'' = Inr ''wazuh:a:b%3Ac''"
    by code_simp+
  have "strip ''a:b'' = ''a:b'' \<and> strip ''a'' = ''a''" by code_simp
  with keys show ?thesis
    using group_key_collision_free [of "''a:b''" "''c''" "''wazuh:a%3Ab:c''" "''a''" "''b:c''" "''wazuh:a:b%3Ac''"]
    by simp
qed

text \<open>
  With a source event id, the identity is bound to the rule and agent: it determines all three
  trimmed ids.
\<close>

lemma event_identity_eq:
  "compute_event_identity digest a = Inr i \<longleftrightarrow>
     strip (wr_id (w_rule a)) \<noteq> [] \<and> strip (wg_id (w_agent a)) \<noteq> [] \<and>
     i = (let e = strip (case w_id a of None \<Rightarrow> [] | Some s \<Rightarrow> s) in
          if e \<noteq> [] then ''wazuh:'' @ quote e @ '':'' @ quote (strip (wr_id (w_rule a))) @ '':''
                           @ quote (strip (wg_id (w_agent a)))
          else ''wazuh-h1:'' @ payload_fingerprint digest a)"
  by (auto simp: compute_event_identity_def Let_def)

lemma delivery_key_of_eq:
  "delivery_key_of digest a t = Inr k \<longleftrightarrow>
     is_aware t \<and> compute_event_identity digest a = Inr (k_identity k)
     \<and> compute_group_key (wr_id (w_rule a)) (wg_id (w_agent a)) = Inr (k_group k)
     \<and> k_fingerprint k = payload_fingerprint digest a \<and> k_received k = as_utc t"
  by (cases k) (auto simp: delivery_key_of_def require_aware_def split: if_splits)

lemma delivery_key_of_Inl: "delivery_key_of digest a t = Inl e \<Longrightarrow> e = InvalidDedupeInputError"
  by (auto simp: delivery_key_of_def compute_event_identity_def compute_group_key_def
      quote_component_def require_non_empty_def require_aware_def then_ok_eq_Inl Let_def
      split: if_splits)

text \<open>
  An event identity with a source event id cannot collide across rules or agents: two
  alerts that carry an event id have the same identity exactly when event id, rule id and
  agent id agree after trimming; then they are in the same group. An identity made from the
  content hash is never equal to one made from an event id.
\<close>

theorem event_identity_bound_to_context:
  assumes "compute_event_identity digest a = Inr i" "compute_event_identity digest b = Inr j"
    and "w_id a = Some ea" "strip ea \<noteq> []"
  shows "i = j \<longleftrightarrow>
    (\<exists>eb. w_id b = Some eb \<and> strip eb = strip ea)
    \<and> strip (wr_id (w_rule a)) = strip (wr_id (w_rule b))
    \<and> strip (wg_id (w_agent a)) = strip (wg_id (w_agent b))"
  using assms
  by (cases "w_id b") (auto simp: event_identity_eq Let_def append_sep_inject quote_no_colon)

definition sample_rule :: wazuh_rule where
  "sample_rule = \<lparr>wr_id = ''5710'', wr_level = 5, wr_description = ''sshd'', wr_groups = [],
     wr_mitre = None, wr_firedtimes = 3, wr_mail = False, wr_extra = []\<rparr>"

definition sample_agent :: wazuh_agent where
  "sample_agent = \<lparr>wg_id = ''001'', wg_name = ''web'', wg_ip = None, wg_labels = None, wg_extra = []\<rparr>"

definition sample_wazuh :: "string option \<Rightarrow> wazuh_alert" where
  "sample_wazuh event_id = \<lparr>w_id = event_id, w_timestamp = None, w_rule = sample_rule,
     w_agent = sample_agent, w_data = None, w_manager = None, w_decoder = None, w_location = None,
     w_full_log = None, w_syscheck = None, w_extra = []\<rparr>"

theorem event_identity_bound_to_context_witness:
  "compute_event_identity (\<lambda>_. ''d'') (sample_wazuh (Some '' 17.4 '')) = Inr ''wazuh:17.4:5710:001''
   \<and> compute_event_identity (\<lambda>_. ''d'') (sample_wazuh None) = Inr ''wazuh-h1:d''
   \<and> ''wazuh:17.4:5710:001'' \<noteq> ''wazuh-h1:d''"
proof -
  have a: "compute_event_identity (\<lambda>_. ''d'') (sample_wazuh (Some '' 17.4 '')) = Inr ''wazuh:17.4:5710:001''"
    by code_simp
  have b: "compute_event_identity (\<lambda>_. ''d'') (sample_wazuh None) = Inr ''wazuh-h1:d''"
    by code_simp
  have id: "w_id (sample_wazuh (Some '' 17.4 '')) = Some '' 17.4 ''" "w_id (sample_wazuh None) = None"
    by (simp_all add: sample_wazuh_def)
  have ne: "strip '' 17.4 '' \<noteq> []" by code_simp
  show ?thesis
    using event_identity_bound_to_context [OF a b id(1) ne] a b id(2) by simp
qed

text \<open>
  The fingerprint ignores the volatile fields: alerts that differ only in
  \<open>rule.firedtimes\<close> and the event id have the same fingerprint, so re-fires of one event
  are not divergent content.
\<close>

theorem fingerprint_ignores_volatile_fields:
  "payload_fingerprint digest
     (a\<lparr>w_id := event_id, w_rule := (w_rule a)\<lparr>wr_firedtimes := n\<rparr>\<rparr>)
   = payload_fingerprint digest a"
  by (simp add: payload_fingerprint_def identity_payload_def volatile_identity_fields_def
      alert_dump_def rule_dump_def)

end
