(* ===== verification/Dedup_State.thy ===== *)
theory Dedup_State
  imports Dedup_Keys
begin

text \<open>
  The deduplication state machine (ingest/deduplication.py): group states, event records and
  \<open>decide_delivery\<close>, the pure classification both storage backends share. The group the
  code mutates in place is returned, with the snapshots taken before the change.
\<close>

subsection \<open>State\<close>

datatype dedupe_status = NEW_GENERATION | EXACT_DUPLICATE | REPEATED

fun dedupe_status_value :: "dedupe_status \<Rightarrow> string" where
  "dedupe_status_value NEW_GENERATION = ''new_generation''"
| "dedupe_status_value EXACT_DUPLICATE = ''exact_duplicate''"
| "dedupe_status_value REPEATED = ''repeated''"

record event_record =
  er_identity :: string
  er_alert_id :: uuid
  er_fingerprint :: string
  er_canonical :: canonical_alert
  er_delivery_count :: nat
  er_content_variants :: nat
  er_first_delivered :: instant
  er_last_delivered :: instant

record group_state =
  gs_key :: string
  gs_occurrences :: nat
  gs_first_seen :: "instant option"
  gs_last_seen :: "instant option"
  gs_generation :: nat
  gs_duplicates :: nat
  gs_events :: "(string, event_record) dict"

record dedupe_outcome =
  do_status :: dedupe_status
  do_alert_id :: uuid
  do_group_key :: string
  do_identity :: string
  do_dedupe :: canonical_dedupe
  do_canonical :: canonical_alert

record delivery_decision =
  dd_status :: dedupe_status
  dd_group :: group_state
  dd_record :: event_record
  dd_group_before :: "group_state option"
  dd_record_before :: "event_record option"
  dd_content_diverged :: bool
  dd_generation_started :: bool

definition empty_group :: "string \<Rightarrow> group_state" where
  "empty_group key = \<lparr>gs_key = key, gs_occurrences = 0, gs_first_seen = None, gs_last_seen = None,
     gs_generation = 0, gs_duplicates = 0, gs_events = []\<rparr>"

subsection \<open>Operations\<close>

definition required :: "instant option \<Rightarrow> py_exn + instant" where
  "required t = (case t of None \<Rightarrow> Inl InvalidDedupeInputError | Some t \<Rightarrow> Inr t)"

definition dedupe_info :: "group_state \<Rightarrow> string \<Rightarrow> py_exn + canonical_dedupe" where
  "dedupe_info g identity =
     then_ok (required (gs_first_seen g)) (\<lambda>first.
     then_ok (required (gs_last_seen g)) (\<lambda>last.
       Inr \<lparr>cd_group_key = gs_key g, cd_occurrences = gs_occurrences g, cd_first_seen = first,
             cd_last_seen = last, cd_event_identity = Some identity,
             cd_generation = gs_generation g, cd_duplicate_deliveries = gs_duplicates g\<rparr>))"

definition prune_expired :: "group_state \<Rightarrow> instant \<Rightarrow> int \<Rightarrow> group_state" where
  "prune_expired g now window =
     g\<lparr>gs_events := filter (\<lambda>(i, r). \<not> now - er_last_delivered r > window) (gs_events g)\<rparr>"

definition new_event_record ::
  "canonical_alert \<Rightarrow> string \<Rightarrow> string \<Rightarrow> canonical_dedupe \<Rightarrow> instant \<Rightarrow> event_record" where
  "new_event_record canonical identity fingerprint dedupe received =
     \<lparr>er_identity = identity, er_alert_id = c_alert_id canonical, er_fingerprint = fingerprint,
      er_canonical = canonical\<lparr>c_dedupe := Some dedupe\<rparr>, er_delivery_count = 1,
      er_content_variants = 1, er_first_delivered = received, er_last_delivered = received\<rparr>"

definition absorb :: "event_record \<Rightarrow> string \<Rightarrow> instant \<Rightarrow> event_record" where
  "absorb r fingerprint received =
     (let r = r\<lparr>er_delivery_count := er_delivery_count r + 1\<rparr>;
          r = (if er_fingerprint r \<noteq> fingerprint
               then r\<lparr>er_content_variants := er_content_variants r + 1, er_fingerprint := fingerprint\<rparr>
               else r)
      in r\<lparr>er_last_delivered := received\<rparr>)"

definition start_group :: "string \<Rightarrow> instant \<Rightarrow> group_state" where
  "start_group key received = (empty_group key)
     \<lparr>gs_generation := 1, gs_occurrences := 1, gs_first_seen := Some received,
      gs_last_seen := Some received\<rparr>"

definition start_generation :: "group_state \<Rightarrow> instant \<Rightarrow> group_state" where
  "start_generation g received =
     g\<lparr>gs_generation := gs_generation g + 1, gs_occurrences := 1, gs_first_seen := Some received,
       gs_last_seen := Some received, gs_duplicates := 0\<rparr>"

definition add_occurrence :: "group_state \<Rightarrow> instant \<Rightarrow> group_state" where
  "add_occurrence g received =
     g\<lparr>gs_occurrences := gs_occurrences g + 1, gs_last_seen := Some received\<rparr>"

definition put_event :: "group_state \<Rightarrow> string \<Rightarrow> event_record \<Rightarrow> group_state" where
  "put_event g identity r = g\<lparr>gs_events := AList.update identity r (gs_events g)\<rparr>"

definition record_new ::
  "dedupe_status \<Rightarrow> group_state option \<Rightarrow> group_state \<Rightarrow> delivery_key \<Rightarrow> canonical_alert
    \<Rightarrow> py_exn + delivery_decision" where
  "record_new status before g k canonical =
     then_ok (dedupe_info g (k_identity k)) (\<lambda>dedupe.
       let r = new_event_record canonical (k_identity k) (k_fingerprint k) dedupe (k_received k) in
       Inr \<lparr>dd_status = status, dd_group = put_event g (k_identity k) r, dd_record = r,
             dd_group_before = before, dd_record_before = None, dd_content_diverged = False,
             dd_generation_started = (status = NEW_GENERATION)\<rparr>)"

definition absorb_duplicate :: "group_state \<Rightarrow> event_record \<Rightarrow> delivery_key \<Rightarrow> delivery_decision" where
  "absorb_duplicate g existing k =
     (let r = absorb existing (k_fingerprint k) (k_received k) in
      \<lparr>dd_status = EXACT_DUPLICATE,
       dd_group = (put_event g (k_identity k) r)\<lparr>gs_duplicates := gs_duplicates g + 1\<rparr>,
       dd_record = r, dd_group_before = Some g, dd_record_before = Some existing,
       dd_content_diverged = (er_fingerprint existing \<noteq> k_fingerprint k),
       dd_generation_started = False\<rparr>)"

definition decide_delivery ::
  "group_state option \<Rightarrow> delivery_key \<Rightarrow> int \<Rightarrow> canonical_alert \<Rightarrow> py_exn + delivery_decision" where
  "decide_delivery tracked k window canonical =
     (case tracked of
        None \<Rightarrow> record_new NEW_GENERATION None (start_group (k_group k) (k_received k)) k canonical
      | Some g \<Rightarrow>
          let g = prune_expired g (k_received k) window in
          (case map_of (gs_events g) (k_identity k) of
             Some existing \<Rightarrow> Inr (absorb_duplicate g existing k)
           | None \<Rightarrow>
              then_ok (required (gs_last_seen g)) (\<lambda>last.
                if k_received k - last > window
                then record_new NEW_GENERATION (Some g) (start_generation g (k_received k)) k canonical
                else record_new REPEATED (Some g) (add_occurrence g (k_received k)) k canonical)))"

definition outcome_of :: "delivery_decision \<Rightarrow> string \<Rightarrow> canonical_dedupe \<Rightarrow> dedupe_outcome" where
  "outcome_of d identity info =
     \<lparr>do_status = dd_status d, do_alert_id = er_alert_id (dd_record d),
      do_group_key = gs_key (dd_group d), do_identity = identity, do_dedupe = info,
      do_canonical = er_canonical (dd_record d)\<rparr>"

subsection \<open>Well-formed groups\<close>

definition wf_record :: "string \<Rightarrow> event_record \<Rightarrow> bool" where
  "wf_record i r = (er_identity r = i \<and> 1 \<le> er_content_variants r
     \<and> er_content_variants r \<le> er_delivery_count r
     \<and> er_alert_id r = c_alert_id (er_canonical r))"

definition wf_group :: "string \<Rightarrow> group_state \<Rightarrow> bool" where
  "wf_group key g = (gs_key g = key \<and> gs_first_seen g \<noteq> None \<and> gs_last_seen g \<noteq> None
     \<and> 1 \<le> gs_occurrences g \<and> 1 \<le> gs_generation g \<and> distinct (map fst (gs_events g))
     \<and> (\<forall>(i, r) \<in> set (gs_events g). wf_record i r))"

lemma required_Some [simp]: "required (Some t) = Inr t"
  by (simp add: required_def)

lemma required_eq_Inr [simp]: "required x = Inr t \<longleftrightarrow> x = Some t"
  by (cases x) (simp_all add: required_def)

lemma prune_simps [simp]:
  "gs_key (prune_expired g now w) = gs_key g"
  "gs_occurrences (prune_expired g now w) = gs_occurrences g"
  "gs_first_seen (prune_expired g now w) = gs_first_seen g"
  "gs_last_seen (prune_expired g now w) = gs_last_seen g"
  "gs_generation (prune_expired g now w) = gs_generation g"
  "gs_duplicates (prune_expired g now w) = gs_duplicates g"
  by (simp_all add: prune_expired_def)

lemma put_event_simps [simp]:
  "gs_key (put_event g i r) = gs_key g"
  "gs_occurrences (put_event g i r) = gs_occurrences g"
  "gs_first_seen (put_event g i r) = gs_first_seen g"
  "gs_last_seen (put_event g i r) = gs_last_seen g"
  "gs_generation (put_event g i r) = gs_generation g"
  "gs_duplicates (put_event g i r) = gs_duplicates g"
  "gs_events (put_event g i r) = AList.update i r (gs_events g)"
  by (simp_all add: put_event_def)

lemma absorb_simps [simp]:
  "er_identity (absorb r f t) = er_identity r"
  "er_alert_id (absorb r f t) = er_alert_id r"
  "er_canonical (absorb r f t) = er_canonical r"
  "er_delivery_count (absorb r f t) = er_delivery_count r + 1"
  "er_fingerprint (absorb r f t) = f"
  "er_first_delivered (absorb r f t) = er_first_delivered r"
  "er_last_delivered (absorb r f t) = t"
  "er_content_variants (absorb r f t) =
     er_content_variants r + (if er_fingerprint r \<noteq> f then 1 else 0)"
  by (auto simp: absorb_def Let_def)

lemma absorb_absorb:
  "er_fingerprint r = f \<Longrightarrow> absorb (absorb r f t) f t' =
     (absorb r f t')\<lparr>er_delivery_count := er_delivery_count r + 2\<rparr>"
  by (simp add: absorb_def Let_def)

lemma distinct_prune: "distinct (map fst (gs_events g)) \<Longrightarrow> distinct (map fst (gs_events (prune_expired g now w)))"
  by (simp add: prune_expired_def distinct_map_filter)

lemma wf_group_prune [simp]: "wf_group key g \<Longrightarrow> wf_group key (prune_expired g now w)"
  by (auto simp: wf_group_def distinct_prune) (auto simp: prune_expired_def)

lemma wf_group_put: "wf_group key g \<Longrightarrow> wf_record i r \<Longrightarrow> wf_group key (put_event g i r)"
  by (auto simp: wf_group_def set_AList_update distinct_update)

lemma wf_record_absorb: "wf_record i r \<Longrightarrow> wf_record i (absorb r f t)"
  by (auto simp: wf_record_def)

lemma wf_group_event: "wf_group key g \<Longrightarrow> map_of (gs_events g) i = Some r \<Longrightarrow> wf_record i r"
  by (auto simp: wf_group_def dest!: map_of_SomeD)

lemma map_of_prune:
  "distinct (map fst (gs_events g)) \<Longrightarrow>
     map_of (gs_events (prune_expired g now w)) i =
       (case map_of (gs_events g) i of
          None \<Rightarrow> None | Some r \<Rightarrow> if now - er_last_delivered r > w then None else Some r)"
  by (auto simp: prune_expired_def map_of_filter_value split: option.splits)

subsection \<open>What one delivery does\<close>

text \<open>The retained record of an event at its next arrival, and the documented classification.\<close>

definition live_event :: "group_state \<Rightarrow> delivery_key \<Rightarrow> int \<Rightarrow> event_record option" where
  "live_event g k window =
     (case map_of (gs_events g) (k_identity k) of
        None \<Rightarrow> None
      | Some r \<Rightarrow> if k_received k - er_last_delivered r > window then None else Some r)"

definition classify :: "group_state option \<Rightarrow> delivery_key \<Rightarrow> int \<Rightarrow> dedupe_status" where
  "classify tracked k window =
     (case tracked of
        None \<Rightarrow> NEW_GENERATION
      | Some g \<Rightarrow>
          if live_event g k window \<noteq> None then EXACT_DUPLICATE
          else if k_received k - the (gs_last_seen g) \<le> window then REPEATED
          else NEW_GENERATION)"

definition wf_tracked :: "string \<Rightarrow> group_state option \<Rightarrow> bool" where
  "wf_tracked key tracked = (case tracked of None \<Rightarrow> True | Some g \<Rightarrow> wf_group key g)"

lemma wf_tracked_simps [simp]:
  "wf_tracked key None" "wf_tracked key (Some g) = wf_group key g"
  by (simp_all add: wf_tracked_def)

lemma prune_live_event:
  "wf_group key g \<Longrightarrow> map_of (gs_events (prune_expired g (k_received k) w)) (k_identity k) = live_event g k w"
  by (simp add: map_of_prune wf_group_def live_event_def split: option.splits)

text \<open>The group a distinct event leaves behind, before its record is stored.\<close>

definition advanced :: "group_state option \<Rightarrow> delivery_key \<Rightarrow> int \<Rightarrow> group_state" where
  "advanced tracked k window =
     (case tracked of
        None \<Rightarrow> start_group (k_group k) (k_received k)
      | Some g \<Rightarrow>
          let g = prune_expired g (k_received k) window in
          if k_received k - the (gs_last_seen g) > window then start_generation g (k_received k)
          else add_occurrence g (k_received k))"

definition info_of :: "group_state \<Rightarrow> string \<Rightarrow> canonical_dedupe" where
  "info_of g identity =
     \<lparr>cd_group_key = gs_key g, cd_occurrences = gs_occurrences g,
      cd_first_seen = the (gs_first_seen g), cd_last_seen = the (gs_last_seen g),
      cd_event_identity = Some identity, cd_generation = gs_generation g,
      cd_duplicate_deliveries = gs_duplicates g\<rparr>"

definition created_record :: "group_state \<Rightarrow> delivery_key \<Rightarrow> canonical_alert \<Rightarrow> event_record" where
  "created_record g k canonical =
     new_event_record canonical (k_identity k) (k_fingerprint k) (info_of g (k_identity k)) (k_received k)"

lemma dedupe_info_wf: "wf_group key g \<Longrightarrow> dedupe_info g i = Inr (info_of g i)"
  by (auto simp: wf_group_def dedupe_info_def info_of_def)

lemma wf_start_group: "wf_group key (start_group key t)"
  by (simp add: wf_group_def start_group_def empty_group_def)

lemma wf_start_generation: "wf_group key g \<Longrightarrow> wf_group key (start_generation g t)"
  by (simp add: wf_group_def start_generation_def)

lemma wf_add_occurrence: "wf_group key g \<Longrightarrow> wf_group key (add_occurrence g t)"
  by (simp add: wf_group_def add_occurrence_def)

lemma wf_advanced: "wf_tracked (k_group k) tracked \<Longrightarrow> wf_group (k_group k) (advanced tracked k w)"
  by (cases tracked)
     (simp_all add: advanced_def Let_def wf_start_group wf_start_generation wf_add_occurrence)

lemma wf_created: "wf_record (k_identity k) (created_record g k canonical)"
  by (simp add: wf_record_def created_record_def new_event_record_def)

lemma record_new_wf:
  "wf_group key g \<Longrightarrow> record_new status before g k canonical =
     Inr \<lparr>dd_status = status,
          dd_group = put_event g (k_identity k) (created_record g k canonical),
          dd_record = created_record g k canonical, dd_group_before = before,
          dd_record_before = None, dd_content_diverged = False,
          dd_generation_started = (status = NEW_GENERATION)\<rparr>"
  by (simp add: record_new_def dedupe_info_wf created_record_def Let_def)

definition group_before :: "group_state option \<Rightarrow> delivery_key \<Rightarrow> int \<Rightarrow> group_state option" where
  "group_before tracked k window = map_option (\<lambda>g. prune_expired g (k_received k) window) tracked"

lemma decide_duplicate:
  assumes "wf_group key g" "live_event g k w = Some existing"
  shows "decide_delivery (Some g) k w canonical =
    Inr (absorb_duplicate (prune_expired g (k_received k) w) existing k)"
  using assms by (simp add: decide_delivery_def Let_def prune_live_event)

lemma decide_distinct:
  assumes wf: "wf_tracked (k_group k) tracked" and c: "classify tracked k w \<noteq> EXACT_DUPLICATE"
  shows "decide_delivery tracked k w canonical =
    (let g = advanced tracked k w; r = created_record g k canonical in
     Inr \<lparr>dd_status = classify tracked k w, dd_group = put_event g (k_identity k) r, dd_record = r,
          dd_group_before = group_before tracked k w, dd_record_before = None,
          dd_content_diverged = False,
          dd_generation_started = (classify tracked k w = NEW_GENERATION)\<rparr>)"
proof (cases tracked)
  case None
  then show ?thesis
    by (simp add: decide_delivery_def classify_def advanced_def group_before_def Let_def
        record_new_wf [OF wf_start_group])
next
  case (Some g)
  let ?p = "prune_expired g (k_received k) w"
  have wfp: "wf_group (k_group k) ?p" using wf Some by simp
  obtain last where last: "gs_last_seen g = Some last" using wf Some by (auto simp: wf_group_def)
  have none: "map_of (gs_events ?p) (k_identity k) = None"
    using c wf Some by (cases "live_event g k w") (simp_all add: prune_live_event classify_def)
  show ?thesis
    using Some c none last
      record_new_wf [OF wf_start_generation [OF wfp], of _ "Some ?p" "k_received k" k canonical]
      record_new_wf [OF wf_add_occurrence [OF wfp], of _ "Some ?p" "k_received k" k canonical]
    by (auto simp: decide_delivery_def classify_def advanced_def group_before_def Let_def split: if_splits)
qed

lemma live_event_if_duplicate:
  "classify tracked k w = EXACT_DUPLICATE \<Longrightarrow>
     \<exists>g r. tracked = Some g \<and> live_event g k w = Some r"
  by (auto simp: classify_def split: option.splits if_splits)

end
