(* ===== verification/Incident_Lifecycle.thy ===== *)
theory Incident_Lifecycle
  imports Alert_Model
begin

text \<open>
  The incident domain model (models/incident.py): statuses, the table of valid transitions,
  the guard \<open>can_transition\<close>, and the incident record. The lifecycle is also given as a
  step relation, for the facts about every path an incident can take.
\<close>

subsection \<open>Statuses and transitions\<close>

datatype incident_status = OPEN | INVESTIGATING | ACKNOWLEDGED | RESOLVED | FALSE_POSITIVE | ESCALATED

fun incident_status_value :: "incident_status \<Rightarrow> string" where
  "incident_status_value OPEN = ''open''"
| "incident_status_value INVESTIGATING = ''investigating''"
| "incident_status_value ACKNOWLEDGED = ''acknowledged''"
| "incident_status_value RESOLVED = ''resolved''"
| "incident_status_value FALSE_POSITIVE = ''false_positive''"
| "incident_status_value ESCALATED = ''escalated''"

fun valid_transitions :: "incident_status \<Rightarrow> incident_status list" where
  "valid_transitions OPEN = [INVESTIGATING, ACKNOWLEDGED, FALSE_POSITIVE, ESCALATED]"
| "valid_transitions INVESTIGATING = [ACKNOWLEDGED, RESOLVED, ESCALATED, FALSE_POSITIVE]"
| "valid_transitions ACKNOWLEDGED = [INVESTIGATING, RESOLVED, ESCALATED]"
| "valid_transitions ESCALATED = [INVESTIGATING, ACKNOWLEDGED, RESOLVED, FALSE_POSITIVE]"
| "valid_transitions RESOLVED = []"
| "valid_transitions FALSE_POSITIVE = []"

definition terminal_statuses :: "incident_status list" where
  "terminal_statuses = [RESOLVED, FALSE_POSITIVE]"

definition can_transition :: "incident_status \<Rightarrow> incident_status \<Rightarrow> bool" where
  "can_transition current target = (target \<in> set (valid_transitions current))"

text \<open>The message of \<open>InvalidIncidentTransitionError\<close>; the dash is the UTF-8 of U+2014.\<close>

definition em_dash :: string where
  "em_dash = [CHR 0xE2, CHR 0x80, CHR 0x94]"

definition transition_error_text :: "incident_status \<Rightarrow> incident_status \<Rightarrow> string" where
  "transition_error_text current target =
     (let allowed = sort (map incident_status_value (valid_transitions current)) in
      ''invalid incident status transition: '' @ incident_status_value current @ '' -> ''
      @ incident_status_value target @ '' (allowed from '' @ incident_status_value current @ '': ''
      @ (if allowed \<noteq> [] then ''['' @ join '', '' (map py_repr allowed) @ '']''
         else ''none '' @ em_dash @ '' terminal state'') @ '')'')"

subsection \<open>The incident record\<close>

record incident =
  inc_id :: string
  inc_status :: incident_status
  inc_severity :: decision_severity
  inc_primary_alert_id :: uuid
  inc_group_key :: string
  inc_created_at :: instant
  inc_updated_at :: instant
  inc_acknowledged_at :: "instant option"
  inc_resolved_at :: "instant option"

subsection \<open>Facts on the table\<close>

abbreviation terminal :: "incident_status \<Rightarrow> bool" where
  "terminal s \<equiv> s \<in> set terminal_statuses"

lemma terminal_iff: "terminal s \<longleftrightarrow> s = RESOLVED \<or> s = FALSE_POSITIVE"
  by (simp add: terminal_statuses_def)

lemma incident_status_value_inject [simp]:
  "incident_status_value s = incident_status_value t \<longleftrightarrow> s = t"
  by (cases s; cases t) simp_all

lemma can_transition_not_terminal: "can_transition s t \<Longrightarrow> \<not> terminal s"
  by (cases s) (auto simp: can_transition_def terminal_iff)

lemma can_transition_irrefl [simp]: "\<not> can_transition s s"
  by (cases s) (auto simp: can_transition_def)

lemma can_transition_not_open: "can_transition s t \<Longrightarrow> t \<noteq> OPEN"
  by (cases s) (auto simp: can_transition_def)

subsection \<open>The lifecycle as a step relation\<close>

inductive lifecycle_step :: "incident_status \<Rightarrow> incident_status \<Rightarrow> bool" where
  move: "can_transition s t \<Longrightarrow> lifecycle_step s t"

inductive_cases lifecycle_stepE: "lifecycle_step s t"
inductive_simps lifecycle_step_iff: "lifecycle_step s t"

inductive lifecycle_path :: "incident_status \<Rightarrow> incident_status list \<Rightarrow> incident_status \<Rightarrow> bool" where
  finish: "lifecycle_path s [] s"
| step: "lifecycle_step s t \<Longrightarrow> lifecycle_path t us u \<Longrightarrow> lifecycle_path s (t # us) u"

inductive_cases lifecycle_path_ConsE: "lifecycle_path s (t # us) u"

lemma lifecycle_path_terminal: "lifecycle_path s us u \<Longrightarrow> terminal s \<Longrightarrow> us = [] \<and> u = s"
  by (induction rule: lifecycle_path.induct)
     (auto elim!: lifecycle_stepE dest: can_transition_not_terminal)

lemma lifecycle_path_never_reopens: "lifecycle_path s us u \<Longrightarrow> OPEN \<notin> set us"
  by (induction rule: lifecycle_path.induct)
     (auto elim!: lifecycle_stepE dest: can_transition_not_open)

text \<open>
  The lifecycle is closed and never stuck: a status has no outgoing transition exactly
  when it is terminal, a path from a terminal status is empty, no path returns to \<open>open\<close>,
  and from every other status a terminal status is one step away.
\<close>

theorem lifecycle_closed:
  "((\<nexists>t. can_transition s t) \<longleftrightarrow> terminal s)
   \<and> (lifecycle_path s us u \<longrightarrow> OPEN \<notin> set us \<and> (terminal s \<longrightarrow> us = [] \<and> u = s))
   \<and> (\<not> terminal s \<longrightarrow> (\<exists>t. terminal t \<and> can_transition s t))"
proof -
  have "\<not> terminal s \<longrightarrow> (\<exists>t. terminal t \<and> can_transition s t)"
    by (cases s) (auto simp: can_transition_def terminal_iff)
  then show ?thesis
    using can_transition_not_terminal lifecycle_path_terminal lifecycle_path_never_reopens by blast
qed

theorem lifecycle_closed_witness:
  "lifecycle_path OPEN [ESCALATED, RESOLVED] RESOLVED \<and> OPEN \<notin> set [ESCALATED, RESOLVED]
   \<and> (\<exists>t. terminal t \<and> can_transition OPEN t)"
proof -
  have path: "lifecycle_path OPEN [ESCALATED, RESOLVED] RESOLVED"
    by (intro lifecycle_path.intros lifecycle_step.intros) (simp_all add: can_transition_def)
  show ?thesis
    using path lifecycle_closed [of OPEN "[ESCALATED, RESOLVED]" RESOLVED]
    by (simp add: terminal_iff)
qed

end
