(* ===== verification/Calendar.thy ===== *)
theory Calendar
  imports Prelude
begin

text \<open>
  The calendar reading of a UTC timestamp: the date an incident or context id carries
  (\<open>strftime("%Y-%m-%d")\<close>) and the \<open>isoformat()\<close> of the audit snapshots. The
  date computation is the one of Python's proleptic Gregorian calendar
  (\<open>datetime._ord2ymd\<close>), from the day number of the timestamp.
\<close>

definition us_per_day :: int where
  "us_per_day = 86400 * us_per_second"

definition is_leap :: "int \<Rightarrow> bool" where
  "is_leap y = (y mod 4 = 0 \<and> (y mod 100 \<noteq> 0 \<or> y mod 400 = 0))"

definition month_lengths :: "bool \<Rightarrow> int list" where
  "month_lengths leap = [31, if leap then 29 else 28, 31, 30, 31, 30, 31, 31, 30, 31, 30, 31]"

fun month_day :: "int \<Rightarrow> int list \<Rightarrow> int \<Rightarrow> int \<times> int" where
  "month_day m [] n = (m, n + 1)"
| "month_day m (l # ls) n = (if n < l \<or> ls = [] then (m, n + 1) else month_day (m + 1) ls (n - l))"

definition epoch_ordinal :: int where
  "epoch_ordinal = 719163"

definition ord2ymd :: "int \<Rightarrow> int \<times> int \<times> int" where
  "ord2ymd ordinal =
     (let n = ordinal - 1;
          n400 = n div 146097; n = n mod 146097;
          n100 = n div 36524; n = n mod 36524;
          n4 = n div 1461; n = n mod 1461;
          n1 = n div 365; n = n mod 365;
          year = n400 * 400 + 1 + n100 * 100 + n4 * 4 + n1
      in if n1 = 4 \<or> n100 = 4 then (year - 1, 12, 31)
         else (let leap = (n1 = 3 \<and> (n4 \<noteq> 24 \<or> n100 = 3)); (m, d) = month_day 1 (month_lengths leap) n
               in (year, m, d)))"

definition civil_date :: "instant \<Rightarrow> int \<times> int \<times> int" where
  "civil_date t = ord2ymd (epoch_ordinal + t div us_per_day)"

definition padded :: "nat \<Rightarrow> int \<Rightarrow> string" where
  "padded w n = zero_pad w (nat_str (nat n))"

definition date_str :: "instant \<Rightarrow> string" where
  "date_str t = (case civil_date t of (y, m, d) \<Rightarrow>
     padded 4 y @ ''-'' @ padded 2 m @ ''-'' @ padded 2 d)"

definition isoformat :: "instant \<Rightarrow> string" where
  "isoformat t =
     (let us = t mod us_per_day; s = us div us_per_second; f = us mod us_per_second in
      date_str t @ ''T'' @ padded 2 (s div 3600) @ '':'' @ padded 2 (s div 60 mod 60)
      @ '':'' @ padded 2 (s mod 60) @ (if f = 0 then [] else ''.'' @ padded 6 f) @ ''+00:00'')"

definition iso_or_null :: "instant option \<Rightarrow> json" where
  "iso_or_null t = (case t of None \<Rightarrow> JNull | Some t \<Rightarrow> JStr (isoformat t))"

subsection \<open>The day an instant falls on\<close>

definition same_utc_day :: "instant \<Rightarrow> instant \<Rightarrow> bool" where
  "same_utc_day s t = (s div us_per_day = t div us_per_day)"

lemma date_str_same_day: "same_utc_day s t \<Longrightarrow> date_str s = date_str t"
  by (simp add: same_utc_day_def date_str_def civil_date_def)

lemma calendar_examples:
  "isoformat 0 = ''1970-01-01T00:00:00+00:00''"
  "ord2ymd 719162 = (1969, 12, 31)"
  "ord2ymd 730179 = (2000, 2, 29)"
  "ord2ymd 739857 = (2026, 8, 29)"
  by code_simp+

end
