(* ===== verification/Audit_Entries.thy ===== *)
theory Audit_Entries
  imports Dedup_State Incident_Lifecycle Calendar
begin

text \<open>
  The audit policy (audit.py): the entries each state change produces, as small JSON
  snapshots. Constants keep the strings of the audit vocabulary.
\<close>

subsection \<open>Vocabulary and entries\<close>

record audit_entry =
  ae_actor :: string
  ae_action :: string
  ae_entity_type :: string
  ae_entity_id :: string
  ae_before :: "(string, json) dict option"
  ae_after :: "(string, json) dict option"

definition entry ::
  "string \<Rightarrow> string \<Rightarrow> string \<Rightarrow> string \<Rightarrow> (string, json) dict option \<Rightarrow> (string, json) dict option
    \<Rightarrow> audit_entry" where
  "entry actor action entity_type entity_id before after =
     \<lparr>ae_actor = actor, ae_action = action, ae_entity_type = entity_type, ae_entity_id = entity_id,
      ae_before = before, ae_after = after\<rparr>"

definition juuid :: "uuid \<Rightarrow> json" where
  "juuid u = JStr (uuid_str u)"

definition jnat :: "nat \<Rightarrow> json" where
  "jnat n = JInt (int n)"

subsection \<open>Deduplication\<close>

definition generation_snapshot :: "group_state option \<Rightarrow> (string, json) dict" where
  "generation_snapshot g =
     (case g of
        None \<Rightarrow> []
      | Some g \<Rightarrow>
          [(''generation'', jnat (gs_generation g)), (''occurrences'', jnat (gs_occurrences g)),
           (''duplicate_deliveries'', jnat (gs_duplicates g)),
           (''first_seen'', iso_or_null (gs_first_seen g)),
           (''last_seen'', iso_or_null (gs_last_seen g))])"

definition audit_entries_for_decision :: "delivery_decision \<Rightarrow> audit_entry list" where
  "audit_entries_for_decision d =
     (let alert_id = er_alert_id (dd_record d); g = dd_group d; r = dd_record d in
      (if dd_generation_started d then
         [entry ''ingest'' ''dedupe.generation_started'' ''dedupe_group'' (gs_key g)
            (let before = generation_snapshot (dd_group_before d) in
             if before = [] then None else Some before)
            (Some (generation_snapshot (Some g)))]
       else [])
      @ (if dd_status d \<noteq> EXACT_DUPLICATE then
           [entry ''ingest'' ''alert.created'' ''alert'' (uuid_str alert_id) None
              (Some [(''alert_id'', juuid alert_id), (''event_identity'', JStr (er_identity r)),
                     (''dedupe_group'', JStr (gs_key g)),
                     (''dedupe_status'', JStr (dedupe_status_value (dd_status d))),
                     (''occurrences'', jnat (gs_occurrences g)),
                     (''generation'', jnat (gs_generation g))])]
         else [])
      @ (if dd_status d = EXACT_DUPLICATE then
           [entry ''ingest'' ''alert.duplicate_absorbed'' ''alert'' (uuid_str alert_id)
              (case dd_record_before d of
                 None \<Rightarrow> None
               | Some rb \<Rightarrow>
                   Some [(''delivery_count'', jnat (er_delivery_count rb)),
                         (''duplicate_deliveries'',
                          jnat (case dd_group_before d of None \<Rightarrow> 0 | Some gb \<Rightarrow> gs_duplicates gb))])
              (Some [(''alert_id'', juuid alert_id),
                     (''delivery_count'', jnat (er_delivery_count r)),
                     (''duplicate_deliveries'', jnat (gs_duplicates g))])]
         else [])
      @ (if dd_content_diverged d then
           [entry ''ingest'' ''alert.content_divergence'' ''alert'' (uuid_str alert_id) None
              (Some [(''alert_id'', juuid alert_id), (''dedupe_group'', JStr (gs_key g)),
                     (''content_variants'', jnat (er_content_variants r))])]
         else []))"

subsection \<open>Assessments\<close>

definition risk_snapshot :: "risk_assessment option \<Rightarrow> (string, json) dict option" where
  "risk_snapshot risk =
     (case risk of
        None \<Rightarrow> None
      | Some r \<Rightarrow>
          Some [(''score'', JInt (r_score r)), (''tier'', JStr (risk_tier_value (r_tier r))),
                (''engine_version'', JStr (r_engine_version r)), (''degraded'', JBool (r_degraded r)),
                (''factors'', JObj (fold (\<lambda>f. AList.update (f_name f) (JInt (f_points f)))
                                     (r_factors r) []))])"

definition decision_snapshot :: "decision option \<Rightarrow> (string, json) dict option" where
  "decision_snapshot d =
     (case d of
        None \<Rightarrow> None
      | Some d \<Rightarrow>
          Some [(''action'', JStr (decision_action_value (d_action d))),
                (''severity'', case d_severity d of None \<Rightarrow> JNull | Some s \<Rightarrow> JStr (decision_severity_value s)),
                (''reasons'', JList (map JStr (d_reasons d)))])"

definition audit_entries_for_assessment ::
  "uuid \<Rightarrow> risk_assessment \<Rightarrow> decision \<Rightarrow> risk_assessment option \<Rightarrow> decision option \<Rightarrow> audit_entry list" where
  "audit_entries_for_assessment alert_id risk decision previous_risk previous_decision =
     [entry ''scoring'' ''alert.scored'' ''alert'' (uuid_str alert_id)
        (risk_snapshot previous_risk) (risk_snapshot (Some risk)),
      entry ''decisions'' ''alert.decided'' ''alert'' (uuid_str alert_id)
        (decision_snapshot previous_decision) (decision_snapshot (Some decision))]"

subsection \<open>Incidents\<close>

definition audit_entries_for_incident :: "incident \<Rightarrow> audit_entry list" where
  "audit_entries_for_incident i =
     [entry ''decisions'' ''incident.created'' ''incident'' (inc_id i) None
        (Some [(''incident_id'', JStr (inc_id i)), (''alert_id'', juuid (inc_primary_alert_id i)),
               (''severity'', JStr (decision_severity_value (inc_severity i))),
               (''status'', JStr (incident_status_value (inc_status i))),
               (''dedupe_group_key'', JStr (inc_group_key i))])]"

definition incident_status_snapshot ::
  "string \<Rightarrow> incident_status \<Rightarrow> instant option \<Rightarrow> instant option \<Rightarrow> (string, json) dict" where
  "incident_status_snapshot incident_id status acknowledged resolved =
     [(''incident_id'', JStr incident_id), (''status'', JStr (incident_status_value status)),
      (''acknowledged_at'', iso_or_null acknowledged), (''resolved_at'', iso_or_null resolved)]"

definition audit_entries_for_incident_status ::
  "incident \<Rightarrow> incident_status \<Rightarrow> string \<Rightarrow> string option \<Rightarrow> audit_entry list" where
  "audit_entries_for_incident_status i previous actor notes =
     (let before = [(''status'', JStr (incident_status_value previous))];
          snapshot = incident_status_snapshot (inc_id i) (inc_status i) (inc_acknowledged_at i) (inc_resolved_at i);
          after = (case notes of
                     Some n \<Rightarrow> if n \<noteq> [] then snapshot @ [(''notes'', JStr n)] else snapshot
                   | None \<Rightarrow> snapshot)
      in entry actor ''incident.status_updated'' ''incident'' (inc_id i) (Some before) (Some after)
         # (if inc_status i = ESCALATED
            then [entry actor ''incident.escalated'' ''incident'' (inc_id i) (Some before) (Some after)]
            else []))"

definition audit_entries_for_incident_containment_request ::
  "string \<Rightarrow> uuid \<Rightarrow> string \<Rightarrow> audit_entry list" where
  "audit_entries_for_incident_containment_request incident_id alert_id actor =
     [entry actor ''incident.containment_requested'' ''incident'' incident_id None
        (Some [(''incident_id'', JStr incident_id), (''alert_id'', juuid alert_id),
               (''requested_by'', JStr actor), (''state'', JStr ''approval_required''),
               (''containment_executed'', JBool False)])]"

definition actor_sweeper :: string where
  "actor_sweeper = ''system:sweeper''"

text \<open>The idle time is a number of microseconds; \<open>round\<close> turns it into seconds.\<close>

definition audit_entries_for_incident_auto_closed ::
  "incident \<Rightarrow> incident_status \<Rightarrow> int \<Rightarrow> int \<Rightarrow> audit_entry list" where
  "audit_entries_for_incident_auto_closed i previous ttl_seconds idle =
     [entry actor_sweeper ''incident.auto_closed'' ''incident'' (inc_id i)
        (Some [(''status'', JStr (incident_status_value previous))])
        (Some [(''incident_id'', JStr (inc_id i)),
               (''status'', JStr (incident_status_value (inc_status i))),
               (''previous_status'', JStr (incident_status_value previous)),
               (''acknowledged_at'', iso_or_null (inc_acknowledged_at i)),
               (''resolved_at'', iso_or_null (inc_resolved_at i)),
               (''ttl_seconds'', JInt ttl_seconds),
               (''idle_seconds'', JInt (round_half_even idle us_per_second)),
               (''reason'', JStr ''ttl_expired''), (''actor'', JStr actor_sweeper)])]"

subsection \<open>Notifications and feedback\<close>

definition int_or_null :: "int option \<Rightarrow> json" where
  "int_or_null n = (case n of None \<Rightarrow> JNull | Some n \<Rightarrow> JInt n)"

definition audit_entries_for_notification ::
  "uuid \<Rightarrow> string \<Rightarrow> int option \<Rightarrow> string option \<Rightarrow> int \<Rightarrow> string option \<Rightarrow> string option \<Rightarrow> int \<Rightarrow> bool
    \<Rightarrow> audit_entry list" where
  "audit_entries_for_notification alert_id status http_status error_type attempts payload_hash
      webhook_host duration_ms duplicate_suppressed =
     entry ''n8n'' ''notification.attempt'' ''notification'' (uuid_str alert_id) None
       (Some [(''alert_id'', juuid alert_id), (''status'', JStr status),
              (''http_status'', int_or_null http_status), (''attempts'', JInt attempts),
              (''payload_hash'', str_or_null payload_hash), (''webhook_host'', str_or_null webhook_host)])
     # (if duplicate_suppressed then
          [entry ''n8n'' ''notification.duplicate_suppressed'' ''notification'' (uuid_str alert_id) None
             (Some [(''alert_id'', juuid alert_id), (''reason'', JStr ''already_delivered'')])]
        else if status = ''delivered'' then
          [entry ''n8n'' ''notification.delivered'' ''notification'' (uuid_str alert_id) None
             (Some [(''alert_id'', juuid alert_id), (''http_status'', int_or_null http_status),
                    (''attempts'', JInt attempts), (''duration_ms'', JInt duration_ms),
                    (''webhook_host'', str_or_null webhook_host)])]
        else if status = ''failed'' then
          [entry ''n8n'' ''notification.failed'' ''notification'' (uuid_str alert_id) None
             (Some [(''alert_id'', juuid alert_id), (''http_status'', int_or_null http_status),
                    (''error_type'', str_or_null error_type), (''attempts'', JInt attempts),
                    (''duration_ms'', JInt duration_ms), (''webhook_host'', str_or_null webhook_host)])]
        else if status = ''skipped'' then
          [entry ''system'' ''notification.skipped'' ''notification'' (uuid_str alert_id) None
             (Some [(''alert_id'', juuid alert_id), (''reason'', JStr ''n8n_disabled_or_duplicate'')])]
        else [])"

definition audit_entries_for_feedback :: "uuid \<Rightarrow> string \<Rightarrow> string \<Rightarrow> audit_entry list" where
  "audit_entries_for_feedback alert_id verdict actor =
     [entry ''analyst'' ''feedback.received'' ''feedback'' (uuid_str alert_id) None
        (Some [(''alert_id'', juuid alert_id), (''verdict'', JStr verdict), (''actor'', JStr actor)])]"

subsection \<open>Correlation\<close>

record correlation_evidence_item =
  ce_type :: string
  ce_value :: string
  ce_peer :: string

definition evidence_snapshot :: "correlation_evidence_item list \<Rightarrow> json" where
  "evidence_snapshot items =
     JList (map (\<lambda>i. JObj [(''evidence_type'', JStr (ce_type i)), (''value'', JStr (ce_value i)),
                            (''peer_alert_id'', JStr (ce_peer i))]) items)"

definition audit_entry_for_correlation_context_created ::
  "string \<Rightarrow> uuid list \<Rightarrow> string list \<Rightarrow> audit_entry" where
  "audit_entry_for_correlation_context_created context_id members reasons =
     entry ''correlation'' ''correlation.context_created'' ''correlation_context'' context_id None
       (Some [(''context_id'', JStr context_id), (''alert_ids'', JList (map juuid members)),
              (''evidence'', JList (map JStr reasons))])"

definition audit_entry_for_correlation_alert_linked ::
  "string \<Rightarrow> uuid \<Rightarrow> correlation_evidence_item list \<Rightarrow> audit_entry" where
  "audit_entry_for_correlation_alert_linked context_id alert_id evidence =
     entry ''correlation'' ''correlation.alert_linked'' ''correlation_context'' context_id None
       (Some [(''context_id'', JStr context_id), (''alert_id'', juuid alert_id),
              (''evidence'', evidence_snapshot evidence)])"

definition audit_entry_for_correlation_contexts_merged :: "string \<Rightarrow> string \<Rightarrow> uuid \<Rightarrow> audit_entry" where
  "audit_entry_for_correlation_contexts_merged kept merged bridge =
     entry ''correlation'' ''correlation.contexts_merged'' ''correlation_context'' kept
       (Some [(''context_id'', JStr merged)])
       (Some [(''kept_context_id'', JStr kept), (''merged_context_id'', JStr merged),
              (''bridge_alert_id'', juuid bridge)])"

subsection \<open>What the entries record\<close>

lemma entry_simps [simp]:
  "ae_actor (entry a b c d x y) = a" "ae_action (entry a b c d x y) = b"
  "ae_entity_type (entry a b c d x y) = c" "ae_entity_id (entry a b c d x y) = d"
  "ae_before (entry a b c d x y) = x" "ae_after (entry a b c d x y) = y"
  by (simp_all add: entry_def)

text \<open>
  The audit trail of a delivery is complete and unambiguous: every decision records exactly
  one of \<open>alert.created\<close> and \<open>alert.duplicate_absorbed\<close> for its alert (which one is
  decided by the status), a generation start exactly when one happened, and a content divergence
  exactly when there was one; nothing else.
\<close>

theorem delivery_audit_complete:
  "map ae_action (audit_entries_for_decision d) =
     (if dd_generation_started d then [''dedupe.generation_started''] else [])
     @ [if dd_status d = EXACT_DUPLICATE then ''alert.duplicate_absorbed'' else ''alert.created'']
     @ (if dd_content_diverged d then [''alert.content_divergence''] else [])"
  by (simp add: audit_entries_for_decision_def Let_def)

text \<open>
  A transition of an incident is audited with the status it left and the status it reached;
  an escalation is audited a second time with the same snapshots, for its own consumers, and no
  other transition is.
\<close>

theorem status_audit_records_transition:
  "\<exists>e after. hd (audit_entries_for_incident_status i previous actor notes) = e
     \<and> ae_action e = ''incident.status_updated'' \<and> ae_entity_id e = inc_id i \<and> ae_actor e = actor
     \<and> ae_before e = Some [(''status'', JStr (incident_status_value previous))]
     \<and> ae_after e = Some after
     \<and> map_of after ''status'' = Some (JStr (incident_status_value (inc_status i)))
     \<and> tl (audit_entries_for_incident_status i previous actor notes) =
        (if inc_status i = ESCALATED then [e\<lparr>ae_action := ''incident.escalated''\<rparr>] else [])"
  by (auto simp: audit_entries_for_incident_status_def Let_def incident_status_snapshot_def entry_def
      split: option.splits)

end
