(* ===== verification/Store.thy ===== *)
theory Store
  imports Audit_Entries
begin

text \<open>
  The persistent store: the tables of models/orm.py, statements on them that may raise, and
  the unit of work of db/session.py.

  A table with a key of its own is a dictionary from the key to the row, in insertion order; a
  table with a generated integer id is a list of rows. A JSON column holds the value whose dump
  it stores (pydantic's \<open>model_validate\<close> inverts \<open>model_dump\<close>), an enumeration
  column the enumeration member. A violated key or foreign key raises
  \<^const>\<open>SQLAlchemyError\<close>, the base class of \<open>IntegrityError\<close>.
\<close>

subsection \<open>Rows\<close>

record alert_row =
  al_id :: uuid
  al_source :: string
  al_received_at :: instant
  al_group_key :: string
  al_event_identity :: string
  al_rule_id :: string
  al_rule_level :: int
  al_agent_id :: string
  al_agent_name :: string
  al_payload :: canonical_alert
  al_incident_id :: "string option"
  al_created_at :: instant

record group_row =
  gr_key :: string
  gr_occurrences :: nat
  gr_generation :: nat
  gr_first_seen :: "instant option"
  gr_last_seen :: "instant option"
  gr_duplicates :: nat
  gr_updated_at :: instant

record event_row =
  ev_identity :: string
  ev_group_key :: string
  ev_alert_id :: uuid
  ev_fingerprint :: string
  ev_delivery_count :: nat
  ev_content_variants :: nat
  ev_first_delivered :: instant
  ev_last_delivered :: instant

record context_row =
  cx_id :: string
  cx_created_at :: instant
  cx_updated_at :: instant
  cx_first_seen :: instant
  cx_last_seen :: instant

record member_row =
  mb_id :: nat
  mb_context_id :: string
  mb_alert_id :: uuid
  mb_joined_at :: instant
  mb_evidence :: "correlation_evidence_item list"

record audit_row =
  au_id :: nat
  au_occurred_at :: instant
  au_entry :: audit_entry

record notification_row =
  nt_id :: nat
  nt_alert_id :: uuid
  nt_attempted_at :: instant
  nt_status :: string
  nt_http_status :: "int option"
  nt_error_type :: "string option"
  nt_retry_count :: int
  nt_payload_hash :: string
  nt_webhook_host :: "string option"
  nt_duration_ms :: int

record feedback_row =
  fb_id :: nat
  fb_alert_id :: uuid
  fb_received_at :: instant
  fb_actor :: string
  fb_verdict :: string
  fb_notes :: "string option"

record store =
  st_alerts :: "(uuid, alert_row) dict"
  st_incidents :: "(string, incident) dict"
  st_groups :: "(string, group_row) dict"
  st_events :: "(string, event_row) dict"
  st_contexts :: "(string, context_row) dict"
  st_members :: "member_row list"
  st_audit :: "audit_row list"
  st_notifications :: "notification_row list"
  st_feedback :: "feedback_row list"

definition empty_store :: store where
  "empty_store = \<lparr>st_alerts = [], st_incidents = [], st_groups = [], st_events = [],
     st_contexts = [], st_members = [], st_audit = [], st_notifications = [], st_feedback = []\<rparr>"

subsection \<open>Statements\<close>

type_synonym 'a db = "store \<Rightarrow> py_exn + ('a \<times> store)"

definition db_return :: "'a \<Rightarrow> 'a db" where
  "db_return x s = Inr (x, s)"

definition db_raise :: "py_exn \<Rightarrow> 'a db" where
  "db_raise e s = Inl e"

definition db_bind :: "'a db \<Rightarrow> ('a \<Rightarrow> 'b db) \<Rightarrow> 'b db" where
  "db_bind m f s = (case m s of Inl e \<Rightarrow> Inl e | Inr (x, s') \<Rightarrow> f x s')"

definition db_read :: "(store \<Rightarrow> 'a) \<Rightarrow> 'a db" where
  "db_read f s = Inr (f s, s)"

definition db_write :: "(store \<Rightarrow> store) \<Rightarrow> unit db" where
  "db_write f s = Inr ((), f s)"

definition db_require :: "(store \<Rightarrow> bool) \<Rightarrow> unit db" where
  "db_require p s = (if p s then Inr ((), s) else Inl SQLAlchemyError)"

fun db_each :: "('a \<Rightarrow> unit db) \<Rightarrow> 'a list \<Rightarrow> unit db" where
  "db_each f [] = db_return ()"
| "db_each f (x # xs) = db_bind (f x) (\<lambda>_. db_each f xs)"

text \<open>The next generated id of a table.\<close>

definition next_rowid :: "nat list \<Rightarrow> nat" where
  "next_rowid ids = foldr max ids 0 + 1"

lemma db_bind_eq_Inr [simp]:
  "db_bind m f s = Inr (y, s'') \<longleftrightarrow> (\<exists>x s'. m s = Inr (x, s') \<and> f x s' = Inr (y, s''))"
  by (auto simp: db_bind_def split: sum.splits)

lemma db_simps [simp]:
  "db_return x s = Inr (y, s') \<longleftrightarrow> y = x \<and> s' = s"
  "db_raise e s \<noteq> Inr z"
  "db_read f s = Inr (y, s') \<longleftrightarrow> y = f s \<and> s' = s"
  "db_write g s = Inr (u, s') \<longleftrightarrow> s' = g s"
  "db_require p s = Inr (u, s') \<longleftrightarrow> p s \<and> s' = s"
  by (auto simp: db_return_def db_raise_def db_read_def db_write_def db_require_def)

lemma db_bind_run:
  "m s = Inr (x, s') \<Longrightarrow> db_bind m f s = f x s'"
  "m s = Inl e \<Longrightarrow> db_bind m f s = Inl e"
  by (simp_all add: db_bind_def)

lemma db_run:
  "db_return x s = Inr (x, s)" "db_read f s = Inr (f s, s)" "db_write g s = Inr ((), g s)"
  "db_require p s = (if p s then Inr ((), s) else Inl SQLAlchemyError)" "db_raise e s = Inl e"
  by (simp_all add: db_return_def db_read_def db_write_def db_require_def db_raise_def)

subsection \<open>The unit of work\<close>

text \<open>What the database makes of one unit of work.\<close>

datatype db_fate = Accepted | Statement_fails | Commit_fails

text \<open>
  \<open>session_scope\<close>: commit on success, roll back on any error. \<open>db_ok\<close> says whether
  the database accepts the statements and the commit of this unit; if not, a
  \<^const>\<open>SQLAlchemyError\<close> is raised, and nothing is kept either.
\<close>

definition session_scope :: "bool \<Rightarrow> 'a db \<Rightarrow> store \<Rightarrow> (py_exn + 'a) \<times> store" where
  "session_scope db_ok body s =
     (case body s of
        Inl e \<Rightarrow> (Inl e, s)
      | Inr (x, s') \<Rightarrow> if db_ok then (Inr x, s') else (Inl SQLAlchemyError, s))"

text \<open>What every user of a unit of work relies on.\<close>

locale unit_of_work =
  fixes run :: "'a db \<Rightarrow> store \<Rightarrow> (py_exn + 'a) \<times> store"
  assumes rollback: "run m s = (Inl e, s') \<Longrightarrow> s' = s"
    and commit: "run m s = (Inr x, s') \<Longrightarrow> m s = Inr (x, s')"
begin

lemma preserves:
  assumes "\<And>x s'. m s = Inr (x, s') \<Longrightarrow> P s'" "P s" "run m s = (r, s')"
  shows "P s'"
  using assms rollback commit by (cases r) metis+

lemma all_or_nothing: "run m s = (r, s') \<Longrightarrow> s' = s \<or> (\<exists>x. r = Inr x \<and> m s = Inr (x, s'))"
  using rollback commit by (cases r) metis+

end

interpretation session: unit_of_work "session_scope db_ok" for db_ok
  by unfold_locales (auto simp: session_scope_def split: sum.splits if_splits)

lemma session_invariant:
  assumes "\<And>x s'. m s = Inr (x, s') \<Longrightarrow> P s'" "P s"
  shows "P (snd (session_scope db_ok m s))"
  using session.preserves [of m s P db_ok] assms by (cases "session_scope db_ok m s") auto

lemma session_scope_eq_Inr:
  "session_scope db_ok m s = (Inr x, s') \<longleftrightarrow> db_ok \<and> m s = Inr (x, s')"
  by (auto simp: session_scope_def split: sum.splits)

lemma session_scope_eq_Inl:
  "session_scope db_ok m s = (Inl e, s') \<longleftrightarrow>
     s' = s \<and> (m s = Inl e \<or> (\<not> db_ok \<and> e = SQLAlchemyError \<and> (\<exists>z. m s = Inr z)))"
  by (cases "m s") (auto simp: session_scope_def split: if_splits)

subsection \<open>The audit repository\<close>

definition audit_append_one :: "instant \<Rightarrow> audit_entry \<Rightarrow> store \<Rightarrow> store" where
  "audit_append_one occurred_at e s =
     s\<lparr>st_audit := st_audit s @
        [\<lparr>au_id = next_rowid (map au_id (st_audit s)), au_occurred_at = occurred_at, au_entry = e\<rparr>]\<rparr>"

definition audit_append :: "audit_entry list \<Rightarrow> instant \<Rightarrow> unit db" where
  "audit_append entries occurred_at = db_write (fold (audit_append_one occurred_at) entries)"

definition audit_for_entity_ids :: "string list \<Rightarrow> store \<Rightarrow> audit_row list" where
  "audit_for_entity_ids ids s =
     (if ids = [] then []
      else sort_key (\<lambda>r. (au_occurred_at r, au_id r))
             (filter (\<lambda>r. ae_entity_id (au_entry r) \<in> set ids) (st_audit s)))"

definition audit_all :: "nat option \<Rightarrow> store \<Rightarrow> audit_row list" where
  "audit_all limit s =
     (let rows = sort_key au_id (st_audit s) in case limit of None \<Rightarrow> rows | Some n \<Rightarrow> take n rows)"

subsection \<open>The audit log only grows\<close>

text \<open>
  \<open>audit_of s\<close> is what the log says; the ids are the positions of the rows, from 1, which
  is what makes \<open>audit_append\<close> independent of the ids already there.
\<close>

definition audit_of :: "store \<Rightarrow> (instant \<times> audit_entry) list" where
  "audit_of s = map (\<lambda>r. (au_occurred_at r, au_entry r)) (st_audit s)"

definition audit_ids_ok :: "store \<Rightarrow> bool" where
  "audit_ids_ok s = (map au_id (st_audit s) = [1..<length (st_audit s) + 1])"

lemma next_rowid_upt: "next_rowid [1..<n + 1] = n + 1"
proof (induction n)
  case (Suc n)
  have "foldr max xs (m::nat) = max (foldr max xs 0) m" for xs m
    by (induction xs) auto
  from this [of "[1..<n+1]" "n + 1"] Suc show ?case by (simp add: next_rowid_def)
qed (simp add: next_rowid_def)

lemma audit_append_one_simps [simp]:
  "st_alerts (audit_append_one t e s) = st_alerts s"
  "st_incidents (audit_append_one t e s) = st_incidents s"
  "st_groups (audit_append_one t e s) = st_groups s"
  "st_events (audit_append_one t e s) = st_events s"
  "st_contexts (audit_append_one t e s) = st_contexts s"
  "st_members (audit_append_one t e s) = st_members s"
  "st_notifications (audit_append_one t e s) = st_notifications s"
  "st_feedback (audit_append_one t e s) = st_feedback s"
  by (simp_all add: audit_append_one_def)

lemma fold_audit_simps [simp]:
  "st_alerts (fold (audit_append_one t) es s) = st_alerts s"
  "st_incidents (fold (audit_append_one t) es s) = st_incidents s"
  "st_groups (fold (audit_append_one t) es s) = st_groups s"
  "st_events (fold (audit_append_one t) es s) = st_events s"
  "st_contexts (fold (audit_append_one t) es s) = st_contexts s"
  "st_members (fold (audit_append_one t) es s) = st_members s"
  "st_notifications (fold (audit_append_one t) es s) = st_notifications s"
  "st_feedback (fold (audit_append_one t) es s) = st_feedback s"
  by (induction es arbitrary: s) simp_all

lemma audit_of_fold [simp]: "audit_of (fold (audit_append_one t) es s) = audit_of s @ map (Pair t) es"
  by (induction es arbitrary: s) (simp_all add: audit_of_def audit_append_one_def)

lemma audit_ids_ok_append: "audit_ids_ok s \<Longrightarrow> audit_ids_ok (audit_append_one t e s)"
  using next_rowid_upt [of "length (st_audit s)"]
  by (simp add: audit_ids_ok_def audit_append_one_def)

lemma audit_ids_ok_fold [simp]: "audit_ids_ok s \<Longrightarrow> audit_ids_ok (fold (audit_append_one t) es s)"
  by (induction es arbitrary: s) (simp_all add: audit_ids_ok_append)

end
