(* ===== verification/Alert_Repository.thy ===== *)
theory Alert_Repository
  imports Store
begin

text \<open>
  \<open>AlertRepository\<close> and \<open>DedupeStateRepository\<close> (models/repositories.py): the
  alerts of record, and the group and event rows behind deduplication.
\<close>

subsection \<open>Paging\<close>

definition max_page_limit :: int where
  "max_page_limit = 200"

definition clamp_page :: "int \<Rightarrow> int \<Rightarrow> int \<times> int" where
  "clamp_page limit offset = (min (max limit 1) max_page_limit, max offset 0)"

definition page :: "int \<times> int \<Rightarrow> 'a list \<Rightarrow> 'a list" where
  "page lo xs = take (nat (fst lo)) (drop (nat (snd lo)) xs)"

text \<open>\<open>ORDER BY k DESC\<close>: the reverse of a stable ascending sort of the reversed rows.\<close>

definition sort_desc :: "('a \<Rightarrow> 'k::linorder) \<Rightarrow> 'a list \<Rightarrow> 'a list" where
  "sort_desc f xs = rev (sort_key f (rev xs))"

subsection \<open>Alerts\<close>

definition rows :: "('k, 'v) dict \<Rightarrow> 'v list" where
  "rows t = map snd t"

definition get_alert_row :: "uuid \<Rightarrow> store \<Rightarrow> alert_row option" where
  "get_alert_row alert_id s = map_of (st_alerts s) alert_id"

definition alert_get :: "uuid \<Rightarrow> store \<Rightarrow> canonical_alert option" where
  "alert_get alert_id s = map_option al_payload (get_alert_row alert_id s)"

record alert_filter =
  q_source :: "string option"
  q_incident_id :: "string option"
  q_rule_id :: "string option"
  q_agent_id :: "string option"
  q_tier :: "string option"
  q_severity :: "string option"
  q_group_key :: "string option"
  q_duplicate :: "bool option"

definition eq_filter :: "'a option \<Rightarrow> 'a \<Rightarrow> bool" where
  "eq_filter q v = (case q of None \<Rightarrow> True | Some x \<Rightarrow> v = x)"

text \<open>
  The JSON paths \<open>$.risk.tier\<close> and \<open>$.decision.severity\<close>; a missing object or a null
  is SQL \<open>NULL\<close>, which equals nothing. The duplicate filter joins the event rows.
\<close>

definition nullable_filter :: "string option \<Rightarrow> string option \<Rightarrow> bool" where
  "nullable_filter q v = (case q of None \<Rightarrow> True | Some x \<Rightarrow> v = Some x)"

definition payload_tier :: "canonical_alert \<Rightarrow> string option" where
  "payload_tier c = map_option (\<lambda>r. risk_tier_value (r_tier r)) (c_risk c)"

definition payload_severity :: "canonical_alert \<Rightarrow> string option" where
  "payload_severity c =
     (case c_decision c of None \<Rightarrow> None | Some d \<Rightarrow> map_option decision_severity_value (d_severity d))"

definition filter_alerts :: "alert_filter \<Rightarrow> store \<Rightarrow> alert_row list" where
  "filter_alerts q s =
     filter (\<lambda>a. eq_filter (q_source q) (al_source a)
        \<and> nullable_filter (q_incident_id q) (al_incident_id a)
        \<and> eq_filter (q_rule_id q) (al_rule_id a) \<and> eq_filter (q_agent_id q) (al_agent_id a)
        \<and> eq_filter (q_group_key q) (al_group_key a)
        \<and> nullable_filter (q_tier q) (payload_tier (al_payload a))
        \<and> nullable_filter (q_severity q) (payload_severity (al_payload a))
        \<and> (case q_duplicate q of
              None \<Rightarrow> True
            | Some True \<Rightarrow> list_ex (\<lambda>e. ev_alert_id e = al_id a \<and> ev_delivery_count e > 1) (rows (st_events s))
            | Some False \<Rightarrow> list_ex (\<lambda>e. ev_alert_id e = al_id a \<and> ev_delivery_count e = 1) (rows (st_events s))))
       (rows (st_alerts s))"

definition list_alerts :: "alert_filter \<Rightarrow> int \<Rightarrow> int \<Rightarrow> store \<Rightarrow> alert_row list \<times> nat" where
  "list_alerts q limit offset s =
     (let found = filter_alerts q s in
      (page (clamp_page limit offset) (sort_desc (\<lambda>a. (al_received_at a, al_id a)) found), length found))"

definition alerts_for_incident :: "string \<Rightarrow> store \<Rightarrow> alert_row list" where
  "alerts_for_incident incident_id s =
     sort_key (\<lambda>a. (al_received_at a, al_id a))
       (filter (\<lambda>a. al_incident_id a = Some incident_id) (rows (st_alerts s)))"

definition list_alerts_received_since :: "instant \<Rightarrow> int \<Rightarrow> alert_row list db" where
  "list_alerts_received_since since limit =
     (if limit < 1 then db_raise ValueError
      else db_read (\<lambda>s. take (nat limit) (sort_key (\<lambda>a. (al_received_at a, al_id a))
             (filter (\<lambda>a. since \<le> al_received_at a) (rows (st_alerts s))))))"

definition set_alert :: "uuid \<Rightarrow> (alert_row \<Rightarrow> alert_row) \<Rightarrow> store \<Rightarrow> store" where
  "set_alert alert_id f s =
     (case map_of (st_alerts s) alert_id of
        None \<Rightarrow> s
      | Some row \<Rightarrow> s\<lparr>st_alerts := AList.update alert_id (f row) (st_alerts s)\<rparr>)"

definition update_normalized_payload :: "uuid \<Rightarrow> canonical_alert \<Rightarrow> unit db" where
  "update_normalized_payload alert_id canonical =
     db_bind (db_read (get_alert_row alert_id)) (\<lambda>row.
       if row = None then db_raise LookupError
       else db_write (set_alert alert_id (\<lambda>a. a\<lparr>al_payload := canonical\<rparr>)))"

subsection \<open>Group and event rows\<close>

definition event_to_record :: "event_row \<Rightarrow> alert_row \<Rightarrow> event_record" where
  "event_to_record e a =
     \<lparr>er_identity = ev_identity e, er_alert_id = ev_alert_id e, er_fingerprint = ev_fingerprint e,
      er_canonical = al_payload a, er_delivery_count = ev_delivery_count e,
      er_content_variants = ev_content_variants e, er_first_delivered = ev_first_delivered e,
      er_last_delivered = ev_last_delivered e\<rparr>"

definition events_for_group :: "store \<Rightarrow> string \<Rightarrow> event_record list" where
  "events_for_group s key =
     List.map_filter (\<lambda>e. if ev_group_key e = key
         then map_option (event_to_record e) (get_alert_row (ev_alert_id e) s) else None)
       (rows (st_events s))"

definition to_group_state :: "group_row \<Rightarrow> event_record list \<Rightarrow> group_state" where
  "to_group_state r events =
     \<lparr>gs_key = gr_key r, gs_occurrences = gr_occurrences r, gs_first_seen = gr_first_seen r,
      gs_last_seen = gr_last_seen r, gs_generation = gr_generation r,
      gs_duplicates = gr_duplicates r,
      gs_events = fold (\<lambda>e. AList.update (er_identity e) e) events []\<rparr>"

definition stored_group_state :: "store \<Rightarrow> string \<Rightarrow> group_state option" where
  "stored_group_state s key =
     map_option (\<lambda>r. to_group_state r (events_for_group s key)) (map_of (st_groups s) key)"

definition delete_expired_events :: "string \<Rightarrow> instant \<Rightarrow> int \<Rightarrow> store \<Rightarrow> store" where
  "delete_expired_events key horizon window s =
     s\<lparr>st_events := filter (\<lambda>(_, e). \<not> (ev_group_key e = key \<and> ev_last_delivered e < horizon - window))
        (st_events s)\<rparr>"

definition load_state :: "string \<Rightarrow> instant \<Rightarrow> int \<Rightarrow> group_state option db" where
  "load_state key received window =
     db_bind (db_write (delete_expired_events key received window)) (\<lambda>_.
       db_read (\<lambda>s. stored_group_state s key))"

definition stored_group_count :: "store \<Rightarrow> nat" where
  "stored_group_count s = length (st_groups s)"

definition upsert_group :: "instant \<Rightarrow> group_state \<Rightarrow> store \<Rightarrow> store" where
  "upsert_group now g s =
     s\<lparr>st_groups := AList.update (gs_key g)
        \<lparr>gr_key = gs_key g, gr_occurrences = gs_occurrences g, gr_generation = gs_generation g,
         gr_first_seen = gs_first_seen g, gr_last_seen = gs_last_seen g,
         gr_duplicates = gs_duplicates g,
         gr_updated_at = (case gs_last_seen g of Some t \<Rightarrow> t
                          | None \<Rightarrow> (case gs_first_seen g of Some t \<Rightarrow> t | None \<Rightarrow> now))\<rparr>
        (st_groups s)\<rparr>"

definition new_alert_row :: "group_state \<Rightarrow> event_record \<Rightarrow> alert_row" where
  "new_alert_row g r =
     (let c = er_canonical r; se = c_source_event c in
      \<lparr>al_id = er_alert_id r, al_source = c_source c, al_received_at = c_received_at c,
       al_group_key = gs_key g, al_event_identity = er_identity r,
       al_rule_id = rule_id (se_rule se), al_rule_level = rule_level (se_rule se),
       al_agent_id = agent_id (se_agent se), al_agent_name = agent_name (se_agent se),
       al_payload = c, al_incident_id = None, al_created_at = er_first_delivered r\<rparr>)"

definition new_event_row :: "group_state \<Rightarrow> event_record \<Rightarrow> event_row" where
  "new_event_row g r =
     \<lparr>ev_identity = er_identity r, ev_group_key = gs_key g, ev_alert_id = er_alert_id r,
      ev_fingerprint = er_fingerprint r, ev_delivery_count = er_delivery_count r,
      ev_content_variants = er_content_variants r, ev_first_delivered = er_first_delivered r,
      ev_last_delivered = er_last_delivered r\<rparr>"

text \<open>The primary keys, and the unique \<open>alert_id\<close> of an event row.\<close>

definition record_event :: "instant \<Rightarrow> group_state \<Rightarrow> event_record \<Rightarrow> unit db" where
  "record_event now g r =
     db_bind (db_require (\<lambda>s. er_alert_id r \<notin> fst ` set (st_alerts s))) (\<lambda>_.
     db_bind (db_write (\<lambda>s. s\<lparr>st_alerts := st_alerts s @ [(er_alert_id r, new_alert_row g r)]\<rparr>)) (\<lambda>_.
     db_bind (db_require (\<lambda>s. er_identity r \<notin> fst ` set (st_events s)
                \<and> er_alert_id r \<notin> ev_alert_id ` set (rows (st_events s)))) (\<lambda>_.
     db_bind (db_write (\<lambda>s. s\<lparr>st_events := st_events s @ [(er_identity r, new_event_row g r)]\<rparr>)) (\<lambda>_.
       db_write (upsert_group now g)))))"

definition absorb_event_row :: "event_record \<Rightarrow> event_row \<Rightarrow> event_row" where
  "absorb_event_row r e =
     e\<lparr>ev_fingerprint := er_fingerprint r, ev_delivery_count := er_delivery_count r,
       ev_content_variants := er_content_variants r, ev_last_delivered := er_last_delivered r\<rparr>"

definition absorb_event :: "instant \<Rightarrow> group_state \<Rightarrow> event_record \<Rightarrow> unit db" where
  "absorb_event now g r =
     db_bind (db_read (\<lambda>s. map_of (st_events s) (er_identity r))) (\<lambda>row.
       case row of
         None \<Rightarrow> db_raise LookupError
       | Some e \<Rightarrow>
           db_bind (db_write (\<lambda>s. s\<lparr>st_events := AList.update (er_identity r) (absorb_event_row r e) (st_events s)\<rparr>)) (\<lambda>_.
             db_write (upsert_group now g)))"

subsection \<open>Lemmas\<close>

lemma update_normalized_payload_eq:
  "update_normalized_payload alert_id c s = Inr (u, s') \<longleftrightarrow>
     get_alert_row alert_id s \<noteq> None \<and> s' = set_alert alert_id (\<lambda>a. a\<lparr>al_payload := c\<rparr>) s"
  by (auto simp: update_normalized_payload_def split: if_splits)

lemma update_normalized_payload_Inl:
  "update_normalized_payload alert_id c s = Inl e \<longleftrightarrow> get_alert_row alert_id s = None \<and> e = LookupError"
  by (auto simp: update_normalized_payload_def db_bind_def db_run)

lemma set_alert_frame [simp]:
  "st_incidents (set_alert i f s) = st_incidents s"
  "st_groups (set_alert i f s) = st_groups s"
  "st_events (set_alert i f s) = st_events s"
  "st_contexts (set_alert i f s) = st_contexts s"
  "st_members (set_alert i f s) = st_members s"
  "st_audit (set_alert i f s) = st_audit s"
  "st_notifications (set_alert i f s) = st_notifications s"
  "st_feedback (set_alert i f s) = st_feedback s"
  by (simp_all add: set_alert_def split: option.splits)

lemma map_of_set_alert:
  "map_of (st_alerts (set_alert i f s)) j =
     (if j = i then map_option f (map_of (st_alerts s) i) else map_of (st_alerts s) j)"
  by (simp add: set_alert_def update_conv split: option.splits)

lemma dom_set_alert [simp]: "fst ` set (st_alerts (set_alert i f s)) = fst ` set (st_alerts s)"
  by (auto simp: set_alert_def dom_update split: option.splits dest: map_of_SomeD)
     (metis fst_conv image_eqI map_of_SomeD)

lemma mset_page: "mset (page lo xs) \<subseteq># mset xs"
proof -
  let ?n = "nat (fst lo)" and ?ys = "drop (nat (snd lo)) xs"
  have "mset xs = mset (take (nat (snd lo)) xs) + (mset (take ?n ?ys) + mset (drop ?n ?ys))"
    by (simp only: mset_append [symmetric] append_take_drop_id)
  then show ?thesis by (simp add: page_def)
qed

text \<open>
  A page is never unbounded and never repeats a row: a listing returns at most 200 alerts,
  sorted newest first, each satisfying the filter, and the total counts every match whatever
  the page.
\<close>

theorem list_alerts_page:
  "length (fst (list_alerts q limit offset s)) \<le> 200
   \<and> sorted_wrt (\<lambda>a b. (al_received_at b, al_id b) \<le> (al_received_at a, al_id a)) (fst (list_alerts q limit offset s))
   \<and> mset (fst (list_alerts q limit offset s)) \<subseteq># mset (filter_alerts q s)
   \<and> snd (list_alerts q limit offset s) = length (filter_alerts q s)"
proof -
  let ?k = "\<lambda>a. (al_received_at a, al_id a)"
  let ?d = "sort_desc ?k (filter_alerts q s)"
  have "sorted_wrt (\<lambda>a b. ?k a \<le> ?k b) (sort_key ?k (rev (filter_alerts q s)))"
    using sorted_sort_key [of ?k] by (simp only: sorted_map)
  then have "sorted_wrt (\<lambda>a b. ?k b \<le> ?k a) ?d"
    by (simp only: sort_desc_def sorted_wrt_rev)
  then have sorted: "sorted_wrt (\<lambda>a b. ?k b \<le> ?k a) (page lo ?d)" for lo
    by (simp add: page_def sorted_wrt_take sorted_wrt_drop)
  have "mset (page lo ?d) \<subseteq># mset ?d" for lo
    by (simp only: mset_page)
  then have "mset (page lo ?d) \<subseteq># mset (filter_alerts q s)" for lo
    by (simp add: sort_desc_def)
  moreover have "length (page (clamp_page limit offset) ?d) \<le> 200"
    by (simp add: page_def clamp_page_def max_page_limit_def)
  ultimately show ?thesis using sorted by (simp add: list_alerts_def Let_def)
qed

end
