(* ===== verification/Sequence_Ids.thy ===== *)
theory Sequence_Ids
  imports Calendar
begin

text \<open>
  Human-readable sequential ids, \<open>INC-YYYY-MM-DD-NNNN\<close> and \<open>CORR-YYYY-MM-DD-NNNN\<close>:
  what \<open>IncidentRepository._next_id\<close> and \<open>CorrelationRepository._next_context_id\<close>
  (models/repositories.py) share. The largest id of the day is the largest as a string.
\<close>

definition max_str :: "string list \<Rightarrow> string option" where
  "max_str xs = (case xs of [] \<Rightarrow> None | y # ys \<Rightarrow> Some (fold max ys y))"

definition is_digit :: "char \<Rightarrow> bool" where
  "is_digit c = (let n = of_char c :: nat in 48 \<le> n \<and> n \<le> 57)"

definition parse_int :: "string \<Rightarrow> py_exn + nat" where
  "parse_int s =
     (if s \<noteq> [] \<and> list_all is_digit s then Inr (digits_value 10 (map (\<lambda>c. of_char c - 48) s))
      else Inl ValueError)"

text \<open>\<open>rsplit("-", 1)[-1]\<close>.\<close>

definition after_last_dash :: "string \<Rightarrow> string" where
  "after_last_dash s = rev (takeWhile (\<lambda>c. c \<noteq> CHR ''-'') (rev s))"

definition seq_suffix :: "nat \<Rightarrow> string" where
  "seq_suffix n = zero_pad 4 (nat_str n)"

definition next_seq_id :: "string \<Rightarrow> string list \<Rightarrow> py_exn + string" where
  "next_seq_id prefix ids =
     (case max_str (filter (starts_with prefix) ids) of
        None \<Rightarrow> Inr (prefix @ seq_suffix 1)
      | Some largest \<Rightarrow> then_ok (parse_int (after_last_dash largest)) (\<lambda>n. Inr (prefix @ seq_suffix (n + 1))))"

subsection \<open>Four digits\<close>

lemma digit_char_code: "d < 10 \<Longrightarrow> of_char (digit_char d) = 48 + d"
  by (simp add: digit_char_def take_bit_eq_mod)

lemma digit_char_less: "c < 10 \<Longrightarrow> d < 10 \<Longrightarrow> digit_char c < digit_char d \<longleftrightarrow> c < d"
  using digit_char_code [of c] digit_char_code [of d] by (simp add: less_char_def)

lemma digit_char_inject: "c < 10 \<Longrightarrow> d < 10 \<Longrightarrow> digit_char c = digit_char d \<longleftrightarrow> c = d"
  by (metis digit_char_code add_left_cancel)

lemma base_digits_step: "base_digits 10 n = (if n < 10 then [n] else base_digits 10 (n div 10) @ [n mod 10])"
  by (subst base_digits.simps) simp

lemma digit_char_table:
  "digit_char 0 = CHR ''0''" "digit_char (Suc 0) = CHR ''1''" "digit_char 9 = CHR ''9''"
  by code_simp+

lemma replicate_small: "replicate 3 x = [x, x, x]" "replicate 2 x = [x, x]"
  by (simp_all add: numeral_3_eq_3 numeral_2_eq_2)

lemma seq_suffix_four:
  assumes "n < 10000"
  shows "seq_suffix n = map digit_char [n div 1000, n div 100 mod 10, n div 10 mod 10, n mod 10]"
proof -
  note defs = seq_suffix_def zero_pad_def nat_str_def digit_char_table replicate_small
    div_mult2_eq [symmetric]
  consider "n < 10" | "10 \<le> n" "n < 100" | "100 \<le> n" "n < 1000" | "1000 \<le> n" by linarith
  then show ?thesis
  proof cases
    case 1
    then show ?thesis by (simp add: defs base_digits_step [of n])
  next
    case 2
    then have "n div 10 < 10" "\<not> n < 10" by simp_all
    then show ?thesis
      using 2 by (simp add: defs base_digits_step [of n] base_digits_step [of "n div 10"])
  next
    case 3
    then have "n div 100 < 10" "\<not> n div 10 < 10" "\<not> n < 10" by simp_all
    then show ?thesis
      using 3 by (simp add: defs base_digits_step [of n] base_digits_step [of "n div 10"]
          base_digits_step [of "n div 100"])
  next
    case 4
    then have "n div 1000 < 10" "\<not> n div 100 < 10" "\<not> n div 10 < 10" "\<not> n < 10" using assms by simp_all
    then show ?thesis
      using 4 by (simp add: defs base_digits_step [of n] base_digits_step [of "n div 10"]
          base_digits_step [of "n div 100"] base_digits_step [of "n div 1000"])
  qed
qed

lemma four_digits:
  "1000 * (n div 1000) + 100 * (n div 100 mod 10) + 10 * (n div 10 mod 10) + n mod 10 = (n::nat)"
proof -
  have "n = 10 * (n div 10) + n mod 10" "n div 10 = 10 * (n div 100) + n div 10 mod 10"
    "n div 100 = 10 * (n div 1000) + n div 100 mod 10"
    using mult_div_mod_eq [of 10 n] mult_div_mod_eq [of 10 "n div 10"] mult_div_mod_eq [of 10 "n div 100"]
    by (simp_all flip: div_mult2_eq)
  then show ?thesis by linarith
qed

lemma seq_suffix_digits:
  assumes "n < 10000"
  shows "list_all is_digit (seq_suffix n) \<and> digits_value 10 (map (\<lambda>c. of_char c - 48) (seq_suffix n)) = n
    \<and> seq_suffix n \<noteq> []"
proof -
  let ?a = "n div 1000" and ?b = "n div 100 mod 10" and ?c = "n div 10 mod 10" and ?d = "n mod 10"
  have less: "?a < 10" "?b < 10" "?c < 10" "?d < 10" using assms by simp_all
  have "is_digit (digit_char d)" if "d < 10" for d
    using that by (simp add: is_digit_def digit_char_code)
  then show ?thesis
    using less four_digits [of n] by (simp add: seq_suffix_four [OF assms] digit_char_code)
qed

lemma list_less_Cons: "(x # xs < y # ys) \<longleftrightarrow> x < y \<or> (x = y \<and> xs < ys)" for x y :: "'a::linorder"
  by simp

lemma digits_less:
  assumes "1000 * a + 100 * b + 10 * c + d < 1000 * a' + 100 * b' + 10 * c' + (d' :: nat)"
    and "b < 10" "c < 10" "d < 10" "b' < 10" "c' < 10" "d' < 10"
  shows "a < a' \<or> a = a' \<and> (b < b' \<or> b = b' \<and> (c < c' \<or> c = c' \<and> d < d'))"
proof -
  have "a \<le> a'" using assms by linarith
  moreover have "a = a' \<Longrightarrow> b \<le> b'" using assms by linarith
  moreover have "a = a' \<Longrightarrow> b = b' \<Longrightarrow> c \<le> c'" using assms by linarith
  moreover have "a = a' \<Longrightarrow> b = b' \<Longrightarrow> c = c' \<Longrightarrow> d < d'" using assms by linarith
  ultimately show ?thesis by (auto simp: order_le_less)
qed

lemma seq_suffix_less:
  assumes "m < n" "n < 10000"
  shows "seq_suffix m < seq_suffix n"
proof -
  let ?a = "m div 1000" and ?b = "m div 100 mod 10" and ?c = "m div 10 mod 10" and ?d = "m mod 10"
  let ?a' = "n div 1000" and ?b' = "n div 100 mod 10" and ?c' = "n div 10 mod 10" and ?d' = "n mod 10"
  have m: "m < 10000" using assms by simp
  have less: "?a < 10" "?b < 10" "?c < 10" "?d < 10" "?a' < 10" "?b' < 10" "?c' < 10" "?d' < 10"
    using assms m by simp_all
  have "1000 * ?a + 100 * ?b + 10 * ?c + ?d < 1000 * ?a' + 100 * ?b' + 10 * ?c' + ?d'"
    using assms(1) by (simp only: four_digits)
  from digits_less [OF this less(2-4,6-8)] show ?thesis
    using less by (simp add: seq_suffix_four [OF m] seq_suffix_four [OF assms(2)] digit_char_less digit_char_inject)
qed

lemma append_less_iff: "(p @ xs < p @ ys) \<longleftrightarrow> xs < (ys :: 'a::linorder list)"
  by (induction p) simp_all

lemma after_last_dash_suffix:
  assumes "list_all is_digit s"
  shows "after_last_dash (p @ ''-'' @ s) = s"
proof -
  have "c \<noteq> CHR ''-''" if "c \<in> set s" for c
    using assms that by (auto simp: list_all_iff is_digit_def)
  then have "takeWhile (\<lambda>c. c \<noteq> CHR ''-'') (rev s @ ''-'' @ rev p) = rev s"
    by (subst takeWhile_append2) auto
  then show ?thesis by (simp add: after_last_dash_def)
qed

lemma fold_max_le: "(\<forall>x \<in> set xs. x \<le> m) \<Longrightarrow> y \<le> m \<Longrightarrow> fold max xs y \<le> (m :: 'a::linorder)"
  by (induction xs arbitrary: y) auto

lemma fold_max_ge: "y \<le> fold max xs y \<and> (\<forall>x \<in> set xs. x \<le> fold max xs (y :: 'a::linorder))"
proof (induction xs arbitrary: y)
  case (Cons x xs)
  from Cons [of "max x y"] show ?case by auto
qed simp

lemma max_str_eq: "m \<in> set xs \<Longrightarrow> (\<forall>x \<in> set xs. x \<le> m) \<Longrightarrow> max_str xs = Some m"
proof (cases xs)
  case (Cons y ys)
  assume "m \<in> set xs" "\<forall>x \<in> set xs. x \<le> m"
  then have "fold max ys y = m"
    using Cons fold_max_le [of ys m y] fold_max_ge [of y ys] by (auto intro: antisym)
  with Cons show ?thesis by (simp add: max_str_def)
qed simp

text \<open>The ids of a day are those numbered \<open>1\<close> to \<open>n\<close>.\<close>

definition numbered :: "string \<Rightarrow> string list \<Rightarrow> nat \<Rightarrow> bool" where
  "numbered prefix ids n = (set (filter (starts_with prefix) ids) = (\<lambda>i. prefix @ seq_suffix i) ` {1..n})"

lemma next_seq_id_numbered:
  assumes num: "numbered (p @ ''-'') ids n" and n: "n < 10000"
  shows "next_seq_id (p @ ''-'') ids = Inr (p @ ''-'' @ seq_suffix (n + 1))"
proof (cases "n = 0")
  case True
  then have "filter (starts_with (p @ ''-'')) ids = []" using num by (simp add: numbered_def filter_empty_conv)
  then show ?thesis using True by (simp add: next_seq_id_def max_str_def)
next
  case False
  have "\<forall>x \<in> set (filter (starts_with (p @ ''-'')) ids). x \<le> p @ ''-'' @ seq_suffix n"
  proof
    fix x assume "x \<in> set (filter (starts_with (p @ ''-'')) ids)"
    then obtain i where i: "x = (p @ ''-'') @ seq_suffix i" "i \<in> {1..n}"
      using num unfolding numbered_def by blast
    show "x \<le> p @ ''-'' @ seq_suffix n"
    proof (cases "i = n")
      case False
      then have "seq_suffix i < seq_suffix n" using seq_suffix_less [of i n] i(2) n by simp
      then have "x < (p @ ''-'') @ seq_suffix n" by (simp only: i append_less_iff)
      then show ?thesis by simp
    qed (simp add: i)
  qed
  moreover have "p @ ''-'' @ seq_suffix n \<in> set (filter (starts_with (p @ ''-'')) ids)"
    using num False by (auto simp: numbered_def)
  ultimately have "max_str (filter (starts_with (p @ ''-'')) ids) = Some (p @ ''-'' @ seq_suffix n)"
    by (intro max_str_eq)
  then show ?thesis
    using seq_suffix_digits [OF n] after_last_dash_suffix [of "seq_suffix n" p]
    by (simp add: next_seq_id_def parse_int_def)
qed

lemma seq_suffix_10000: "seq_suffix 10000 = ''10000''"
  by (simp add: seq_suffix_def zero_pad_def nat_str_def base_digits_step digit_char_table)

lemma seq_suffix_inject_fresh: "n < 10000 \<Longrightarrow> i \<in> {1..n} \<Longrightarrow> seq_suffix (n + 1) \<noteq> seq_suffix i"
proof -
  assume n: "n < 10000" "i \<in> {1..n}"
  show ?thesis
  proof (cases "n = 9999")
    case True
    have "length (seq_suffix i) = 4" using n seq_suffix_four [of i] by simp
    moreover have "length (seq_suffix (n + 1)) = 5" using True seq_suffix_10000 by simp
    ultimately show ?thesis by fastforce
  next
    case False
    then show ?thesis using seq_suffix_less [of i "n + 1"] n by simp
  qed
qed

text \<open>With 10000 ids in a day the largest string is still number 9999.\<close>

lemma next_seq_id_repeats:
  assumes num: "numbered (p @ ''-'') ids 10000"
  shows "next_seq_id (p @ ''-'') ids = Inr (p @ ''-'' @ seq_suffix 10000)
    \<and> p @ ''-'' @ seq_suffix 10000 \<in> set ids"
proof -
  have top: "seq_suffix i \<le> seq_suffix 9999" if "i \<in> {1..10000}" for i
  proof (cases "i = 10000")
    case True
    have "seq_suffix 9999 = ''9999''" by (simp add: seq_suffix_four digit_char_table)
    then show ?thesis using True by (simp add: seq_suffix_10000 less_eq_char_def)
  next
    case False
    then show ?thesis using seq_suffix_less [of i 9999] that by (cases "i = 9999") auto
  qed
  have "\<forall>x \<in> set (filter (starts_with (p @ ''-'')) ids). x \<le> p @ ''-'' @ seq_suffix 9999"
  proof
    fix x assume "x \<in> set (filter (starts_with (p @ ''-'')) ids)"
    then obtain i where i: "x = (p @ ''-'') @ seq_suffix i" "i \<in> {1..10000}"
      using num unfolding numbered_def by blast
    have "seq_suffix i < seq_suffix 9999 \<or> seq_suffix i = seq_suffix 9999"
      using top [OF i(2)] by (simp only: order_le_less)
    then have "x < (p @ ''-'') @ seq_suffix 9999 \<or> x = (p @ ''-'') @ seq_suffix 9999"
      by (simp only: i append_less_iff same_append_eq)
    then show "x \<le> p @ ''-'' @ seq_suffix 9999" by (simp only: order_le_less append_assoc)
  qed
  moreover have mem: "(p @ ''-'') @ seq_suffix i \<in> set (filter (starts_with (p @ ''-'')) ids)" if "i \<in> {1..10000}" for i
    using num that unfolding numbered_def by blast
  ultimately have "max_str (filter (starts_with (p @ ''-'')) ids) = Some (p @ ''-'' @ seq_suffix 9999)"
    by (intro max_str_eq) fastforce
  moreover have "p @ ''-'' @ seq_suffix 10000 \<in> set ids" using mem [of 10000] by simp
  ultimately show ?thesis
    using seq_suffix_digits [of 9999] after_last_dash_suffix [of "seq_suffix 9999" p]
    by (simp add: next_seq_id_def parse_int_def)
qed

end
