(* ===== verification/Incident_Repository.thy ===== *)
theory Incident_Repository
  imports Alert_Repository Sequence_Ids
begin

text \<open>
  \<open>IncidentRepository\<close> (models/repositories.py): creation with sequential ids,
  linking, the guarded status update, and the queries and conditional update of the auto-close
  sweeper. All of it runs inside the caller's unit of work.
\<close>

subsection \<open>Reads\<close>

definition get_incident :: "string \<Rightarrow> store \<Rightarrow> incident option" where
  "get_incident incident_id s = map_of (st_incidents s) incident_id"

definition open_for_group :: "string \<Rightarrow> store \<Rightarrow> incident option" where
  "open_for_group group_key s =
     (case sort_key (\<lambda>i. (inc_created_at i, inc_id i))
             (filter (\<lambda>i. inc_group_key i = group_key \<and> inc_status i = OPEN) (rows (st_incidents s))) of
        [] \<Rightarrow> None
      | i # _ \<Rightarrow> Some i)"

definition incident_for_alert :: "uuid \<Rightarrow> store \<Rightarrow> incident option" where
  "incident_for_alert alert_id s =
     (case map_of (st_alerts s) alert_id of
        None \<Rightarrow> None
      | Some a \<Rightarrow> (case al_incident_id a of None \<Rightarrow> None | Some i \<Rightarrow> map_of (st_incidents s) i))"

record incident_filter =
  iq_status :: "incident_status option"
  iq_severity :: "decision_severity option"
  iq_group_key :: "string option"
  iq_created_from :: "instant option"
  iq_created_to :: "instant option"

definition list_incidents :: "incident_filter \<Rightarrow> int \<Rightarrow> int \<Rightarrow> store \<Rightarrow> incident list \<times> nat" where
  "list_incidents q limit offset s =
     (let found = filter (\<lambda>i. eq_filter (iq_status q) (inc_status i)
            \<and> eq_filter (iq_severity q) (inc_severity i) \<and> eq_filter (iq_group_key q) (inc_group_key i)
            \<and> (case iq_created_from q of None \<Rightarrow> True | Some t \<Rightarrow> t \<le> inc_created_at i)
            \<and> (case iq_created_to q of None \<Rightarrow> True | Some t \<Rightarrow> inc_created_at i \<le> t))
          (rows (st_incidents s))
      in (page (clamp_page limit offset) (sort_desc (\<lambda>i. (inc_created_at i, inc_id i)) found), length found))"

definition all_incidents :: "nat option \<Rightarrow> store \<Rightarrow> incident list" where
  "all_incidents limit s =
     (let is = sort_key (\<lambda>i. (inc_created_at i, inc_id i)) (rows (st_incidents s))
      in case limit of None \<Rightarrow> is | Some n \<Rightarrow> take n is)"

definition incident_count :: "store \<Rightarrow> nat" where
  "incident_count s = length (st_incidents s)"

definition eligible :: "int \<Rightarrow> instant \<Rightarrow> incident \<Rightarrow> bool" where
  "eligible ttl_seconds as_of i =
     (inc_status i \<notin> set terminal_statuses \<and> inc_updated_at i \<le> as_of - seconds ttl_seconds)"

definition list_incidents_eligible_for_auto_close :: "int \<Rightarrow> instant \<Rightarrow> int \<Rightarrow> incident list db" where
  "list_incidents_eligible_for_auto_close ttl_seconds as_of limit =
     (if ttl_seconds < 1 then db_raise ValueError
      else if limit < 1 then db_raise ValueError
      else db_read (\<lambda>s. take (nat limit) (sort_key (\<lambda>i. (inc_updated_at i, inc_id i))
             (filter (eligible ttl_seconds as_of) (rows (st_incidents s))))))"

subsection \<open>Writes\<close>

definition put_incident :: "incident \<Rightarrow> store \<Rightarrow> store" where
  "put_incident i s = s\<lparr>st_incidents := AList.update (inc_id i) i (st_incidents s)\<rparr>"

definition auto_close_if_stale ::
  "string \<Rightarrow> int \<Rightarrow> instant \<Rightarrow> instant \<Rightarrow> incident_status \<Rightarrow> incident option db" where
  "auto_close_if_stale incident_id ttl_seconds as_of expected_updated expected_status =
     (if ttl_seconds < 1 then db_raise ValueError
      else db_bind (db_read (get_incident incident_id)) (\<lambda>row.
        case row of
          None \<Rightarrow> db_return None
        | Some i \<Rightarrow>
            if inc_status i = expected_status \<and> inc_updated_at i = expected_updated
               \<and> inc_updated_at i \<le> as_of - seconds ttl_seconds
            then (let i' = i\<lparr>inc_status := RESOLVED, inc_updated_at := as_of, inc_resolved_at := Some as_of\<rparr>
                  in db_bind (db_write (put_incident i')) (\<lambda>_. db_return (Some i')))
            else db_return None))"

definition incident_prefix :: "instant \<Rightarrow> string" where
  "incident_prefix occurred_at = ''INC-'' @ date_str occurred_at @ ''-''"

definition next_incident_id :: "instant \<Rightarrow> store \<Rightarrow> py_exn + string" where
  "next_incident_id occurred_at s =
     next_seq_id (incident_prefix occurred_at) (map fst (st_incidents s))"

definition link_alert :: "uuid \<Rightarrow> string \<Rightarrow> unit db" where
  "link_alert alert_id incident_id =
     db_bind (db_read (get_alert_row alert_id)) (\<lambda>row.
       if row = None then db_raise LookupError
       else db_write (set_alert alert_id (\<lambda>a. a\<lparr>al_incident_id := Some incident_id\<rparr>)))"

definition new_incident :: "string \<Rightarrow> uuid \<Rightarrow> decision_severity \<Rightarrow> string \<Rightarrow> instant \<Rightarrow> incident" where
  "new_incident incident_id alert_id severity group_key occurred_at =
     \<lparr>inc_id = incident_id, inc_status = OPEN, inc_severity = severity,
      inc_primary_alert_id = alert_id, inc_group_key = group_key, inc_created_at = occurred_at,
      inc_updated_at = occurred_at, inc_acknowledged_at = None, inc_resolved_at = None\<rparr>"

text \<open>The keys of the table: the id, and one incident per primary alert.\<close>

definition create_incident :: "uuid \<Rightarrow> decision_severity \<Rightarrow> string \<Rightarrow> instant \<Rightarrow> incident db" where
  "create_incident alert_id severity group_key occurred_at =
     db_bind (db_read (get_alert_row alert_id)) (\<lambda>row.
       if row = None then db_raise LookupError
       else
         db_bind (db_read (next_incident_id occurred_at)) (\<lambda>r.
           case r of
             Inl e \<Rightarrow> db_raise e
           | Inr incident_id \<Rightarrow>
               (let i = new_incident incident_id alert_id severity group_key occurred_at in
                db_bind (db_require (\<lambda>s. incident_id \<notin> fst ` set (st_incidents s)
                    \<and> alert_id \<notin> inc_primary_alert_id ` set (rows (st_incidents s)))) (\<lambda>_.
                db_bind (db_write (\<lambda>s. s\<lparr>st_incidents := st_incidents s @ [(incident_id, i)]\<rparr>)) (\<lambda>_.
                db_bind (db_write (set_alert alert_id (\<lambda>a. a\<lparr>al_incident_id := Some incident_id\<rparr>))) (\<lambda>_.
                  db_return i))))))"

definition attach :: "uuid \<Rightarrow> string \<Rightarrow> unit db" where
  "attach alert_id incident_id =
     db_bind (db_read (get_incident incident_id)) (\<lambda>row.
       if row = None then db_raise LookupError else link_alert alert_id incident_id)"

definition moved :: "incident \<Rightarrow> incident_status \<Rightarrow> instant \<Rightarrow> incident" where
  "moved i target timestamp =
     (let i = i\<lparr>inc_status := target, inc_updated_at := timestamp\<rparr>;
          i = (if target = ACKNOWLEDGED then i\<lparr>inc_acknowledged_at := Some timestamp\<rparr> else i)
      in if target \<in> {RESOLVED, FALSE_POSITIVE} then i\<lparr>inc_resolved_at := Some timestamp\<rparr> else i)"

definition invalid_transition :: "incident_status \<Rightarrow> incident_status \<Rightarrow> py_exn" where
  "invalid_transition current target = OtherError (transition_error_text current target)"

definition update_status :: "string \<Rightarrow> incident_status \<Rightarrow> instant \<Rightarrow> incident db" where
  "update_status incident_id target occurred_at =
     db_bind (db_read (get_incident incident_id)) (\<lambda>row.
       case row of
         None \<Rightarrow> db_raise LookupError
       | Some i \<Rightarrow>
           if \<not> can_transition (inc_status i) target
           then db_raise (invalid_transition (inc_status i) target)
           else (let i' = moved i target occurred_at
                 in db_bind (db_write (put_incident i')) (\<lambda>_. db_return i')))"

subsection \<open>Well-formed incidents\<close>

definition incident_ok :: "incident \<Rightarrow> bool" where
  "incident_ok i = ((inc_resolved_at i \<noteq> None) = terminal (inc_status i)
     \<and> (inc_status i = ACKNOWLEDGED \<longrightarrow> inc_acknowledged_at i \<noteq> None))"

definition incidents_ok :: "store \<Rightarrow> bool" where
  "incidents_ok s = (distinct (map fst (st_incidents s))
     \<and> (\<forall>(k, i) \<in> set (st_incidents s). inc_id i = k \<and> incident_ok i))"

definition one_open_per_group :: "store \<Rightarrow> bool" where
  "one_open_per_group s =
     (\<forall>(_, i) \<in> set (st_incidents s). \<forall>(_, j) \<in> set (st_incidents s).
        inc_status i = OPEN \<and> inc_status j = OPEN \<and> inc_group_key i = inc_group_key j \<longrightarrow> i = j)"

lemma moved_simps [simp]:
  "inc_id (moved i t ts) = inc_id i" "inc_status (moved i t ts) = t"
  "inc_updated_at (moved i t ts) = ts" "inc_group_key (moved i t ts) = inc_group_key i"
  "inc_severity (moved i t ts) = inc_severity i" "inc_created_at (moved i t ts) = inc_created_at i"
  "inc_primary_alert_id (moved i t ts) = inc_primary_alert_id i"
  "inc_acknowledged_at (moved i t ts) =
     (if t = ACKNOWLEDGED then Some ts else inc_acknowledged_at i)"
  "inc_resolved_at (moved i t ts) = (if terminal t then Some ts else inc_resolved_at i)"
  by (auto simp: moved_def Let_def terminal_iff)

lemma moved_ok: "incident_ok i \<Longrightarrow> can_transition (inc_status i) t \<Longrightarrow> incident_ok (moved i t ts)"
  using can_transition_not_terminal [of "inc_status i" t]
  by (auto simp: incident_ok_def)

lemma incident_row: "incidents_ok s \<Longrightarrow> get_incident k s = Some i \<Longrightarrow> inc_id i = k \<and> incident_ok i \<and> (k, i) \<in> set (st_incidents s)"
  by (auto simp: incidents_ok_def get_incident_def dest!: map_of_SomeD)

lemma put_incident_simps [simp]:
  "st_incidents (put_incident i s) = AList.update (inc_id i) i (st_incidents s)"
  "st_alerts (put_incident i s) = st_alerts s" "st_groups (put_incident i s) = st_groups s"
  "st_events (put_incident i s) = st_events s" "st_contexts (put_incident i s) = st_contexts s"
  "st_members (put_incident i s) = st_members s" "st_audit (put_incident i s) = st_audit s"
  "st_notifications (put_incident i s) = st_notifications s" "st_feedback (put_incident i s) = st_feedback s"
  by (simp_all add: put_incident_def)

lemma put_incident_ok:
  "incidents_ok s \<Longrightarrow> incident_ok i \<Longrightarrow> incidents_ok (put_incident i s)"
  by (auto simp: incidents_ok_def set_AList_update distinct_update)

lemma put_incident_one_open:
  "incidents_ok s \<Longrightarrow> one_open_per_group s \<Longrightarrow> inc_status i \<noteq> OPEN \<Longrightarrow> one_open_per_group (put_incident i s)"
  by (auto simp: incidents_ok_def one_open_per_group_def set_AList_update)

lemma get_put_incident:
  "get_incident k (put_incident i s) = (if k = inc_id i then Some i else get_incident k s)"
  by (simp add: get_incident_def update_conv)

lemma update_status_eq:
  "update_status k t ts s = Inr (i', s') \<longleftrightarrow>
     (\<exists>i. get_incident k s = Some i \<and> can_transition (inc_status i) t \<and> i' = moved i t ts \<and> s' = put_incident i' s)"
  by (auto simp: update_status_def Let_def split: option.splits if_splits)

lemma update_status_Inl:
  "update_status k t ts s = Inl e \<longleftrightarrow>
     (get_incident k s = None \<and> e = LookupError)
     \<or> (\<exists>i. get_incident k s = Some i \<and> \<not> can_transition (inc_status i) t
          \<and> e = invalid_transition (inc_status i) t)"
  by (auto simp: update_status_def Let_def db_bind_def db_run split: option.splits)

lemma auto_close_eq:
  "auto_close_if_stale k ttl now upd st s = Inr (r, s') \<longleftrightarrow>
     1 \<le> ttl \<and>
     (case get_incident k s of
        None \<Rightarrow> r = None \<and> s' = s
      | Some i \<Rightarrow>
          if inc_status i = st \<and> inc_updated_at i = upd \<and> upd \<le> now - seconds ttl
          then r = Some (i\<lparr>inc_status := RESOLVED, inc_updated_at := now, inc_resolved_at := Some now\<rparr>)
             \<and> s' = put_incident (the r) s
          else r = None \<and> s' = s)"
  by (auto simp: auto_close_if_stale_def Let_def split: option.splits if_splits)

end
