(* ===== verification/Stored_Groups.thy ===== *)
theory Stored_Groups
  imports Alert_Repository
begin

text \<open>
  The deduplication rows as group states: the integrity of the tables, what
  \<open>load_state\<close>, \<open>record_event\<close> and \<open>absorb_event\<close> do to the group state the
  rows stand for.
\<close>

subsection \<open>Dictionaries built from tables\<close>

lemma update_new_key: "k \<notin> fst ` set al \<Longrightarrow> AList.update k v al = al @ [(k, v)]"
  by (induction al) auto

lemma map_of_snoc_new: "k \<notin> fst ` set al \<Longrightarrow> map_of (al @ [(k, v)]) = (map_of al)(k \<mapsto> v)"
  by (simp add: update_conv' flip: update_new_key)

lemma fold_update_distinct:
  "distinct (map f xs) \<Longrightarrow> (\<forall>x \<in> set xs. f x \<notin> fst ` set al) \<Longrightarrow>
     fold (\<lambda>x. AList.update (f x) x) xs al = al @ map (\<lambda>x. (f x, x)) xs"
proof (induction xs arbitrary: al)
  case (Cons x xs)
  then have "\<forall>y \<in> set xs. f y \<notin> fst ` set (al @ [(f x, x)])" by (auto simp: image_iff)
  with Cons show ?case by (simp add: update_new_key)
qed simp

lemma map_filter_update:
  assumes "distinct (map fst al)" "map_of al i = Some e"
    and "F (i, e) = Some (i, r)" "F (i, e') = Some (i, r')"
    and "\<And>j e p. F (j, e) = Some p \<Longrightarrow> fst p = j"
  shows "List.map_filter F (AList.update i e' al) = AList.update i r' (List.map_filter F al)"
  using assms(1,2)
proof (induction al)
  case (Cons x al)
  obtain j d where x: "x = (j, d)" by (cases x)
  show ?case
  proof (cases "j = i")
    case True
    then show ?thesis using Cons.prems assms(3,4) x by (simp add: List.map_filter_simps)
  next
    case False
    then show ?thesis
      using Cons x assms(5) [of j d] by (auto simp: List.map_filter_simps split: option.splits)
  qed
qed simp

lemma map_filter_update_other:
  assumes "distinct (map fst al)" "map_of al i = Some e" "F (i, e) = None" "F (i, e') = None"
  shows "List.map_filter F (AList.update i e' al) = List.map_filter F al"
  using assms by (induction al) (auto simp: List.map_filter_simps split: option.splits)

lemma map_filter_append [simp]: "List.map_filter F (xs @ ys) = List.map_filter F xs @ List.map_filter F ys"
  by (induction xs) (auto simp: List.map_filter_simps split: option.splits)

lemma map_filter_cong: "(\<And>x. x \<in> set xs \<Longrightarrow> F x = G x) \<Longrightarrow> List.map_filter F xs = List.map_filter G xs"
  by (induction xs) (auto simp: List.map_filter_simps split: option.splits)

subsection \<open>Integrity of the deduplication tables\<close>

definition wf_group_row :: "string \<Rightarrow> group_row \<Rightarrow> bool" where
  "wf_group_row key r = (gr_key r = key \<and> gr_first_seen r \<noteq> None \<and> gr_last_seen r \<noteq> None
     \<and> 1 \<le> gr_occurrences r \<and> 1 \<le> gr_generation r)"

definition wf_event_row :: "store \<Rightarrow> string \<Rightarrow> event_row \<Rightarrow> bool" where
  "wf_event_row s i e = (ev_identity e = i \<and> 1 \<le> ev_content_variants e
     \<and> ev_content_variants e \<le> ev_delivery_count e
     \<and> map_of (st_groups s) (ev_group_key e) \<noteq> None \<and> map_of (st_alerts s) (ev_alert_id e) \<noteq> None)"

definition wf_alert_row :: "uuid \<Rightarrow> alert_row \<Rightarrow> bool" where
  "wf_alert_row i a = (al_id a = i \<and> c_alert_id (al_payload a) = i)"

definition dedupe_tables_ok :: "store \<Rightarrow> bool" where
  "dedupe_tables_ok s =
     (distinct (map fst (st_alerts s)) \<and> distinct (map fst (st_groups s)) \<and> distinct (map fst (st_events s))
      \<and> (\<forall>(i, a) \<in> set (st_alerts s). wf_alert_row i a)
      \<and> (\<forall>(key, r) \<in> set (st_groups s). wf_group_row key r)
      \<and> (\<forall>(i, e) \<in> set (st_events s). wf_event_row s i e))"

definition group_event :: "store \<Rightarrow> string \<Rightarrow> string \<times> event_row \<Rightarrow> (string \<times> event_record) option" where
  "group_event s key p =
     (if ev_group_key (snd p) = key
      then map_option (\<lambda>a. (fst p, event_to_record (snd p) a)) (map_of (st_alerts s) (ev_alert_id (snd p)))
      else None)"

definition group_events :: "store \<Rightarrow> string \<Rightarrow> (string, event_record) dict" where
  "group_events s key = List.map_filter (group_event s key) (st_events s)"

lemma group_event_fst: "group_event s key (j, e) = Some p \<Longrightarrow> fst p = j"
  by (auto simp: group_event_def split: if_splits)

lemma keys_map_filter:
  "(\<And>j e p. F (j, e) = Some p \<Longrightarrow> fst p = j) \<Longrightarrow>
     map fst (List.map_filter F al) = map fst (filter (\<lambda>x. F x \<noteq> None) al)"
  by (induction al) (auto simp: List.map_filter_simps split: option.splits)

lemma distinct_map_filter_keys:
  "(\<And>j e p. F (j, e) = Some p \<Longrightarrow> fst p = j) \<Longrightarrow> distinct (map fst al) \<Longrightarrow>
     distinct (map fst (List.map_filter F al))"
  by (simp add: keys_map_filter distinct_map_filter)

lemma set_group_events:
  "(i, x) \<in> set (group_events s key) \<longleftrightarrow>
     (\<exists>e a. (i, e) \<in> set (st_events s) \<and> ev_group_key e = key
        \<and> map_of (st_alerts s) (ev_alert_id e) = Some a \<and> x = event_to_record e a)"
  by (auto simp: group_events_def set_map_filter group_event_def Bex_def split: if_splits)

lemma wf_group_events:
  "dedupe_tables_ok s \<Longrightarrow> (i, x) \<in> set (group_events s key) \<Longrightarrow> wf_record i x"
  by (fastforce simp: set_group_events dedupe_tables_ok_def wf_event_row_def wf_record_def
      event_to_record_def wf_alert_row_def dest: map_of_SomeD)

lemma events_for_group_eq: "events_for_group s key = map snd (group_events s key)"
proof -
  have "List.map_filter (\<lambda>e. if ev_group_key e = key
          then map_option (event_to_record e) (get_alert_row (ev_alert_id e) s) else None) (map snd al)
      = map snd (List.map_filter (group_event s key) al)" for al
    by (induction al)
       (auto simp: List.map_filter_simps group_event_def get_alert_row_def split: option.splits)
  then show ?thesis by (simp add: events_for_group_def group_events_def rows_def)
qed

lemma events_for_group_keys:
  assumes "dedupe_tables_ok s"
  shows "map (\<lambda>e. (er_identity e, e)) (events_for_group s key) = group_events s key"
proof -
  have "er_identity (snd p) = fst p" if "p \<in> set (group_events s key)" for p
    using wf_group_events [OF assms, of "fst p" "snd p" key] that by (simp add: wf_record_def)
  then show ?thesis by (simp add: events_for_group_eq map_idI)
qed

lemma distinct_group_events: "dedupe_tables_ok s \<Longrightarrow> distinct (map fst (group_events s key))"
  unfolding group_events_def
  by (rule distinct_map_filter_keys) (auto simp: group_event_fst dedupe_tables_ok_def)

lemma gs_events_stored:
  assumes "dedupe_tables_ok s"
  shows "gs_events (to_group_state r (events_for_group s key)) = group_events s key"
proof -
  let ?es = "events_for_group s key"
  have "map er_identity ?es = map fst (group_events s key)"
    by (simp flip: events_for_group_keys [OF assms])
  then have "distinct (map er_identity ?es)" using distinct_group_events [OF assms] by simp
  then have "fold (\<lambda>e. AList.update (er_identity e) e) ?es [] = map (\<lambda>e. (er_identity e, e)) ?es"
    using fold_update_distinct [of er_identity ?es "[]"] by simp
  then show ?thesis by (simp add: to_group_state_def events_for_group_keys [OF assms])
qed

definition row_group :: "group_row \<Rightarrow> (string, event_record) dict \<Rightarrow> group_state" where
  "row_group r events =
     \<lparr>gs_key = gr_key r, gs_occurrences = gr_occurrences r, gs_first_seen = gr_first_seen r,
      gs_last_seen = gr_last_seen r, gs_generation = gr_generation r, gs_duplicates = gr_duplicates r,
      gs_events = events\<rparr>"

lemma stored_group_state_eq:
  "dedupe_tables_ok s \<Longrightarrow> stored_group_state s key =
     map_option (\<lambda>r. row_group r (group_events s key)) (map_of (st_groups s) key)"
  using gs_events_stored [of s _ key]
  by (auto simp: stored_group_state_def row_group_def to_group_state_def intro!: option.map_cong)

lemma wf_stored_group: "dedupe_tables_ok s \<Longrightarrow> wf_tracked key (stored_group_state s key)"
proof (cases "map_of (st_groups s) key")
  case (Some r)
  assume ok: "dedupe_tables_ok s"
  have r: "wf_group_row key r" using ok Some by (auto simp: dedupe_tables_ok_def dest!: map_of_SomeD)
  have "wf_record i x" if "(i, x) \<in> set (group_events s key)" for i x
    by (rule wf_group_events [OF ok that])
  with ok Some r distinct_group_events [OF ok] show ?thesis
    by (auto simp: stored_group_state_eq wf_group_def row_group_def wf_group_row_def)
qed (simp add: stored_group_state_def)

subsection \<open>Pruning\<close>

lemma delete_expired_frame [simp]:
  "st_alerts (delete_expired_events key t w s) = st_alerts s"
  "st_groups (delete_expired_events key t w s) = st_groups s"
  "st_incidents (delete_expired_events key t w s) = st_incidents s"
  "st_contexts (delete_expired_events key t w s) = st_contexts s"
  "st_members (delete_expired_events key t w s) = st_members s"
  "st_audit (delete_expired_events key t w s) = st_audit s"
  "st_notifications (delete_expired_events key t w s) = st_notifications s"
  "st_feedback (delete_expired_events key t w s) = st_feedback s"
  by (simp_all add: delete_expired_events_def)

lemma delete_expired_ok:
  "dedupe_tables_ok s \<Longrightarrow> dedupe_tables_ok (delete_expired_events key t w s)"
  by (auto simp: dedupe_tables_ok_def wf_event_row_def delete_expired_events_def distinct_map_filter)

lemma group_event_frame: "st_alerts s' = st_alerts s \<Longrightarrow> group_event s' = group_event s"
  by (simp add: fun_eq_iff group_event_def)

lemma group_events_delete:
  "group_events (delete_expired_events key t w s) key' =
     (if key' = key then filter (\<lambda>(i, r). \<not> t - er_last_delivered r > w) (group_events s key)
      else group_events s key')"
proof -
  let ?keep = "\<lambda>(_::string, e). \<not> (ev_group_key e = key \<and> ev_last_delivered e < t - w)"
  have keep: "?keep p \<longleftrightarrow> \<not> t - er_last_delivered r > w" if "group_event s key p = Some (i, r)" for p i r
    using that by (cases p) (auto simp: group_event_def event_to_record_def split: if_splits)
  have same: "List.map_filter (group_event s key) (filter ?keep al)
      = filter (\<lambda>(i, r). \<not> t - er_last_delivered r > w) (List.map_filter (group_event s key) al)" for al
  proof (induction al)
    case (Cons p al)
    then show ?case
      using keep [of p] by (cases "group_event s key p") (auto simp: List.map_filter_simps)
  qed simp
  have other: "List.map_filter (group_event s key') (filter ?keep al)
      = List.map_filter (group_event s key') al" if "key' \<noteq> key" for al
  proof (induction al)
    case (Cons p al)
    have "\<not> ?keep p \<Longrightarrow> group_event s key' p = None"
      using that by (cases p) (simp add: group_event_def)
    with Cons show ?case by (auto simp: List.map_filter_simps split: option.splits)
  qed simp
  have frame: "group_event (delete_expired_events key t w s) = group_event s"
    by (rule group_event_frame) simp
  show ?thesis
    using same [of "st_events s"] other [of "st_events s"]
    unfolding group_events_def frame by (simp add: delete_expired_events_def)
qed

lemma stored_delete_expired:
  assumes "dedupe_tables_ok s"
  shows "stored_group_state (delete_expired_events key t w s) =
    (stored_group_state s)(key := map_option (\<lambda>g. prune_expired g t w) (stored_group_state s key))"
  using assms
  by (auto simp: fun_eq_iff stored_group_state_eq delete_expired_ok group_events_delete
      row_group_def prune_expired_def option.map_comp comp_def)

lemma load_state_eq:
  assumes "dedupe_tables_ok s"
  shows "load_state key t w s = Inr (map_option (\<lambda>g. prune_expired g t w) (stored_group_state s key),
    delete_expired_events key t w s)"
  using stored_delete_expired [OF assms, of key t w]
  by (simp add: load_state_def db_bind_def db_run)

subsection \<open>Writing a decision\<close>

lemma upsert_group_frame [simp]:
  "st_alerts (upsert_group now g s) = st_alerts s"
  "st_events (upsert_group now g s) = st_events s"
  "st_incidents (upsert_group now g s) = st_incidents s"
  "st_contexts (upsert_group now g s) = st_contexts s"
  "st_members (upsert_group now g s) = st_members s"
  "st_audit (upsert_group now g s) = st_audit s"
  "st_notifications (upsert_group now g s) = st_notifications s"
  "st_feedback (upsert_group now g s) = st_feedback s"
  by (simp_all add: upsert_group_def)

lemma upsert_group_row:
  "\<exists>r. (\<forall>s. st_groups (upsert_group now g s) = AList.update (gs_key g) r (st_groups s))
     \<and> row_group r (gs_events g) = g \<and> (wf_group (gs_key g) g \<longrightarrow> wf_group_row (gs_key g) r)"
  by (auto simp: upsert_group_def row_group_def wf_group_row_def wf_group_def)

text \<open>
  What both writers come down to: the rows of the group now stand for \<open>g\<close>, the rows of the
  other groups for what they stood for.
\<close>

lemma stored_after_upsert:
  assumes ok: "dedupe_tables_ok s'" and groups: "st_groups s' = AList.update (gs_key g) r (st_groups s)"
    and r: "row_group r (gs_events g) = g"
    and events: "group_events s' (gs_key g) = gs_events g"
    and other: "\<And>key. key \<noteq> gs_key g \<Longrightarrow> group_events s' key = group_events s key"
    and ok0: "dedupe_tables_ok s"
  shows "stored_group_state s' = (stored_group_state s)(gs_key g \<mapsto> g)"
  using assms by (auto simp: fun_eq_iff stored_group_state_eq update_conv)

lemma record_event_stored:
  assumes ok: "dedupe_tables_ok s" and run: "record_event now g r s = Inr (u, s')"
    and wfr: "wf_record (er_identity r) r" and wfg: "wf_group (gs_key g) g"
    and events: "gs_events g = group_events s (gs_key g) @ [(er_identity r, r)]"
  shows "dedupe_tables_ok s' \<and> stored_group_state s' = (stored_group_state s)(gs_key g \<mapsto> g)"
proof -
  let ?i = "er_identity r" and ?u = "er_alert_id r"
  let ?a = "new_alert_row g r" and ?e = "new_event_row g r"
  obtain gr where gr: "\<forall>t. st_groups (upsert_group now g t) = AList.update (gs_key g) gr (st_groups t)"
      "row_group gr (gs_events g) = g" "wf_group_row (gs_key g) gr"
    using upsert_group_row [of now g] wfg by blast
  have new: "?u \<notin> fst ` set (st_alerts s)" "?i \<notin> fst ` set (st_events s)"
    and alerts: "st_alerts s' = st_alerts s @ [(?u, ?a)]"
    and evs: "st_events s' = st_events s @ [(?i, ?e)]"
    and groups: "st_groups s' = AList.update (gs_key g) gr (st_groups s)"
    using run gr(1) by (auto simp: record_event_def)
  have alert_map: "map_of (st_alerts s') = (map_of (st_alerts s))(?u \<mapsto> ?a)"
    by (simp only: alerts map_of_snoc_new [OF new(1)])
  have a: "wf_alert_row ?u ?a"
    using wfr by (simp add: wf_alert_row_def new_alert_row_def wf_record_def Let_def)
  have "wf_event_row s' i e" if "wf_event_row s i e" for i e
    using that by (auto simp: wf_event_row_def groups update_conv alert_map)
  moreover have "wf_event_row s' ?i ?e"
    using wfr by (auto simp: wf_event_row_def new_event_row_def wf_record_def groups update_conv alert_map)
  ultimately have ok': "dedupe_tables_ok s'"
    using ok new a gr(3)
    by (auto simp: dedupe_tables_ok_def alerts evs groups set_AList_update distinct_update)
  have same_record: "event_to_record ?e ?a = r"
    by (simp add: event_to_record_def new_event_row_def new_alert_row_def Let_def)
  have old: "group_event s' key p = group_event s key p" if "p \<in> set (st_events s)" for key p
  proof -
    have "map_of (st_alerts s) (ev_alert_id (snd p)) \<noteq> None"
      using ok that by (cases p) (auto simp: dedupe_tables_ok_def wf_event_row_def)
    then have "ev_alert_id (snd p) \<noteq> ?u" using new(1) by (metis map_of_eq_None_iff)
    then show ?thesis by (simp add: group_event_def alert_map)
  qed
  have ge: "group_events s' key = group_events s key
      @ (if key = gs_key g then [(?i, r)] else [])" for key
    using map_filter_cong [of "st_events s" "group_event s' key" "group_event s key", OF old] same_record
    by (simp add: group_events_def evs List.map_filter_simps group_event_def alert_map new_event_row_def)
  show ?thesis
    using ok' stored_after_upsert [OF ok' groups gr(2) _ _ ok] ge events by simp
qed

lemma absorb_event_stored:
  assumes ok: "dedupe_tables_ok s" and run: "absorb_event now g r s = Inr (u, s')"
    and wfr: "wf_record (er_identity r) r" and wfg: "wf_group (gs_key g) g"
    and r0: "map_of (group_events s (gs_key g)) (er_identity r) = Some r0"
    and same: "er_alert_id r = er_alert_id r0" "er_canonical r = er_canonical r0"
      "er_first_delivered r = er_first_delivered r0"
    and events: "gs_events g = AList.update (er_identity r) r (group_events s (gs_key g))"
  shows "dedupe_tables_ok s' \<and> stored_group_state s' = (stored_group_state s)(gs_key g \<mapsto> g)"
proof -
  let ?i = "er_identity r"
  obtain e a where e: "(?i, e) \<in> set (st_events s)" "ev_group_key e = gs_key g"
      "map_of (st_alerts s) (ev_alert_id e) = Some a" "r0 = event_to_record e a"
    using map_of_SomeD [OF r0] by (auto simp: set_group_events)
  have de: "distinct (map fst (st_events s))" using ok by (simp add: dedupe_tables_ok_def)
  then have me: "map_of (st_events s) ?i = Some e" using e(1) by simp
  obtain gr where gr: "\<forall>t. st_groups (upsert_group now g t) = AList.update (gs_key g) gr (st_groups t)"
      "row_group gr (gs_events g) = g" "wf_group_row (gs_key g) gr"
    using upsert_group_row [of now g] wfg by blast
  let ?e = "absorb_event_row r e"
  have alerts: "st_alerts s' = st_alerts s"
    and evs: "st_events s' = AList.update ?i ?e (st_events s)"
    and groups: "st_groups s' = AList.update (gs_key g) gr (st_groups s)"
    using run gr(1) me by (auto simp: absorb_event_def)
  have row: "ev_group_key ?e = ev_group_key e" "ev_alert_id ?e = ev_alert_id e" "ev_identity ?e = ev_identity e"
    by (simp_all add: absorb_event_row_def)
  have wfe: "wf_event_row s ?i e" using ok e(1) by (auto simp: dedupe_tables_ok_def)
  then have "wf_event_row s' ?i ?e"
    using wfr by (auto simp: wf_event_row_def wf_record_def row groups alerts update_conv)
       (auto simp: absorb_event_row_def)
  moreover have "wf_event_row s' i x" if "wf_event_row s i x" for i x
    using that by (auto simp: wf_event_row_def groups update_conv alerts)
  ultimately have ok': "dedupe_tables_ok s'"
    using ok gr(3)
    by (auto simp: dedupe_tables_ok_def alerts evs groups set_AList_update distinct_update)
  have same_record: "event_to_record ?e a = r"
    using same e(4) wfe by (cases r) (simp add: event_to_record_def absorb_event_row_def wf_event_row_def)
  have ge: "group_event s' = group_event s" by (rule group_event_frame [OF alerts])
  have "group_event s (gs_key g) (?i, e) = Some (?i, r0)" "group_event s (gs_key g) (?i, ?e) = Some (?i, r)"
    using e row same_record by (simp_all add: group_event_def)
  then have mine: "group_events s' (gs_key g) = AList.update ?i r (group_events s (gs_key g))"
    unfolding group_events_def ge evs
    by (intro map_filter_update [OF de me]) (auto simp: group_event_fst)
  have "group_events s' key = group_events s key" if "key \<noteq> gs_key g" for key
    unfolding group_events_def ge evs
    by (intro map_filter_update_other [OF de me]) (use that e row in \<open>auto simp: group_event_def\<close>)
  then show ?thesis
    using ok' stored_after_upsert [OF ok' groups gr(2) _ _ ok] mine events by simp
qed

end
