(* ===== verification/Dedup_Contract.thy ===== *)
theory Dedup_Contract
  imports Dedup_State
begin

text \<open>
  What deduplication promises of one classified delivery: the classification, the group
  invariant, idempotence of re-deliveries and the counting of deliveries.
\<close>

subsection \<open>One delivery\<close>

lemma decide_cases:
  assumes "wf_tracked (k_group k) tracked"
  obtains (duplicate) g r where "tracked = Some g" "live_event g k w = Some r"
      "classify tracked k w = EXACT_DUPLICATE"
      "decide_delivery tracked k w c = Inr (absorb_duplicate (prune_expired g (k_received k) w) r k)"
  | (distinct) d where "classify tracked k w \<noteq> EXACT_DUPLICATE" "decide_delivery tracked k w c = Inr d"
      "dd_status d = classify tracked k w" "dd_record d = created_record (advanced tracked k w) k c"
      "dd_group d = put_event (advanced tracked k w) (k_identity k) (dd_record d)"
      "dd_generation_started d \<longleftrightarrow> classify tracked k w = NEW_GENERATION"
      "dd_group_before d = group_before tracked k w" "dd_record_before d = None"
      "\<not> dd_content_diverged d"
proof (cases "classify tracked k w = EXACT_DUPLICATE")
  case True
  with live_event_if_duplicate obtain g r where "tracked = Some g" "live_event g k w = Some r" by blast
  with duplicate True assms decide_duplicate show ?thesis by simp
next
  case False
  show ?thesis
    by (rule distinct [OF False decide_distinct [OF assms False, of c, unfolded Let_def]]) simp_all
qed

lemma absorb_duplicate_simps [simp]:
  "dd_status (absorb_duplicate g r k) = EXACT_DUPLICATE"
  "dd_record (absorb_duplicate g r k) = absorb r (k_fingerprint k) (k_received k)"
  "dd_group (absorb_duplicate g r k) =
     (put_event g (k_identity k) (absorb r (k_fingerprint k) (k_received k)))
       \<lparr>gs_duplicates := gs_duplicates g + 1\<rparr>"
  "dd_group_before (absorb_duplicate g r k) = Some g"
  "dd_record_before (absorb_duplicate g r k) = Some r"
  "dd_generation_started (absorb_duplicate g r k) = False"
  "dd_content_diverged (absorb_duplicate g r k) \<longleftrightarrow> er_fingerprint r \<noteq> k_fingerprint k"
  by (simp_all add: absorb_duplicate_def Let_def)

text \<open>
  C11. Classification is total and is the documented three-way split: on a well-formed group
  \<open>decide_delivery\<close> returns, an event still retained is an exact duplicate, otherwise an
  event within the window of the last distinct one is a repetition, and anything else (a first
  event included) starts a generation, which the decision records.
\<close>

theorem delivery_classified:
  assumes "wf_tracked (k_group k) tracked"
  shows "\<exists>d. decide_delivery tracked k w c = Inr d \<and> dd_status d = classify tracked k w
     \<and> dd_generation_started d = (classify tracked k w = NEW_GENERATION)
     \<and> dd_group_before d = group_before tracked k w"
  using assms by (cases rule: decide_cases [where w = w and c = c]) (auto simp: group_before_def)

lemma wf_group_duplicates [simp]: "wf_group key (g\<lparr>gs_duplicates := n\<rparr>) = wf_group key g"
  by (simp add: wf_group_def)

lemma live_event_wf: "wf_group key g \<Longrightarrow> live_event g k w = Some r \<Longrightarrow> wf_record (k_identity k) r"
  by (auto simp: live_event_def split: option.splits if_splits dest: wf_group_event)

lemma decide_wf:
  assumes wf: "wf_tracked (k_group k) tracked" and d: "decide_delivery tracked k w c = Inr d"
  shows "wf_group (k_group k) (dd_group d)
    \<and> map_of (gs_events (dd_group d)) (k_identity k) = Some (dd_record d)"
  using wf
proof (cases rule: decide_cases [where w = w and c = c])
  case (duplicate g r)
  with wf d show ?thesis
    by (auto simp: update_conv intro!: wf_group_put wf_record_absorb intro: live_event_wf)
next
  case (distinct d')
  with wf d show ?thesis
    by (simp add: update_conv wf_advanced wf_created wf_group_put)
qed

lemma decide_total: "wf_tracked (k_group k) tracked \<Longrightarrow> \<exists>d. decide_delivery tracked k w c = Inr d"
  by (cases rule: decide_cases [where w = w and c = c]) auto

lemma decide_status:
  "wf_tracked (k_group k) tracked \<Longrightarrow> decide_delivery tracked k w c = Inr d \<Longrightarrow>
     dd_status d = classify tracked k w"
  by (cases rule: decide_cases [where w = w and c = c]) auto

lemma live_events_pruned:
  "(i, r) \<in> set (gs_events (prune_expired g now w)) \<Longrightarrow> now - er_last_delivered r \<le> w"
  by (auto simp: prune_expired_def)

lemma events_advanced:
  "gs_events (advanced tracked k w) =
     (case tracked of None \<Rightarrow> [] | Some g \<Rightarrow> gs_events (prune_expired g (k_received k) w))"
  by (auto simp: advanced_def start_group_def empty_group_def start_generation_def
      add_occurrence_def Let_def split: option.splits)

lemma er_last_created [simp]: "er_last_delivered (created_record g k c) = k_received k"
  by (simp add: created_record_def new_event_record_def)

text \<open>
  Every delivery keeps its group well-formed (timestamps set, counters positive, one record
  per identity, no more content variants than deliveries), stores the record of the delivered
  event, and retains no record older than the window.
\<close>

theorem delivery_keeps_group_wf:
  assumes wf: "wf_tracked (k_group k) tracked" and d: "decide_delivery tracked k w c = Inr d"
    and w: "0 \<le> w"
  shows "wf_group (k_group k) (dd_group d)
    \<and> map_of (gs_events (dd_group d)) (k_identity k) = Some (dd_record d)
    \<and> (\<forall>(i, r) \<in> set (gs_events (dd_group d)). k_received k - er_last_delivered r \<le> w)"
proof -
  have "k_received k - er_last_delivered r \<le> w" if "(i, r) \<in> set (gs_events (dd_group d))" for i r
    using wf
  proof (cases rule: decide_cases [where w = w and c = c])
    case (duplicate g r')
    moreover have "distinct (map fst (gs_events (prune_expired g (k_received k) w)))"
      using wf duplicate(1) by (auto simp: wf_group_def distinct_prune)
    ultimately show ?thesis
      using that d w by (auto simp: set_AList_update dest: live_events_pruned)
  next
    case (distinct d')
    have "distinct (map fst (gs_events (advanced tracked k w)))"
      using wf_advanced [OF wf] by (simp add: wf_group_def)
    with distinct show ?thesis
      using that d w
      by (auto simp: set_AList_update events_advanced dest: live_events_pruned split: option.splits)
  qed
  then show ?thesis using decide_wf [OF wf d] by blast
qed

text \<open>
  A re-delivery is idempotent and cannot extend the window: it answers with the original
  alert id and the preserved canonical alert, leaves occurrences, generation, first and last
  seen of the group as they were, counts one more duplicate and one more delivery of the event,
  counts a content variant exactly when the fingerprint differs, and touches no other event.
\<close>

theorem redelivery_idempotent:
  assumes "wf_group (k_group k) g" "decide_delivery (Some g) k w c = Inr d"
    and "dd_status d = EXACT_DUPLICATE"
  shows "\<exists>r. live_event g k w = Some r
    \<and> er_alert_id (dd_record d) = er_alert_id r \<and> er_canonical (dd_record d) = er_canonical r
    \<and> gs_occurrences (dd_group d) = gs_occurrences g \<and> gs_generation (dd_group d) = gs_generation g
    \<and> gs_first_seen (dd_group d) = gs_first_seen g \<and> gs_last_seen (dd_group d) = gs_last_seen g
    \<and> gs_duplicates (dd_group d) = gs_duplicates g + 1
    \<and> er_delivery_count (dd_record d) = er_delivery_count r + 1
    \<and> er_content_variants (dd_record d) =
        er_content_variants r + (if er_fingerprint r \<noteq> k_fingerprint k then 1 else 0)
    \<and> (\<forall>i. i \<noteq> k_identity k \<longrightarrow> map_of (gs_events (dd_group d)) i
          = map_of (gs_events (prune_expired g (k_received k) w)) i)"
proof -
  have "wf_tracked (k_group k) (Some g)" using assms(1) by simp
  then show ?thesis
  proof (cases rule: decide_cases [where w = w and c = c])
    case (duplicate g' r)
    with assms(2) show ?thesis by (auto simp: update_conv)
  next
    case (distinct d')
    with assms show ?thesis by auto
  qed
qed

definition deliveries_counted :: "group_state \<Rightarrow> nat" where
  "deliveries_counted g = gs_occurrences g + gs_duplicates g"

text \<open>
  No delivery is lost or counted twice: occurrences plus absorbed duplicates of the current
  generation go up by exactly one, or are exactly one when the delivery starts a generation;
  and the generation number goes up by one exactly then.
\<close>

theorem every_delivery_counted_once:
  assumes "wf_group (k_group k) g" "decide_delivery (Some g) k w c = Inr d"
  shows "deliveries_counted (dd_group d) =
      (if dd_generation_started d then 1 else deliveries_counted g + 1)
    \<and> gs_generation (dd_group d) = gs_generation g + (if dd_generation_started d then 1 else 0)
    \<and> (dd_status d \<noteq> EXACT_DUPLICATE \<longrightarrow> gs_last_seen (dd_group d) = Some (k_received k))"
proof -
  have "wf_tracked (k_group k) (Some g)" using assms(1) by simp
  then show ?thesis
  proof (cases rule: decide_cases [where w = w and c = c])
    case (duplicate g' r)
    with assms(2) show ?thesis by (auto simp: deliveries_counted_def)
  next
    case (distinct d')
    with assms(2) show ?thesis
      by (auto simp: deliveries_counted_def advanced_def start_generation_def add_occurrence_def
          classify_def Let_def split: if_splits)
  qed
qed

subsection \<open>Sample deliveries\<close>

definition sample_source_event :: canonical_source_event where
  "sample_source_event =
     \<lparr>se_rule = \<lparr>rule_id = ''5710'', rule_level = 5, rule_description = ''sshd'', rule_groups = [],
        rule_mitre = []\<rparr>,
      se_agent = \<lparr>agent_id = ''001'', agent_name = ''web'', agent_ip = None\<rparr>, se_location = None,
      se_full_log = None, se_data = [], se_syscheck = []\<rparr>"

definition sample_canonical :: "uuid \<Rightarrow> instant \<Rightarrow> canonical_alert" where
  "sample_canonical u t = \<lparr>c_alert_id = u, c_source = ''wazuh'', c_received_at = t,
     c_source_event = sample_source_event, c_dedupe = None, c_iocs = [], c_asset = None,
     c_enrichment_status = None, c_risk = None, c_decision = None\<rparr>"

definition sample_key :: "string \<Rightarrow> string \<Rightarrow> instant \<Rightarrow> delivery_key" where
  "sample_key identity fingerprint t =
     \<lparr>k_identity = identity, k_group = ''g'', k_fingerprint = fingerprint, k_received = t\<rparr>"

text \<open>The group after the event \<open>e1\<close> arrived at time 0 as alert 1.\<close>

definition sample_group :: group_state where
  "sample_group = put_event (start_group ''g'' 0) ''e1''
     (created_record (start_group ''g'' 0) (sample_key ''e1'' ''f1'' 0) (sample_canonical 1 0))"

lemma wf_sample_group: "wf_group ''g'' sample_group"
  using wf_group_put [OF wf_start_group wf_created [of "sample_key ''e1'' ''f1'' 0"]]
  by (simp add: sample_group_def sample_key_def)

lemma sample_group_live: "live_event sample_group (sample_key ''e1'' f t) 10 \<noteq> None \<longleftrightarrow> t \<le> 10"
  by (auto simp: live_event_def sample_group_def update_conv created_record_def new_event_record_def
      sample_key_def)

lemma wf_sample_tracked: "wf_tracked (k_group (sample_key i f t)) (Some sample_group)"
  using wf_sample_group by (simp add: sample_key_def)

lemma sample_first: "decide_delivery None (sample_key ''e1'' ''f1'' 0) 10 (sample_canonical 1 0)
    = Inr \<lparr>dd_status = NEW_GENERATION, dd_group = sample_group,
        dd_record = created_record (start_group ''g'' 0) (sample_key ''e1'' ''f1'' 0) (sample_canonical 1 0),
        dd_group_before = None, dd_record_before = None, dd_content_diverged = False,
        dd_generation_started = True\<rparr>"
  by (subst decide_distinct)
     (simp_all add: classify_def advanced_def group_before_def sample_key_def sample_group_def Let_def)

subsection \<open>Witnesses\<close>

theorem delivery_classified_witness:
  "(\<exists>d. decide_delivery (Some sample_group) (sample_key ''e1'' ''f2'' 10) 10 (sample_canonical 2 10) = Inr d
      \<and> dd_status d = EXACT_DUPLICATE)
   \<and> classify (Some sample_group) (sample_key ''e2'' ''f2'' 10) 10 = REPEATED
   \<and> classify (Some sample_group) (sample_key ''e1'' ''f1'' 11) 10 = NEW_GENERATION"
proof -
  have "classify (Some sample_group) (sample_key ''e1'' ''f2'' 10) 10 = EXACT_DUPLICATE"
    "classify (Some sample_group) (sample_key ''e2'' ''f2'' 10) 10 = REPEATED"
    "classify (Some sample_group) (sample_key ''e1'' ''f1'' 11) 10 = NEW_GENERATION"
    by code_simp+
  then show ?thesis
    using delivery_classified [OF wf_sample_tracked, of "''e1''" "''f2''" 10 10 "sample_canonical 2 10"]
    by metis
qed

theorem delivery_keeps_group_wf_witness: "wf_group ''g'' sample_group"
  using delivery_keeps_group_wf [OF _ sample_first] by (simp add: sample_key_def)

theorem redelivery_idempotent_witness:
  "\<exists>d. decide_delivery (Some sample_group) (sample_key ''e1'' ''f2'' 10) 10 (sample_canonical 2 10) = Inr d
     \<and> gs_last_seen (dd_group d) = Some 0 \<and> gs_duplicates (dd_group d) = 1 \<and> er_alert_id (dd_record d) = 1"
proof -
  let ?k = "sample_key ''e1'' ''f2'' 10"
  obtain d where d: "decide_delivery (Some sample_group) ?k 10 (sample_canonical 2 10) = Inr d"
    using decide_total [OF wf_sample_tracked] by blast
  have c: "classify (Some sample_group) ?k 10 = EXACT_DUPLICATE" by code_simp
  have s: "dd_status d = EXACT_DUPLICATE" using decide_status [OF wf_sample_tracked d] c by simp
  have wf: "wf_group (k_group ?k) sample_group" using wf_sample_group by (simp add: sample_key_def)
  have g: "gs_last_seen sample_group = Some 0" "gs_duplicates sample_group = 0"
    "map_option er_alert_id (live_event sample_group ?k 10) = Some 1"
    by code_simp+
  show ?thesis using redelivery_idempotent [OF wf d s] d g by auto
qed

theorem every_delivery_counted_once_witness:
  "\<exists>d. decide_delivery (Some sample_group) (sample_key ''e2'' ''f2'' 5) 10 (sample_canonical 2 5) = Inr d
     \<and> deliveries_counted (dd_group d) = 2 \<and> gs_last_seen (dd_group d) = Some 5"
proof -
  let ?k = "sample_key ''e2'' ''f2'' 5"
  obtain d where d: "decide_delivery (Some sample_group) ?k 10 (sample_canonical 2 5) = Inr d"
      "dd_generation_started d = (classify (Some sample_group) ?k 10 = NEW_GENERATION)"
    using decide_cases [OF wf_sample_tracked, of "''e2''" "''f2''" 5 10 "sample_canonical 2 5" thesis]
    by (auto simp: absorb_duplicate_def Let_def)
  have c: "classify (Some sample_group) ?k 10 = REPEATED" by code_simp
  have s: "dd_status d = REPEATED" using decide_status [OF wf_sample_tracked d(1)] c by simp
  have wf: "wf_group (k_group ?k) sample_group" using wf_sample_group by (simp add: sample_key_def)
  have n: "deliveries_counted sample_group = 1" by code_simp
  show ?thesis using every_delivery_counted_once [OF wf d(1)] d c s n by (auto simp: sample_key_def)
qed

end
