(* ===== verification/Dedup_Protocol.thy ===== *)
theory Dedup_Protocol
  imports Dedup_Contract
begin

text \<open>
  The \<open>Deduplicator\<close> protocol of ingest/deduplication.py as a locale: whatever stores the
  groups, an accepted delivery changes exactly its own group, in the way \<open>decide_delivery\<close>
  says, and a refused or failed one changes none. The lock around each decision makes a call
  atomic, so a run is a sequence of calls. The facts about floods of re-deliveries are proved
  once, here; the in-memory and the persistent deduplicator interpret the locale.
\<close>

subsection \<open>Runs of deliveries\<close>

type_synonym delivery = "wazuh_alert \<times> canonical_alert \<times> datetime"

fun deliver_all ::
  "('s \<Rightarrow> wazuh_alert \<Rightarrow> canonical_alert \<Rightarrow> datetime \<Rightarrow> (py_exn + dedupe_outcome) \<times> 's)
    \<Rightarrow> 's \<Rightarrow> delivery list \<Rightarrow> (py_exn + dedupe_outcome) list \<times> 's" where
  "deliver_all process s [] = ([], s)"
| "deliver_all process s ((a, c, t) # ds) =
     (let (r, s') = process s a c t; (rs, s'') = deliver_all process s' ds in (r # rs, s''))"

text \<open>
  Deliveries of one event, each accepted arrival no more than the window after the previous
  accepted one; \<open>rs\<close> are the results of the calls.
\<close>

fun within_window ::
  "(json \<Rightarrow> string) \<Rightarrow> string \<Rightarrow> string \<Rightarrow> int \<Rightarrow> instant \<Rightarrow> delivery list
    \<Rightarrow> (py_exn + dedupe_outcome) list \<Rightarrow> bool" where
  "within_window digest key identity w previous [] rs = True"
| "within_window digest key identity w previous ((a, c, t) # ds) [] = True"
| "within_window digest key identity w previous ((a, c, t) # ds) (r # rs) =
     (case delivery_key_of digest a t of
        Inl e \<Rightarrow> within_window digest key identity w previous ds rs
      | Inr k \<Rightarrow> k_group k = key \<and> k_identity k = identity \<and> k_received k - previous \<le> w
          \<and> within_window digest key identity w (if isl r then previous else k_received k) ds rs)"

subsection \<open>The protocol\<close>

locale deduplicator =
  fixes process :: "'s \<Rightarrow> wazuh_alert \<Rightarrow> canonical_alert \<Rightarrow> datetime \<Rightarrow> (py_exn + dedupe_outcome) \<times> 's"
    and group_state :: "'s \<Rightarrow> string \<Rightarrow> group_state option"
    and inv :: "'s \<Rightarrow> bool"
    and digest :: "json \<Rightarrow> string"
    and window :: int
  assumes group_wf: "inv s \<Longrightarrow> wf_tracked key (group_state s key)"
    and process_failed: "inv s \<Longrightarrow> process s a c t = (Inl e, s') \<Longrightarrow> group_state s' = group_state s"
    and process_rejects: "inv s \<Longrightarrow> delivery_key_of digest a t = Inl e \<Longrightarrow> fst (process s a c t) = Inl e"
    and process_inv: "inv s \<Longrightarrow> process s a c t = (r, s') \<Longrightarrow> inv s'"
    and process_ok: "inv s \<Longrightarrow> delivery_key_of digest a t = Inr k \<Longrightarrow> process s a c t = (Inr out, s') \<Longrightarrow>
      \<exists>d. decide_delivery (group_state s (k_group k)) k window c = Inr d
        \<and> out = outcome_of d (k_identity k) (info_of (dd_group d) (k_identity k))
        \<and> group_state s' = (group_state s)(k_group k \<mapsto> dd_group d)"
begin

lemma process_accepts: "inv s \<Longrightarrow> process s a c t = (Inr out, s') \<Longrightarrow> \<exists>k. delivery_key_of digest a t = Inr k"
  using process_rejects [of s a t _ c] by (cases "delivery_key_of digest a t") auto

text \<open>An accepted delivery leaves its event retained, with the alert id it answered.\<close>

lemma process_retains:
  assumes "inv s" "delivery_key_of digest a t = Inr k" "process s a c t = (Inr out, s')"
  shows "\<exists>g r. group_state s' (k_group k) = Some g \<and> map_of (gs_events g) (k_identity k) = Some r
    \<and> er_alert_id r = do_alert_id out \<and> er_canonical r = do_canonical out
    \<and> er_last_delivered r = k_received k"
proof -
  from process_ok [OF assms] obtain d where
    d: "decide_delivery (group_state s (k_group k)) k window c = Inr d"
      "out = outcome_of d (k_identity k) (info_of (dd_group d) (k_identity k))"
      "group_state s' = (group_state s)(k_group k \<mapsto> dd_group d)" by blast
  have wf: "wf_tracked (k_group k) (group_state s (k_group k))" by (rule group_wf [OF assms(1)])
  have last: "er_last_delivered (dd_record d) = k_received k"
    using wf d(1) by (cases rule: decide_cases [where w = window and c = c]) auto
  show ?thesis using decide_wf [OF wf d(1)] d(2,3) last by (auto simp: outcome_of_def)
qed

lemma process_frame:
  assumes "inv s" "delivery_key_of digest a t = Inr k" "process s a c t = (r, s')" "key \<noteq> k_group k"
  shows "group_state s' key = group_state s key"
proof (cases r)
  case (Inl e)
  then show ?thesis using process_failed [OF assms(1), of a c t e s'] assms(3) by simp
next
  case (Inr out)
  then show ?thesis using process_ok [OF assms(1,2), of c out s'] assms(3,4) by auto
qed

text \<open>One re-delivery within the window of the retained record.\<close>

lemma process_redelivery:
  assumes inv: "inv s" and k: "delivery_key_of digest a t = Inr k"
    and p: "process s a c t = (Inr out, s')"
    and g: "group_state s (k_group k) = Some g" "map_of (gs_events g) (k_identity k) = Some r"
    and w: "k_received k - er_last_delivered r \<le> window"
  shows "do_status out = EXACT_DUPLICATE \<and> do_alert_id out = er_alert_id r
    \<and> do_canonical out = er_canonical r
    \<and> (\<exists>g' r'. group_state s' (k_group k) = Some g' \<and> map_of (gs_events g') (k_identity k) = Some r'
         \<and> er_alert_id r' = er_alert_id r \<and> er_canonical r' = er_canonical r
         \<and> er_last_delivered r' = k_received k
         \<and> gs_occurrences g' = gs_occurrences g \<and> gs_generation g' = gs_generation g
         \<and> gs_first_seen g' = gs_first_seen g \<and> gs_last_seen g' = gs_last_seen g
         \<and> gs_duplicates g' = gs_duplicates g + 1)"
proof -
  from process_ok [OF inv k p] obtain d where
    d: "decide_delivery (Some g) k window c = Inr d"
      "out = outcome_of d (k_identity k) (info_of (dd_group d) (k_identity k))"
      "group_state s' = (group_state s)(k_group k \<mapsto> dd_group d)" using g(1) by auto
  have wf: "wf_group (k_group k) g" using group_wf [OF inv, of "k_group k"] g(1) by simp
  have live: "live_event g k window = Some r" using g(2) w by (simp add: live_event_def)
  show ?thesis
    using decide_duplicate [OF wf live, of c] d by (auto simp: outcome_of_def update_conv)
qed

text \<open>A flood of re-deliveries: nothing but the counters moves.\<close>

lemma flood:
  assumes "inv s" "group_state s key = Some g" "map_of (gs_events g) identity = Some r"
    and "deliver_all process s ds = (rs, s')"
    and "within_window digest key identity window (er_last_delivered r) ds rs"
  shows "(\<forall>out. Inr out \<in> set rs \<longrightarrow> do_status out = EXACT_DUPLICATE \<and> do_alert_id out = er_alert_id r
            \<and> do_canonical out = er_canonical r)
    \<and> (\<exists>g'. group_state s' key = Some g' \<and> gs_occurrences g' = gs_occurrences g
         \<and> gs_generation g' = gs_generation g \<and> gs_first_seen g' = gs_first_seen g
         \<and> gs_last_seen g' = gs_last_seen g
         \<and> gs_duplicates g' = gs_duplicates g + length (filter (\<lambda>x. \<not> isl x) rs))"
  using assms
proof (induction ds arbitrary: s g r rs)
  case (Cons x ds)
  obtain a c t where x: "x = (a, c, t)" by (cases x)
  obtain res s1 where p: "process s a c t = (res, s1)" by (cases "process s a c t")
  obtain rs1 where rs: "rs = res # rs1" and ds: "deliver_all process s1 ds = (rs1, s')"
    using Cons.prems(4) by (auto simp: x p split: prod.splits)
  have inv1: "inv s1" using process_inv [OF Cons.prems(1) p] .
  show ?case
  proof (cases res)
    case (Inl e)
    then have s1: "group_state s1 = group_state s" using process_failed [OF Cons.prems(1)] p by simp
    have "within_window digest key identity window (er_last_delivered r) ds rs1"
      using Cons.prems(5) Inl by (auto simp: x rs split: sum.splits)
    then show ?thesis
      using Cons.IH [OF inv1, of g r rs1] Cons.prems(2,3) ds s1 rs Inl by simp
  next
    case (Inr out)
    then obtain k where k: "delivery_key_of digest a t = Inr k"
      using process_accepts [OF Cons.prems(1)] p by blast
    then have same: "k_group k = key" "k_identity k = identity"
      "k_received k - er_last_delivered r \<le> window"
      and rest: "within_window digest key identity window (k_received k) ds rs1"
      using Cons.prems(5) Inr by (auto simp: x rs)
    have p': "process s a c t = (Inr out, s1)" using p Inr by simp
    have g: "group_state s (k_group k) = Some g" "map_of (gs_events g) (k_identity k) = Some r"
      using Cons.prems(2,3) same by simp_all
    obtain g1 r1 where
      dup: "do_status out = EXACT_DUPLICATE" "do_alert_id out = er_alert_id r" "do_canonical out = er_canonical r"
      and g1: "group_state s1 key = Some g1" "map_of (gs_events g1) identity = Some r1"
        "er_alert_id r1 = er_alert_id r" "er_canonical r1 = er_canonical r"
        "er_last_delivered r1 = k_received k"
        "gs_occurrences g1 = gs_occurrences g" "gs_generation g1 = gs_generation g"
        "gs_first_seen g1 = gs_first_seen g" "gs_last_seen g1 = gs_last_seen g"
        "gs_duplicates g1 = gs_duplicates g + 1"
      using process_redelivery [OF Cons.prems(1) k p' g same(3)] same(1,2) by blast
    have "within_window digest key identity window (er_last_delivered r1) ds rs1"
      using rest g1 by simp
    from Cons.IH [OF inv1 g1(1,2) ds this] dup g1 rs Inr show ?thesis by simp
  qed
qed simp

lemma first_then_flood:
  assumes inv: "inv s" and k: "delivery_key_of digest a t = Inr k"
    and run: "deliver_all process s ((a, c, t) # ds) = (Inr out # rs, s')"
    and w: "within_window digest (k_group k) (k_identity k) window (k_received k) ds rs"
  shows "(\<forall>o'. Inr o' \<in> set rs \<longrightarrow> do_status o' = EXACT_DUPLICATE \<and> do_alert_id o' = do_alert_id out
            \<and> do_canonical o' = do_canonical out)
    \<and> (\<exists>g. group_state s' (k_group k) = Some g \<and> gs_occurrences g = cd_occurrences (do_dedupe out)
         \<and> gs_generation g = cd_generation (do_dedupe out)
         \<and> gs_last_seen g = Some (cd_last_seen (do_dedupe out))
         \<and> gs_duplicates g = cd_duplicate_deliveries (do_dedupe out) + length (filter (\<lambda>x. \<not> isl x) rs))"
proof -
  obtain s1 where p: "process s a c t = (Inr out, s1)" and ds: "deliver_all process s1 ds = (rs, s')"
    using run by (auto split: prod.splits)
  have inv1: "inv s1" by (rule process_inv [OF inv p])
  obtain g r where g: "group_state s1 (k_group k) = Some g" "map_of (gs_events g) (k_identity k) = Some r"
    and r: "er_alert_id r = do_alert_id out" "er_canonical r = do_canonical out"
      "er_last_delivered r = k_received k"
    using process_retains [OF inv k p] by blast
  have wfg: "wf_group (k_group k) g" using group_wf [OF inv1, of "k_group k"] g(1) by simp
  have info: "do_dedupe out = info_of g (k_identity k)"
    using process_ok [OF inv k p] g(1) by (auto simp: outcome_of_def)
  have last: "gs_last_seen g = Some (the (gs_last_seen g))" using wfg by (auto simp: wf_group_def)
  have w': "within_window digest (k_group k) (k_identity k) window (er_last_delivered r) ds rs"
    using w r by simp
  show ?thesis using flood [OF inv1 g ds w'] r info last by (auto simp: info_of_def)
qed

end

end
