(* ===== verification/Dedup_Memory.thy ===== *)
theory Dedup_Memory
  imports Dedup_Protocol
begin

text \<open>
  \<open>InMemoryDeduplicator\<close> (ingest/deduplication.py): a dictionary of groups, which
  implements the deduplicator protocol.
\<close>

subsection \<open>The in-memory deduplicator\<close>

record in_memory =
  im_window :: int
  im_groups :: "(string, group_state) dict"

definition in_memory_init :: "int \<Rightarrow> py_exn + in_memory" where
  "in_memory_init window_seconds =
     (if window_seconds < 1 then Inl InvalidDedupeInputError
      else Inr \<lparr>im_window = seconds window_seconds, im_groups = []\<rparr>)"

definition in_memory_process ::
  "(json \<Rightarrow> string) \<Rightarrow> in_memory \<Rightarrow> wazuh_alert \<Rightarrow> canonical_alert \<Rightarrow> datetime
    \<Rightarrow> (py_exn + dedupe_outcome) \<times> in_memory" where
  "in_memory_process digest st alert canonical received_at =
     (case delivery_key_of digest alert received_at of
        Inl e \<Rightarrow> (Inl e, st)
      | Inr k \<Rightarrow>
          (case decide_delivery (map_of (im_groups st) (k_group k)) k (im_window st) canonical of
             Inl e \<Rightarrow>
               (Inl e, st\<lparr>im_groups := map (\<lambda>(key, g). (key,
                  if key = k_group k then prune_expired g (k_received k) (im_window st) else g))
                  (im_groups st)\<rparr>)
           | Inr d \<Rightarrow>
               let st' = st\<lparr>im_groups := AList.update (gs_key (dd_group d)) (dd_group d) (im_groups st)\<rparr> in
               (case dedupe_info (dd_group d) (k_identity k) of
                  Inl e \<Rightarrow> (Inl e, st')
                | Inr info \<Rightarrow> (Inr (outcome_of d (k_identity k) info), st'))))"

definition in_memory_group_state :: "in_memory \<Rightarrow> string \<Rightarrow> group_state option" where
  "in_memory_group_state st key = map_of (im_groups st) key"

definition in_memory_group_count :: "in_memory \<Rightarrow> nat" where
  "in_memory_group_count st = length (im_groups st)"

subsection \<open>The in-memory deduplicator implements the protocol\<close>

definition in_memory_inv :: "int \<Rightarrow> in_memory \<Rightarrow> bool" where
  "in_memory_inv w st = (im_window st = w \<and> distinct (map fst (im_groups st))
     \<and> (\<forall>(key, g) \<in> set (im_groups st). wf_group key g))"

lemma in_memory_wf: "in_memory_inv w st \<Longrightarrow> wf_tracked key (in_memory_group_state st key)"
  by (auto simp: in_memory_inv_def in_memory_group_state_def wf_tracked_def split: option.splits
      dest!: map_of_SomeD)

lemma in_memory_process_eq:
  assumes "in_memory_inv w st" "delivery_key_of digest a t = Inr k"
  shows "\<exists>d. decide_delivery (in_memory_group_state st (k_group k)) k w c = Inr d
    \<and> in_memory_process digest st a c t =
        (Inr (outcome_of d (k_identity k) (info_of (dd_group d) (k_identity k))),
         st\<lparr>im_groups := AList.update (k_group k) (dd_group d) (im_groups st)\<rparr>)
    \<and> wf_group (k_group k) (dd_group d)"
proof -
  have w: "im_window st = w" using assms(1) by (simp add: in_memory_inv_def)
  have wf: "wf_tracked (k_group k) (in_memory_group_state st (k_group k))"
    by (rule in_memory_wf [OF assms(1)])
  obtain d where d: "decide_delivery (in_memory_group_state st (k_group k)) k w c = Inr d"
    using decide_total [OF wf] by blast
  have wfd: "wf_group (k_group k) (dd_group d)" using decide_wf [OF wf d] by blast
  then have "gs_key (dd_group d) = k_group k" by (simp add: wf_group_def)
  then have "in_memory_process digest st a c t =
      (Inr (outcome_of d (k_identity k) (info_of (dd_group d) (k_identity k))),
       st\<lparr>im_groups := AList.update (k_group k) (dd_group d) (im_groups st)\<rparr>)"
    using d w assms(2)
    by (simp add: in_memory_process_def in_memory_group_state_def dedupe_info_wf [OF wfd] Let_def)
  then show ?thesis using d wfd by blast
qed

lemma in_memory_inv_update:
  "in_memory_inv w st \<Longrightarrow> wf_group key g \<Longrightarrow>
     in_memory_inv w (st\<lparr>im_groups := AList.update key g (im_groups st)\<rparr>)"
  by (auto simp: in_memory_inv_def distinct_update set_AList_update)

interpretation memory: deduplicator "in_memory_process digest" in_memory_group_state "in_memory_inv w"
  digest w for digest w
proof
  fix s key a c t e r s' k out
  assume inv: "in_memory_inv w s"
  show "wf_tracked key (in_memory_group_state s key)" by (rule in_memory_wf [OF inv])
  show "fst (in_memory_process digest s a c t) = Inl e" if "delivery_key_of digest a t = Inl e"
    using that by (simp add: in_memory_process_def)
  show "in_memory_group_state s' = in_memory_group_state s"
    if "in_memory_process digest s a c t = (Inl e, s')"
  proof (cases "delivery_key_of digest a t")
    case (Inr k)
    then show ?thesis using in_memory_process_eq [OF inv Inr, of c] that by auto
  qed (use that in \<open>simp add: in_memory_process_def\<close>)
  show "in_memory_inv w s'" if "in_memory_process digest s a c t = (r, s')"
  proof (cases "delivery_key_of digest a t")
    case (Inr k)
    then show ?thesis using in_memory_process_eq [OF inv Inr, of c] that inv
      by (auto intro: in_memory_inv_update)
  qed (use that inv in \<open>simp add: in_memory_process_def\<close>)
  show "\<exists>d. decide_delivery (in_memory_group_state s (k_group k)) k w c = Inr d
        \<and> out = outcome_of d (k_identity k) (info_of (dd_group d) (k_identity k))
        \<and> in_memory_group_state s' = (in_memory_group_state s)(k_group k \<mapsto> dd_group d)"
    if "delivery_key_of digest a t = Inr k" "in_memory_process digest s a c t = (Inr out, s')"
    using in_memory_process_eq [OF inv that(1), of c] that(2)
    by (auto simp: in_memory_group_state_def fun_eq_iff update_conv)
qed

text \<open>
  C39. \<open>InMemoryDeduplicator.process\<close> answers every delivery with usable ids and an
  aware timestamp, refuses every other one with the state untouched, preserves the invariant of
  its groups, and changes no group but the delivery's own.
\<close>

theorem in_memory_process_total:
  assumes inv: "in_memory_inv w st"
  shows "in_memory_inv w (snd (in_memory_process digest st a c t))
    \<and> (case delivery_key_of digest a t of
         Inl e \<Rightarrow> in_memory_process digest st a c t = (Inl InvalidDedupeInputError, st)
       | Inr k \<Rightarrow> (\<exists>out. fst (in_memory_process digest st a c t) = Inr out
            \<and> do_status out = classify (in_memory_group_state st (k_group k)) k w)
          \<and> (\<forall>key. key \<noteq> k_group k \<longrightarrow>
               in_memory_group_state (snd (in_memory_process digest st a c t)) key
               = in_memory_group_state st key))"
proof (cases "delivery_key_of digest a t")
  case (Inl e)
  then show ?thesis
    using delivery_key_of_Inl [OF Inl] inv by (simp add: in_memory_process_def)
next
  case (Inr k)
  from in_memory_process_eq [OF inv Inr, of c] obtain d where
    d: "decide_delivery (in_memory_group_state st (k_group k)) k w c = Inr d"
    and p: "in_memory_process digest st a c t =
        (Inr (outcome_of d (k_identity k) (info_of (dd_group d) (k_identity k))),
         st\<lparr>im_groups := AList.update (k_group k) (dd_group d) (im_groups st)\<rparr>)" by blast
  have "dd_status d = classify (in_memory_group_state st (k_group k)) k w"
    by (rule decide_status [OF in_memory_wf [OF inv] d])
  then show ?thesis
    using Inr memory.process_inv [OF inv p] memory.process_frame [OF inv Inr p] p
    by (simp add: outcome_of_def)
qed

text \<open>
  A flood of re-deliveries creates one alert: after an accepted delivery of an event, every
  further accepted delivery of it that follows the previous one within the window is answered
  as an exact duplicate with the same alert, and leaves occurrences, generation and last seen
  where the first put them; only the duplicate counter moves, once per delivery.
\<close>

theorem flood_creates_one_alert:
  assumes "in_memory_inv w st" "delivery_key_of digest a t = Inr k"
    and "deliver_all (in_memory_process digest) st ((a, c, t) # ds) = (Inr out # rs, st')"
    and "within_window digest (k_group k) (k_identity k) w (k_received k) ds rs"
  shows "(\<forall>o'. Inr o' \<in> set rs \<longrightarrow> do_status o' = EXACT_DUPLICATE \<and> do_alert_id o' = do_alert_id out
            \<and> do_canonical o' = do_canonical out)
    \<and> (\<exists>g. in_memory_group_state st' (k_group k) = Some g
         \<and> gs_occurrences g = cd_occurrences (do_dedupe out)
         \<and> gs_generation g = cd_generation (do_dedupe out)
         \<and> gs_last_seen g = Some (cd_last_seen (do_dedupe out))
         \<and> gs_duplicates g = cd_duplicate_deliveries (do_dedupe out) + length (filter (\<lambda>x. \<not> isl x) rs))"
  by (rule memory.first_then_flood [OF assms])

subsection \<open>Witnesses\<close>

definition sample_memory :: in_memory where
  "sample_memory = \<lparr>im_window = 10, im_groups = []\<rparr>"

lemma sample_memory_inv: "in_memory_inv 10 sample_memory"
  by (simp add: in_memory_inv_def sample_memory_def)

definition sample_delivery_key :: "instant \<Rightarrow> delivery_key" where
  "sample_delivery_key t = \<lparr>k_identity = ''wazuh:17.4:5710:001'', k_group = ''wazuh:5710:001'',
     k_fingerprint = ''d'', k_received = t\<rparr>"

lemma sample_delivery_key:
  "delivery_key_of (\<lambda>_. ''d'') (sample_wazuh (Some ''17.4'')) (Aware t 0) = Inr (sample_delivery_key t)"
proof -
  have "compute_event_identity (\<lambda>_. ''d'') (sample_wazuh (Some ''17.4'')) = Inr ''wazuh:17.4:5710:001''"
    "compute_group_key (wr_id (w_rule (sample_wazuh (Some ''17.4'')))) (wg_id (w_agent (sample_wazuh (Some ''17.4''))))
       = Inr ''wazuh:5710:001''"
    by code_simp+
  then show ?thesis
    by (simp add: delivery_key_of_def require_aware_def sample_delivery_key_def payload_fingerprint_def)
qed

theorem in_memory_process_total_witness:
  "in_memory_inv 10 (snd (in_memory_process (\<lambda>_. ''d'') sample_memory (sample_wazuh (Some ''17.4''))
      (sample_canonical 1 0) (Aware 0 0)))
   \<and> in_memory_process (\<lambda>_. ''d'') sample_memory (sample_wazuh (Some ''17.4''))
      (sample_canonical 1 0) (Naive 0) = (Inl InvalidDedupeInputError, sample_memory)"
proof -
  have naive: "\<exists>e. delivery_key_of (\<lambda>_. ''d'') (sample_wazuh (Some ''17.4'')) (Naive 0) = Inl e"
    by (cases "delivery_key_of (\<lambda>_. ''d'') (sample_wazuh (Some ''17.4'')) (Naive 0)")
       (auto simp: delivery_key_of_eq)
  show ?thesis
    using in_memory_process_total [OF sample_memory_inv, of "\<lambda>_. ''d''" "sample_wazuh (Some ''17.4'')"
        "sample_canonical 1 0" "Aware 0 0"]
      in_memory_process_total [OF sample_memory_inv, of "\<lambda>_. ''d''" "sample_wazuh (Some ''17.4'')"
        "sample_canonical 1 0" "Naive 0"] naive
    by (auto split: sum.splits)
qed

theorem flood_creates_one_alert_witness:
  "\<exists>out rs st'. deliver_all (in_memory_process (\<lambda>_. ''d'')) sample_memory
      (map (\<lambda>t. (sample_wazuh (Some ''17.4''), sample_canonical (nat (t + 1)) t, Aware t 0)) [0, 9, 18])
      = (Inr out # rs, st')
    \<and> do_alert_id out = 1 \<and> (\<forall>o'. Inr o' \<in> set rs \<longrightarrow> do_status o' = EXACT_DUPLICATE \<and> do_alert_id o' = 1)
    \<and> length rs = 2"
proof -
  let ?a = "sample_wazuh (Some ''17.4'')"
  let ?p = "in_memory_process (\<lambda>_. ''d'')"
  let ?ds = "[(?a, sample_canonical 10 9, Aware 9 0), (?a, sample_canonical 19 18, Aware 18 0)]"
  obtain r1 s1 where p1: "?p sample_memory ?a (sample_canonical 1 0) (Aware 0 0) = (r1, s1)"
    by (cases "?p sample_memory ?a (sample_canonical 1 0) (Aware 0 0)")
  have inv1: "in_memory_inv 10 s1" by (rule memory.process_inv [OF sample_memory_inv p1])
  obtain r2 s2 where p2: "?p s1 ?a (sample_canonical 10 9) (Aware 9 0) = (r2, s2)"
    by (cases "?p s1 ?a (sample_canonical 10 9) (Aware 9 0)")
  have inv2: "in_memory_inv 10 s2" by (rule memory.process_inv [OF inv1 p2])
  obtain r3 s3 where p3: "?p s2 ?a (sample_canonical 19 18) (Aware 18 0) = (r3, s3)"
    by (cases "?p s2 ?a (sample_canonical 19 18) (Aware 18 0)")
  obtain out where out: "r1 = Inr out" "do_alert_id out = 1"
    using in_memory_process_eq [OF sample_memory_inv sample_delivery_key [of 0], where c = "sample_canonical 1 0"] p1
    by (auto simp: in_memory_group_state_def sample_memory_def decide_distinct classify_def Let_def
        created_record_def new_event_record_def sample_canonical_def outcome_of_def)
  have r2: "\<not> isl r2"
    using in_memory_process_eq [OF inv1 sample_delivery_key [of 9], where c = "sample_canonical 10 9"] p2 by auto
  have run: "deliver_all ?p sample_memory ((?a, sample_canonical 1 0, Aware 0 0) # ?ds)
      = (Inr out # [r2, r3], s3)"
    using p1 p2 p3 out by simp
  have w: "within_window (\<lambda>_. ''d'') (k_group (sample_delivery_key 0)) (k_identity (sample_delivery_key 0))
      10 (k_received (sample_delivery_key 0)) ?ds [r2, r3]"
    using r2 by (simp add: sample_delivery_key) (simp add: sample_delivery_key_def)
  show ?thesis
    using flood_creates_one_alert [OF sample_memory_inv sample_delivery_key run w] run out by simp
qed

end
