(* ===== verification/Persistent_Dedup.thy ===== *)
theory Persistent_Dedup
  imports Stored_Groups Dedup_Memory
begin

text \<open>
  \<open>PersistentDeduplicator\<close> (ingest/persistent_deduplication.py): one unit of work per
  delivery, which loads the group, classifies with \<open>decide_delivery\<close>, writes the rows
  and the audit entries. It implements the deduplicator protocol and refines the in-memory
  deduplicator.
\<close>

subsection \<open>The deduplicator\<close>

text \<open>What a call meets outside the program: whether the database accepts it, and the clock.\<close>

record db_env =
  env_ok :: bool
  env_now :: instant

definition db_lift :: "py_exn + 'a \<Rightarrow> 'a db" where
  "db_lift r = (case r of Inl e \<Rightarrow> db_raise e | Inr x \<Rightarrow> db_return x)"

definition persistent_init :: "int \<Rightarrow> py_exn + int" where
  "persistent_init window_seconds =
     (if window_seconds < 1 then Inl InvalidDedupeInputError else Inr (seconds window_seconds))"

definition persist_delivery ::
  "instant \<Rightarrow> int \<Rightarrow> delivery_key \<Rightarrow> canonical_alert \<Rightarrow> delivery_decision db" where
  "persist_delivery now window k canonical =
     db_bind (load_state (k_group k) (k_received k) window) (\<lambda>tracked.
     db_bind (db_lift (decide_delivery tracked k window canonical)) (\<lambda>d.
     db_bind (if dd_status d = EXACT_DUPLICATE then absorb_event now (dd_group d) (dd_record d)
              else record_event now (dd_group d) (dd_record d)) (\<lambda>_.
     db_bind (audit_append (audit_entries_for_decision d) (k_received k)) (\<lambda>_.
       db_return d))))"

definition persistent_process ::
  "(json \<Rightarrow> string) \<Rightarrow> int \<Rightarrow> db_env \<Rightarrow> store \<Rightarrow> wazuh_alert \<Rightarrow> canonical_alert \<Rightarrow> datetime
    \<Rightarrow> (py_exn + dedupe_outcome) \<times> store" where
  "persistent_process digest window env s alert canonical received_at =
     (case delivery_key_of digest alert received_at of
        Inl e \<Rightarrow> (Inl e, s)
      | Inr k \<Rightarrow>
          (case session_scope (env_ok env) (persist_delivery (env_now env) window k canonical) s of
             (Inl e, s') \<Rightarrow> (Inl (if e = SQLAlchemyError then StorageError else e), s')
           | (Inr d, s') \<Rightarrow>
               (case dedupe_info (dd_group d) (k_identity k) of
                  Inl e \<Rightarrow> (Inl e, s')
                | Inr info \<Rightarrow> (Inr (outcome_of d (k_identity k) info), s'))))"

definition persistent_group_state :: "bool \<Rightarrow> store \<Rightarrow> string \<Rightarrow> py_exn + group_state option" where
  "persistent_group_state db_ok s key = (if db_ok then Inr (stored_group_state s key) else Inl StorageError)"

definition persistent_group_count :: "bool \<Rightarrow> store \<Rightarrow> py_exn + nat" where
  "persistent_group_count db_ok s = (if db_ok then Inr (stored_group_count s) else Inl StorageError)"

subsection \<open>What one unit of work does\<close>

lemma db_lift_simps [simp]:
  "db_lift (Inr x) = db_return x" "db_lift (Inl e) = db_raise e"
  by (simp_all add: db_lift_def)

lemma db_lift_eq [simp]: "db_lift r s = Inr (x, s') \<longleftrightarrow> r = Inr x \<and> s' = s"
  by (cases r) auto

lemma prune_idem [simp]: "prune_expired (prune_expired g t w) t w = prune_expired g t w"
  by (simp add: prune_expired_def conj_commute)

lemma decide_loaded:
  "decide_delivery (map_option (\<lambda>g. prune_expired g (k_received k) w) tracked) k w c
     = decide_delivery tracked k w c"
  by (cases tracked) (simp_all add: decide_delivery_def)

lemma no_events_without_group:
  assumes "dedupe_tables_ok s" "map_of (st_groups s) key = None"
  shows "group_events s key = []"
proof -
  have "(i, x) \<notin> set (group_events s key)" for i x
    using assms by (fastforce simp: set_group_events dedupe_tables_ok_def wf_event_row_def)
  then show ?thesis by (cases "group_events s key") auto
qed

lemma audit_append_eq [simp]:
  "audit_append es t s = Inr (u, s') \<longleftrightarrow> s' = fold (audit_append_one t) es s"
  by (simp add: audit_append_def)

lemma dedupe_tables_frame:
  assumes "st_alerts s' = st_alerts s" "st_groups s' = st_groups s" "st_events s' = st_events s"
  shows "dedupe_tables_ok s' = dedupe_tables_ok s \<and> stored_group_state s' = stored_group_state s"
proof -
  have "get_alert_row u s' = get_alert_row u s" for u using assms by (simp add: get_alert_row_def)
  with assms show ?thesis
    by (simp add: dedupe_tables_ok_def wf_event_row_def fun_eq_iff stored_group_state_def
        events_for_group_def cong: if_cong)
qed

text \<open>The events of the loaded group are the rows left after pruning.\<close>

lemma loaded_events:
  assumes "dedupe_tables_ok s"
  shows "group_events (delete_expired_events (k_group k) (k_received k) w s) (k_group k)
    = (case stored_group_state s (k_group k) of None \<Rightarrow> []
       | Some g \<Rightarrow> gs_events (prune_expired g (k_received k) w))"
  using assms no_events_without_group [OF assms, of "k_group k"]
  by (auto simp: stored_group_state_eq group_events_delete row_group_def prune_expired_def
      split: option.splits)

lemma persist_delivery_stores:
  assumes ok: "dedupe_tables_ok s" and run: "persist_delivery now w k c s = Inr (d, s')"
  shows "decide_delivery (stored_group_state s (k_group k)) k w c = Inr d
    \<and> dedupe_tables_ok s' \<and> stored_group_state s' = (stored_group_state s)(k_group k \<mapsto> dd_group d)
    \<and> wf_group (k_group k) (dd_group d)"
proof -
  let ?tracked = "stored_group_state s (k_group k)"
  let ?s1 = "delete_expired_events (k_group k) (k_received k) w s"
  have wf: "wf_tracked (k_group k) ?tracked" by (rule wf_stored_group [OF ok])
  have ok1: "dedupe_tables_ok ?s1" by (rule delete_expired_ok [OF ok])
  have d: "decide_delivery ?tracked k w c = Inr d"
    using run by (auto simp: persist_delivery_def load_state_eq [OF ok] decide_loaded)
  obtain s2 where s2: "(if dd_status d = EXACT_DUPLICATE then absorb_event now (dd_group d) (dd_record d)
        else record_event now (dd_group d) (dd_record d)) ?s1 = Inr ((), s2)"
    and s': "s' = fold (audit_append_one (k_received k)) (audit_entries_for_decision d) s2"
    using run d by (auto simp: persist_delivery_def load_state_eq [OF ok] decide_loaded)
  have wfd: "wf_group (k_group k) (dd_group d)" using decide_wf [OF wf d] by blast
  then have key: "gs_key (dd_group d) = k_group k" by (simp add: wf_group_def)
  have evs: "group_events ?s1 (k_group k) = (case ?tracked of None \<Rightarrow> []
       | Some g \<Rightarrow> gs_events (prune_expired g (k_received k) w))"
    by (rule loaded_events [OF ok])
  have "dedupe_tables_ok s2 \<and> stored_group_state s2 = (stored_group_state ?s1)(k_group k \<mapsto> dd_group d)"
    using wf
  proof (cases rule: decide_cases [where w = w and c = c])
    case (duplicate g r)
    let ?r = "absorb r (k_fingerprint k) (k_received k)"
    have deq: "d = absorb_duplicate (prune_expired g (k_received k) w) r k" using d duplicate by simp
    have wfr: "wf_record (k_identity k) r"
      using wf duplicate(1,2) live_event_wf by simp
    have g1: "group_events ?s1 (k_group k) = gs_events (prune_expired g (k_received k) w)"
      using evs duplicate(1) by simp
    have "map_of (group_events ?s1 (k_group k)) (k_identity k) = Some r"
      using prune_live_event [of "k_group k" g k w] wf duplicate(1,2) by (simp add: g1)
    moreover have "er_identity ?r = k_identity k" using wfr by (simp add: wf_record_def)
    ultimately show ?thesis
      using absorb_event_stored [OF ok1, of now "dd_group d" "dd_record d" "()" s2 r] s2 deq wfd key wfr g1
      by (simp add: wf_record_absorb)
  next
    case (distinct d')
    have deq: "d' = d" using d distinct by simp
    have wfr: "wf_record (k_identity k) (dd_record d)" using distinct deq wf_created by simp
    then have i: "er_identity (dd_record d) = k_identity k" by (simp add: wf_record_def)
    have g1: "group_events ?s1 (k_group k) = gs_events (advanced ?tracked k w)"
      using evs by (simp add: events_advanced)
    have "k_identity k \<notin> fst ` set (st_events ?s1)"
      using s2 distinct deq i by (auto simp: record_event_def)
    then have "k_identity k \<notin> fst ` set (group_events ?s1 (k_group k))"
      by (force simp: set_group_events)
    then have "gs_events (dd_group d) = group_events ?s1 (k_group k) @ [(k_identity k, dd_record d)]"
      using distinct deq g1 by (simp add: update_new_key)
    then show ?thesis
      using record_event_stored [OF ok1, of now "dd_group d" "dd_record d" "()" s2] s2 distinct deq wfd key wfr i
      by simp
  qed
  then have "dedupe_tables_ok s2 \<and> stored_group_state s2 = (stored_group_state s)(k_group k \<mapsto> dd_group d)"
    by (simp add: stored_delete_expired [OF ok])
  moreover have "dedupe_tables_ok s' = dedupe_tables_ok s2 \<and> stored_group_state s' = stored_group_state s2"
    unfolding s' by (rule dedupe_tables_frame) simp_all
  ultimately show ?thesis using d wfd by simp
qed

text \<open>And the rows it adds: one alert unless the delivery was absorbed, and the audit entries.\<close>

lemma persist_delivery_rows:
  assumes ok: "dedupe_tables_ok s" and run: "persist_delivery now w k c s = Inr (d, s')"
  shows "audit_of s' = audit_of s @ map (Pair (k_received k)) (audit_entries_for_decision d)
    \<and> st_alerts s' = st_alerts s @ (if dd_status d = EXACT_DUPLICATE then []
        else [(er_alert_id (dd_record d), new_alert_row (dd_group d) (dd_record d))])
    \<and> st_incidents s' = st_incidents s \<and> st_contexts s' = st_contexts s \<and> st_members s' = st_members s"
proof -
  let ?s1 = "delete_expired_events (k_group k) (k_received k) w s"
  obtain s2 where s2: "(if dd_status d = EXACT_DUPLICATE then absorb_event now (dd_group d) (dd_record d)
        else record_event now (dd_group d) (dd_record d)) ?s1 = Inr ((), s2)"
    and s': "s' = fold (audit_append_one (k_received k)) (audit_entries_for_decision d) s2"
    using run by (auto simp: persist_delivery_def load_state_eq [OF ok])
  have "st_audit s2 = st_audit s \<and> st_incidents s2 = st_incidents s \<and> st_contexts s2 = st_contexts s
     \<and> st_members s2 = st_members s
     \<and> st_alerts s2 = st_alerts s @ (if dd_status d = EXACT_DUPLICATE then []
        else [(er_alert_id (dd_record d), new_alert_row (dd_group d) (dd_record d))])"
    using s2 by (auto simp: record_event_def absorb_event_def split: if_splits option.splits)
  then show ?thesis by (simp add: s') (simp add: audit_of_def)
qed

lemma persist_delivery_succeeds:
  assumes ok: "dedupe_tables_ok s"
    and fresh: "c_alert_id c \<notin> fst ` set (st_alerts s)"
    and own: "\<And>e. map_of (st_events s) (k_identity k) = Some e \<Longrightarrow> ev_group_key e = k_group k"
  shows "\<exists>d s'. persist_delivery now w k c s = Inr (d, s')"
proof -
  let ?tracked = "stored_group_state s (k_group k)"
  let ?s1 = "delete_expired_events (k_group k) (k_received k) w s"
  have wf: "wf_tracked (k_group k) ?tracked" by (rule wf_stored_group [OF ok])
  have ok1: "dedupe_tables_ok ?s1" by (rule delete_expired_ok [OF ok])
  have de: "distinct (map fst (st_events ?s1))" using ok1 by (simp add: dedupe_tables_ok_def)
  have evs: "group_events ?s1 (k_group k) = (case ?tracked of None \<Rightarrow> []
       | Some g \<Rightarrow> gs_events (prune_expired g (k_received k) w))"
    by (rule loaded_events [OF ok])
  have "\<exists>d s2. decide_delivery ?tracked k w c = Inr d
    \<and> (if dd_status d = EXACT_DUPLICATE then absorb_event now (dd_group d) (dd_record d)
        else record_event now (dd_group d) (dd_record d)) ?s1 = Inr ((), s2)"
    using wf
  proof (cases rule: decide_cases [where w = w and c = c])
    case (duplicate g r)
    have wfr: "wf_record (k_identity k) r" using wf duplicate(1,2) live_event_wf by simp
    have "map_of (group_events ?s1 (k_group k)) (k_identity k) = Some r"
      using prune_live_event [of "k_group k" g k w] wf duplicate(1,2) evs by simp
    then obtain e where "(k_identity k, e) \<in> set (st_events ?s1)"
      by (auto simp: set_group_events dest!: map_of_SomeD)
    then have "map_of (st_events ?s1) (k_identity k) = Some e" using de by simp
    then show ?thesis
      using duplicate wfr by (auto simp: absorb_event_def wf_record_def)
  next
    case (distinct d)
    let ?r = "dd_record d"
    have r: "er_alert_id ?r = c_alert_id c" "er_identity ?r = k_identity k"
      using distinct(4) by (simp_all add: created_record_def new_event_record_def)
    have "k_identity k \<notin> fst ` set (st_events ?s1)"
    proof
      assume "k_identity k \<in> fst ` set (st_events ?s1)"
      then obtain e where e: "(k_identity k, e) \<in> set (st_events ?s1)" by auto
      then have "(k_identity k, e) \<in> set (st_events s)" by (simp add: delete_expired_events_def)
      moreover have "distinct (map fst (st_events s))" using ok by (simp add: dedupe_tables_ok_def)
      ultimately have g: "ev_group_key e = k_group k" using own by simp
      have "wf_event_row ?s1 (k_identity k) e" using ok1 e by (auto simp: dedupe_tables_ok_def)
      then obtain a where "map_of (st_alerts ?s1) (ev_alert_id e) = Some a" by (auto simp: wf_event_row_def)
      with e g have "(k_identity k, event_to_record e a) \<in> set (group_events ?s1 (k_group k))"
        by (auto simp: set_group_events)
      then obtain g r where g: "?tracked = Some g"
          "map_of (gs_events (prune_expired g (k_received k) w)) (k_identity k) = Some r"
        using evs distinct_group_events [OF ok1, of "k_group k"]
        by (auto split: option.splits dest: map_of_is_SomeI)
      with wf have "live_event g k w = Some r" using prune_live_event [of "k_group k" g k w] by simp
      with distinct(1) g show False by (simp add: classify_def)
    qed
    moreover have "c_alert_id c \<notin> ev_alert_id ` set (rows (st_events ?s1))"
      using ok1 fresh by (force simp: dedupe_tables_ok_def wf_event_row_def rows_def map_of_eq_None_iff)
    ultimately show ?thesis
      using distinct fresh r by (auto simp: record_event_def)
  qed
  then obtain d s2 where "decide_delivery ?tracked k w c = Inr d"
    "(if dd_status d = EXACT_DUPLICATE then absorb_event now (dd_group d) (dd_record d)
        else record_event now (dd_group d) (dd_record d)) ?s1 = Inr ((), s2)" by blast
  then have "persist_delivery now w k c s
      = Inr (d, fold (audit_append_one (k_received k)) (audit_entries_for_decision d) s2)"
    by (simp add: persist_delivery_def load_state_eq [OF ok] decide_loaded)
  then show ?thesis by blast
qed

subsection \<open>One call\<close>

lemma persistent_process_cases:
  assumes ok: "dedupe_tables_ok s" and run: "persistent_process digest w env s a c t = (res, s')"
  obtains (rejected) e where "delivery_key_of digest a t = Inl e" "res = Inl e" "s' = s"
  | (failed) k e where "delivery_key_of digest a t = Inr k" "res = Inl e" "s' = s"
  | (stored) k d where "delivery_key_of digest a t = Inr k" "env_ok env"
      "persist_delivery (env_now env) w k c s = Inr (d, s')"
      "decide_delivery (stored_group_state s (k_group k)) k w c = Inr d"
      "res = Inr (outcome_of d (k_identity k) (info_of (dd_group d) (k_identity k)))"
      "dedupe_tables_ok s'" "stored_group_state s' = (stored_group_state s)(k_group k \<mapsto> dd_group d)"
proof (cases "delivery_key_of digest a t")
  case (Inl e)
  then show ?thesis using run rejected by (simp add: persistent_process_def)
next
  case (Inr k)
  note key = this
  obtain r s1 where r: "session_scope (env_ok env) (persist_delivery (env_now env) w k c) s = (r, s1)"
    by (cases "session_scope (env_ok env) (persist_delivery (env_now env) w k c) s")
  show ?thesis
  proof (cases r)
    case (Inl e)
    have "s1 = s" using r Inl session.rollback by blast
    then have "s' = s" "\<exists>e. res = Inl e" using run key r Inl by (auto simp: persistent_process_def)
    then show ?thesis using key failed by blast
  next
    case (Inr d)
    then have d: "env_ok env" "persist_delivery (env_now env) w k c s = Inr (d, s1)"
      using r by (simp_all add: session_scope_eq_Inr)
    note st = persist_delivery_stores [OF ok d(2)]
    then have "dedupe_info (dd_group d) (k_identity k) = Inr (info_of (dd_group d) (k_identity k))"
      using dedupe_info_wf by blast
    then have "s' = s1" "res = Inr (outcome_of d (k_identity k) (info_of (dd_group d) (k_identity k)))"
      using run key r Inr by (simp_all add: persistent_process_def)
    then show ?thesis using key d st stored by simp
  qed
qed

subsection \<open>The persistent deduplicator implements the protocol\<close>

text \<open>
  A run of calls meets a list of environments, one per call; past the end of the list the
  database accepts everything.
\<close>

fun next_env :: "db_env list \<Rightarrow> db_env" where
  "next_env [] = \<lparr>env_ok = True, env_now = 0\<rparr>"
| "next_env (e # es) = e"

definition persistent_step ::
  "(json \<Rightarrow> string) \<Rightarrow> int \<Rightarrow> store \<times> db_env list \<Rightarrow> wazuh_alert \<Rightarrow> canonical_alert \<Rightarrow> datetime
    \<Rightarrow> (py_exn + dedupe_outcome) \<times> (store \<times> db_env list)" where
  "persistent_step digest window st a c t =
     (let (r, s') = persistent_process digest window (next_env (snd st)) (fst st) a c t
      in (r, (s', tl (snd st))))"

interpretation persistent: deduplicator "persistent_step digest w" "\<lambda>st. stored_group_state (fst st)"
  "\<lambda>st. dedupe_tables_ok (fst st)" digest w for digest w
proof
  fix st :: "store \<times> db_env list" and st' key a c t e r k out
  assume ok: "dedupe_tables_ok (fst st)"
  show "wf_tracked key (stored_group_state (fst st) key)" by (rule wf_stored_group [OF ok])
  show "fst (persistent_step digest w st a c t) = Inl e" if "delivery_key_of digest a t = Inl e"
    using that by (simp add: persistent_step_def persistent_process_def Let_def split: prod.splits)
  have call: "persistent_process digest w (next_env (snd st)) (fst st) a c t = (r, fst st')"
    if "persistent_step digest w st a c t = (r, st')" for r
    using that by (auto simp: persistent_step_def Let_def split: prod.splits)
  show "stored_group_state (fst st') = stored_group_state (fst st)"
    if "persistent_step digest w st a c t = (Inl e, st')"
    using ok call [OF that] by (cases rule: persistent_process_cases) auto
  show "dedupe_tables_ok (fst st')" if "persistent_step digest w st a c t = (r, st')"
    using ok call [OF that] by (cases rule: persistent_process_cases) (use ok in auto)
  show "\<exists>d. decide_delivery (stored_group_state (fst st) (k_group k)) k w c = Inr d
        \<and> out = outcome_of d (k_identity k) (info_of (dd_group d) (k_identity k))
        \<and> stored_group_state (fst st') = (stored_group_state (fst st))(k_group k \<mapsto> dd_group d)"
    if "delivery_key_of digest a t = Inr k" "persistent_step digest w st a c t = (Inr out, st')"
    using ok call [OF that(2)] by (cases rule: persistent_process_cases) (use that in auto)
qed

subsection \<open>Properties\<close>

definition same_groups :: "in_memory \<Rightarrow> store \<Rightarrow> bool" where
  "same_groups m s \<longleftrightarrow> in_memory_group_state m = stored_group_state s"

text \<open>
  C1. The persistent deduplicator reproduces the in-memory contract: from stores holding the
  same groups, a call the database accepts returns the very outcome the in-memory deduplicator
  returns and leaves the same groups behind; a call that raises leaves the store exactly as it
  was.
\<close>

theorem persistent_refines_in_memory:
  assumes ok: "dedupe_tables_ok s" and inv: "in_memory_inv w m" and same: "same_groups m s"
    and run: "persistent_process digest w env s a c t = (res, s')"
  shows "case res of
      Inl e \<Rightarrow> s' = s
    | Inr out \<Rightarrow> fst (in_memory_process digest m a c t) = Inr out
        \<and> same_groups (snd (in_memory_process digest m a c t)) s' \<and> dedupe_tables_ok s'"
  using ok run
proof (cases rule: persistent_process_cases)
  case (stored k d)
  from in_memory_process_eq [OF inv stored(1), of c] obtain d' where
    d': "decide_delivery (in_memory_group_state m (k_group k)) k w c = Inr d'"
      "in_memory_process digest m a c t =
        (Inr (outcome_of d' (k_identity k) (info_of (dd_group d') (k_identity k))),
         m\<lparr>im_groups := AList.update (k_group k) (dd_group d') (im_groups m)\<rparr>)" by blast
  have "d' = d" using d'(1) stored(4) same by (simp add: same_groups_def)
  then show ?thesis
    using stored d'(2) same
    by (auto simp: same_groups_def in_memory_group_state_def fun_eq_iff update_conv)
qed auto

text \<open>
  A delivery is written whole: when the call returns, the audit log has grown by exactly
  the entries of the decision and the alert table by exactly one row with the outcome's alert
  id, or by none when the delivery was an exact duplicate; incidents and correlation contexts
  are untouched.
\<close>

theorem delivery_written_whole:
  assumes ok: "dedupe_tables_ok s"
    and run: "persistent_process digest w env s a c t = (Inr out, s')"
  shows "\<exists>k d. delivery_key_of digest a t = Inr k
     \<and> decide_delivery (stored_group_state s (k_group k)) k w c = Inr d
     \<and> do_status out = dd_status d
     \<and> audit_of s' = audit_of s @ map (Pair (k_received k)) (audit_entries_for_decision d)
     \<and> map fst (st_alerts s') = map fst (st_alerts s)
          @ (if do_status out = EXACT_DUPLICATE then [] else [do_alert_id out])
     \<and> (\<forall>u. u \<in> fst ` set (st_alerts s) \<longrightarrow> map_of (st_alerts s') u = map_of (st_alerts s) u)
     \<and> st_incidents s' = st_incidents s \<and> st_contexts s' = st_contexts s \<and> st_members s' = st_members s"
  using ok run
proof (cases rule: persistent_process_cases)
  case (stored k d)
  have "map_of (xs @ ys) u = map_of xs u" if "u \<in> fst ` set xs" for xs ys :: "(uuid, alert_row) dict" and u
    using that by (induction xs) auto
  then show ?thesis
    using stored persist_delivery_rows [OF ok stored(3)] by (auto simp: outcome_of_def)
qed auto

text \<open>
  A delivery with a fresh alert id always goes through: if the ids are usable, the database
  accepts the unit of work and no other group has retained an event of this identity, the call
  returns the classified outcome.
\<close>

theorem persistent_process_succeeds:
  assumes ok: "dedupe_tables_ok s" and k: "delivery_key_of digest a t = Inr k" and db: "env_ok env"
    and fresh: "c_alert_id c \<notin> fst ` set (st_alerts s)"
    and own: "\<And>e. map_of (st_events s) (k_identity k) = Some e \<Longrightarrow> ev_group_key e = k_group k"
  shows "\<exists>out s'. persistent_process digest w env s a c t = (Inr out, s')
     \<and> do_status out = classify (stored_group_state s (k_group k)) k w"
proof -
  obtain d s' where d: "persist_delivery (env_now env) w k c s = Inr (d, s')"
    using persist_delivery_succeeds [OF ok fresh own] by blast
  have st: "decide_delivery (stored_group_state s (k_group k)) k w c = Inr d" "wf_group (k_group k) (dd_group d)"
    using persist_delivery_stores [OF ok d] by simp_all
  have "dd_status d = classify (stored_group_state s (k_group k)) k w"
    by (rule decide_status [OF wf_stored_group [OF ok] st(1)])
  then show ?thesis
    using k db d dedupe_info_wf [OF st(2)]
    by (simp add: persistent_process_def session_scope_def outcome_of_def)
qed

text \<open>
  A flood of re-deliveries stays idempotent across database failures: whatever calls fail,
  every accepted re-delivery within the window answers with the first alert as an exact
  duplicate, and the stored recurrence state does not move.
\<close>

theorem persistent_flood_idempotent:
  assumes "dedupe_tables_ok (fst st)" "delivery_key_of digest a t = Inr k"
    and "deliver_all (persistent_step digest w) st ((a, c, t) # ds) = (Inr out # rs, st')"
    and "within_window digest (k_group k) (k_identity k) w (k_received k) ds rs"
  shows "(\<forall>o'. Inr o' \<in> set rs \<longrightarrow> do_status o' = EXACT_DUPLICATE \<and> do_alert_id o' = do_alert_id out
            \<and> do_canonical o' = do_canonical out)
    \<and> (\<exists>g. stored_group_state (fst st') (k_group k) = Some g
         \<and> gs_occurrences g = cd_occurrences (do_dedupe out)
         \<and> gs_generation g = cd_generation (do_dedupe out)
         \<and> gs_last_seen g = Some (cd_last_seen (do_dedupe out))
         \<and> gs_duplicates g = cd_duplicate_deliveries (do_dedupe out) + length (filter (\<lambda>x. \<not> isl x) rs))"
  by (rule persistent.first_then_flood [OF assms])

subsection \<open>Witnesses\<close>

definition accepting :: db_env where
  "accepting = \<lparr>env_ok = True, env_now = 0\<rparr>"

lemma empty_store_ok: "dedupe_tables_ok empty_store"
  by (simp add: dedupe_tables_ok_def empty_store_def)

lemma empty_same_groups: "same_groups sample_memory empty_store"
  by (simp add: same_groups_def fun_eq_iff in_memory_group_state_def sample_memory_def
      stored_group_state_def empty_store_def)

lemma empty_process_ok:
  obtains out s' where "persistent_process (\<lambda>_. ''d'') 10 accepting empty_store
      (sample_wazuh (Some ''17.4'')) (sample_canonical 1 0) (Aware 0 0) = (Inr out, s')"
    "do_status out = NEW_GENERATION" "do_alert_id out = 1"
proof -
  let ?k = "sample_delivery_key 0"
  let ?c = "sample_canonical 1 0"
  obtain d s' where d: "persist_delivery 0 10 ?k ?c empty_store = Inr (d, s')"
    using persist_delivery_succeeds [OF empty_store_ok, of ?c ?k 0 10] by (auto simp: empty_store_def)
  note st = persist_delivery_stores [OF empty_store_ok d]
  have none: "stored_group_state empty_store key = None" for key
    by (simp add: stored_group_state_def empty_store_def)
  have s: "dd_status d = NEW_GENERATION"
    using decide_status [OF wf_stored_group [OF empty_store_ok] conjunct1 [OF st]] none
    by (simp add: classify_def)
  have "er_alert_id (dd_record d) = 1"
    using st none by (auto simp: decide_distinct classify_def Let_def created_record_def
        new_event_record_def sample_canonical_def)
  then show ?thesis
    using that d s st dedupe_info_wf [of "k_group ?k" "dd_group d"]
    by (simp add: persistent_process_def sample_delivery_key session_scope_def accepting_def outcome_of_def)
qed

theorem persistent_refines_in_memory_witness:
  "\<exists>out. fst (in_memory_process (\<lambda>_. ''d'') sample_memory (sample_wazuh (Some ''17.4''))
      (sample_canonical 1 0) (Aware 0 0)) = Inr out \<and> do_status out = NEW_GENERATION \<and> do_alert_id out = 1"
proof (rule empty_process_ok)
  fix out s'
  assume "persistent_process (\<lambda>_. ''d'') 10 accepting empty_store
      (sample_wazuh (Some ''17.4'')) (sample_canonical 1 0) (Aware 0 0) = (Inr out, s')"
    "do_status out = NEW_GENERATION" "do_alert_id out = 1"
  then show ?thesis
    using persistent_refines_in_memory [OF empty_store_ok sample_memory_inv empty_same_groups] by fastforce
qed

theorem delivery_written_whole_witness:
  "\<exists>s'. map fst (st_alerts s') = [1]
     \<and> length (audit_of s') = 2 \<and> snd (persistent_process (\<lambda>_. ''d'') 10 accepting empty_store
      (sample_wazuh (Some ''17.4'')) (sample_canonical 1 0) (Aware 0 0)) = s'"
proof (rule empty_process_ok)
  fix out s'
  assume run: "persistent_process (\<lambda>_. ''d'') 10 accepting empty_store
      (sample_wazuh (Some ''17.4'')) (sample_canonical 1 0) (Aware 0 0) = (Inr out, s')"
    and out: "do_status out = NEW_GENERATION" "do_alert_id out = 1"
  obtain k d where kd: "decide_delivery (stored_group_state empty_store (k_group k)) k 10 (sample_canonical 1 0) = Inr d"
    "do_status out = dd_status d"
    "audit_of s' = audit_of empty_store @ map (Pair (k_received k)) (audit_entries_for_decision d)"
    "map fst (st_alerts s') = map fst (st_alerts empty_store) @ (if do_status out = EXACT_DUPLICATE then [] else [do_alert_id out])"
    using delivery_written_whole [OF empty_store_ok run] by blast
  have d: "dd_status d = NEW_GENERATION" "dd_generation_started d" "\<not> dd_content_diverged d"
    using kd(1) by (auto simp: stored_group_state_def empty_store_def decide_distinct classify_def Let_def)
  have "length (audit_entries_for_decision d) = 2"
    using d by (simp add: audit_entries_for_decision_def Let_def)
  then have "length (audit_of s') = 2" using kd(3) by (simp add: audit_of_def empty_store_def)
  then show ?thesis using kd(4) out run by (simp add: empty_store_def)
qed

theorem persistent_process_succeeds_witness:
  "\<exists>out s'. persistent_process (\<lambda>_. ''d'') 10 accepting empty_store
      (sample_wazuh (Some ''17.4'')) (sample_canonical 1 0) (Aware 0 0) = (Inr out, s')
     \<and> do_status out = NEW_GENERATION"
  using persistent_process_succeeds [OF empty_store_ok sample_delivery_key, of accepting "sample_canonical 1 0" 0 10]
  by (simp add: accepting_def empty_store_def stored_group_state_def classify_def)

theorem persistent_flood_idempotent_witness:
  "\<exists>out rs st'. deliver_all (persistent_step (\<lambda>_. ''d'') 10)
      (empty_store, [accepting, accepting\<lparr>env_ok := False\<rparr>, accepting])
      (map (\<lambda>t. (sample_wazuh (Some ''17.4''), sample_canonical (nat (t + 1)) t, Aware t 0)) [0, 9, 10])
      = (Inr out # rs, st')
    \<and> do_alert_id out = 1 \<and> isl (hd rs) \<and> length rs = 2
    \<and> (\<forall>o'. Inr o' \<in> set rs \<longrightarrow> do_status o' = EXACT_DUPLICATE \<and> do_alert_id o' = 1)"
proof (rule empty_process_ok)
  let ?a = "sample_wazuh (Some ''17.4'')"
  let ?p = "persistent_step (\<lambda>_. ''d'') 10"
  let ?ds = "[(?a, sample_canonical 10 9, Aware 9 0), (?a, sample_canonical 11 10, Aware 10 0)]"
  fix out s'
  assume "persistent_process (\<lambda>_. ''d'') 10 accepting empty_store ?a (sample_canonical 1 0) (Aware 0 0) = (Inr out, s')"
    and out: "do_alert_id out = 1"
  then have p1: "?p (empty_store, [accepting, accepting\<lparr>env_ok := False\<rparr>, accepting]) ?a (sample_canonical 1 0) (Aware 0 0)
      = (Inr out, (s', [accepting\<lparr>env_ok := False\<rparr>, accepting]))"
    by (simp add: persistent_step_def)
  obtain r2 s2 where p2: "?p (s', [accepting\<lparr>env_ok := False\<rparr>, accepting]) ?a (sample_canonical 10 9) (Aware 9 0) = (r2, s2)"
    by (cases "?p (s', [accepting\<lparr>env_ok := False\<rparr>, accepting]) ?a (sample_canonical 10 9) (Aware 9 0)")
  obtain r3 s3 where p3: "?p s2 ?a (sample_canonical 11 10) (Aware 10 0) = (r3, s3)"
    by (cases "?p s2 ?a (sample_canonical 11 10) (Aware 10 0)")
  have r2: "isl r2"
    using p2 by (auto simp: persistent_step_def persistent_process_def sample_delivery_key session_scope_def
        accepting_def Let_def split: sum.splits prod.splits)
  have run: "deliver_all ?p (empty_store, [accepting, accepting\<lparr>env_ok := False\<rparr>, accepting])
      ((?a, sample_canonical 1 0, Aware 0 0) # ?ds) = (Inr out # [r2, r3], s3)"
    using p1 p2 p3 by simp
  have w: "within_window (\<lambda>_. ''d'') (k_group (sample_delivery_key 0)) (k_identity (sample_delivery_key 0))
      10 (k_received (sample_delivery_key 0)) ?ds [r2, r3]"
    using r2 by (simp add: sample_delivery_key) (simp add: sample_delivery_key_def)
  have ok: "dedupe_tables_ok (fst (empty_store, [accepting, accepting\<lparr>env_ok := False\<rparr>, accepting]))"
    using empty_store_ok by simp
  show ?thesis
    using persistent_flood_idempotent [OF ok sample_delivery_key run w] run out r2 by simp
qed

end
