(* ===== verification/Incident_Facts.thy ===== *)
theory Incident_Facts
  imports Incident_Repository Persistent_Dedup
begin

text \<open>
  What the incident repository guarantees: the status update implements the lifecycle, closed
  incidents stay closed, the invariants of the table, and the sequential ids.
\<close>

subsection \<open>Status updates\<close>

text \<open>
  \<open>update_status\<close> implements the lifecycle table: it raises exactly when the incident is
  unknown or the transition is not in the table (and then nothing is returned to write), and
  otherwise moves this incident only, setting \<open>updated_at\<close>, setting
  \<open>acknowledged_at\<close> exactly when the target is \<open>acknowledged\<close> and
  \<open>resolved_at\<close> exactly when it is terminal.
\<close>

theorem update_status_implements_table:
  assumes ok: "incidents_ok s"
  shows "case update_status k target now s of
      Inl e \<Rightarrow> (get_incident k s = None \<and> e = LookupError)
        \<or> (\<exists>i. get_incident k s = Some i \<and> target \<notin> set (valid_transitions (inc_status i))
             \<and> e = invalid_transition (inc_status i) target)
    | Inr (i', s') \<Rightarrow> \<exists>i. get_incident k s = Some i \<and> target \<in> set (valid_transitions (inc_status i))
        \<and> get_incident k s' = Some i' \<and> (\<forall>k'. k' \<noteq> k \<longrightarrow> get_incident k' s' = get_incident k' s)
        \<and> inc_status i' = target \<and> inc_updated_at i' = now
        \<and> inc_acknowledged_at i' = (if target = ACKNOWLEDGED then Some now else inc_acknowledged_at i)
        \<and> inc_resolved_at i' = (if terminal target then Some now else inc_resolved_at i)
        \<and> inc_severity i' = inc_severity i \<and> inc_group_key i' = inc_group_key i
        \<and> st_alerts s' = st_alerts s \<and> st_audit s' = st_audit s"
proof (cases "update_status k target now s")
  case (Inl e)
  then have "(get_incident k s = None \<and> e = LookupError)
      \<or> (\<exists>i. get_incident k s = Some i \<and> target \<notin> set (valid_transitions (inc_status i))
           \<and> e = invalid_transition (inc_status i) target)"
    by (simp add: update_status_Inl can_transition_def)
  then show ?thesis unfolding Inl sum.case .
next
  case (Inr p)
  obtain i' s' where p: "p = (i', s')" by (cases p)
  with Inr obtain i where i: "get_incident k s = Some i" "can_transition (inc_status i) target"
    "i' = moved i target now" "s' = put_incident i' s" by (auto simp: update_status_eq)
  moreover have "inc_id i = k" using incident_row [OF ok i(1)] by simp
  ultimately show ?thesis using Inr p by (simp add: can_transition_def get_put_incident)
qed

text \<open>A history of update requests, each its own unit of work: a refused one changes nothing.\<close>

fun run_updates :: "string \<Rightarrow> (incident_status \<times> instant) list \<Rightarrow> store \<Rightarrow> store" where
  "run_updates k [] s = s"
| "run_updates k ((t, now) # us) s = run_updates k us (snd (session_scope True (update_status k t now) s))"

lemma session_update_status:
  assumes ok: "incidents_ok s" and i: "get_incident k s = Some i"
  shows "\<exists>i'. get_incident k (snd (session_scope db_ok (update_status k t now) s)) = Some i'
    \<and> incidents_ok (snd (session_scope db_ok (update_status k t now) s))
    \<and> (i' = i \<or> (lifecycle_step (inc_status i) (inc_status i') \<and> i' = moved i t now))"
proof (cases "session_scope db_ok (update_status k t now) s")
  case (Pair r s')
  show ?thesis
  proof (cases r)
    case (Inl e)
    then have "s' = s" using Pair session.rollback by blast
    then show ?thesis using Pair ok i by simp
  next
    case (Inr i')
    then have "update_status k t now s = Inr (i', s')" using Pair by (simp add: session_scope_eq_Inr)
    then have i': "can_transition (inc_status i) t" "i' = moved i t now" "s' = put_incident i' s"
      using i by (auto simp: update_status_eq)
    have row: "inc_id i = k" "incident_ok i" using incident_row [OF ok i] by simp_all
    have "incident_ok i'" using moved_ok [OF row(2) i'(1)] i'(2) by simp
    then have "incidents_ok s'" unfolding i'(3) by (rule put_incident_ok [OF ok])
    moreover have "get_incident k s' = Some i'" using row(1) i'(2,3) by (simp add: get_put_incident)
    moreover have "lifecycle_step (inc_status i) (inc_status i')"
      using i'(1,2) by (simp add: lifecycle_step_iff)
    ultimately show ?thesis using Pair i'(2) by simp
  qed
qed

text \<open>
  Whatever sequence of updates is requested, an incident only ever moves along the
  lifecycle relation: its final status is reached by a path of legal transitions, its
  timestamps still agree with its status, and once terminal it is never changed again.
\<close>

theorem updates_follow_lifecycle:
  assumes "incidents_ok s" "get_incident k s = Some i"
  shows "\<exists>i' us. get_incident k (run_updates k reqs s) = Some i'
    \<and> lifecycle_path (inc_status i) us (inc_status i') \<and> incident_ok i'
    \<and> (terminal (inc_status i) \<longrightarrow> i' = i)"
  using assms
proof (induction reqs arbitrary: s i)
  case Nil
  then show ?case using incident_row [OF Nil] by (auto intro: lifecycle_path.finish)
next
  case (Cons r reqs)
  obtain t now where r: "r = (t, now)" by (cases r)
  let ?s1 = "snd (session_scope True (update_status k t now) s)"
  obtain i1 where i1: "get_incident k ?s1 = Some i1" "incidents_ok ?s1"
    "i1 = i \<or> (lifecycle_step (inc_status i) (inc_status i1) \<and> i1 = moved i t now)"
    using session_update_status [OF Cons.prems] by blast
  obtain i' us where i': "get_incident k (run_updates k reqs ?s1) = Some i'"
    "lifecycle_path (inc_status i1) us (inc_status i')" "incident_ok i'"
    "terminal (inc_status i1) \<longrightarrow> i' = i1" using Cons.IH [OF i1(2,1)] by blast
  have "i1 = i" if "terminal (inc_status i)"
    using that i1(3) can_transition_not_terminal by (auto simp: lifecycle_step_iff)
  moreover have "\<exists>us. lifecycle_path (inc_status i) us (inc_status i')"
    using i1(3) i'(2) by (auto intro: lifecycle_path.step)
  ultimately show ?case using r i' by auto
qed

subsection \<open>The conditional close\<close>

definition closed_at :: "incident \<Rightarrow> instant \<Rightarrow> incident" where
  "closed_at i now = i\<lparr>inc_status := RESOLVED, inc_updated_at := now, inc_resolved_at := Some now\<rparr>"

lemma closed_at_simps [simp]:
  "inc_id (closed_at i now) = inc_id i" "inc_status (closed_at i now) = RESOLVED"
  "inc_updated_at (closed_at i now) = now" "inc_group_key (closed_at i now) = inc_group_key i"
  "inc_resolved_at (closed_at i now) = Some now"
  "inc_acknowledged_at (closed_at i now) = inc_acknowledged_at i"
  by (simp_all add: closed_at_def)

lemma closed_at_ok [simp]: "incident_ok (closed_at i now)"
  by (simp add: incident_ok_def terminal_iff)

text \<open>
  C38. The auto-close of a stale incident can leave the documented lifecycle: for an incident in
  state \<open>open\<close>, past its time to live, the conditional update reaches \<open>resolved\<close>
  although the transition table forbids that step and \<open>update_status\<close> refuses it.
\<close>

theorem auto_close_bypasses_lifecycle:
  assumes ok: "incidents_ok s" and i: "get_incident k s = Some i" "inc_status i = OPEN"
    and ttl: "1 \<le> ttl" and stale: "inc_updated_at i \<le> now - seconds ttl"
  shows "\<exists>s'. auto_close_if_stale k ttl now (inc_updated_at i) OPEN s = Inr (Some (closed_at i now), s')
     \<and> get_incident k s' = Some (closed_at i now)
     \<and> \<not> lifecycle_step (inc_status i) (inc_status (closed_at i now))
     \<and> update_status k RESOLVED now s = Inl (invalid_transition OPEN RESOLVED)"
  using assms incident_row [OF ok i(1)]
  by (simp add: auto_close_eq closed_at_def get_put_incident lifecycle_step_iff can_transition_def
      update_status_Inl)

text \<open>
  The table invariants survive every operation on existing incidents: one row per id,
  timestamps that agree with the status, and at most one open incident per deduplication group
  are preserved by the status update and by the conditional close, in any unit of work.
\<close>

theorem incident_invariants_preserved:
  assumes "incidents_ok s" "one_open_per_group s"
  shows "(let s' = snd (session_scope db_ok (update_status k t now) s) in incidents_ok s' \<and> one_open_per_group s')
    \<and> (let s' = snd (session_scope db_ok (auto_close_if_stale k ttl now upd st) s) in
         incidents_ok s' \<and> one_open_per_group s')"
proof -
  have close: "incidents_ok s' \<and> one_open_per_group s'"
    if "auto_close_if_stale k ttl now upd st s = Inr (r, s')" for r s'
    using that assms put_incident_ok [OF assms(1) closed_at_ok] put_incident_one_open [OF assms]
    by (auto simp: auto_close_eq closed_at_def split: option.splits if_splits)
  have update: "incidents_ok s' \<and> one_open_per_group s'"
    if "update_status k t now s = Inr (r, s')" for r s'
    using that incident_row [OF assms(1)] moved_ok put_incident_ok [OF assms(1)]
      put_incident_one_open [OF assms] can_transition_not_open
    by (auto simp: update_status_eq)
  show ?thesis
    using session_invariant [of "update_status k t now" s "\<lambda>s. incidents_ok s \<and> one_open_per_group s" db_ok]
      session_invariant [of "auto_close_if_stale k ttl now upd st" s "\<lambda>s. incidents_ok s \<and> one_open_per_group s" db_ok]
      assms close update
    by (auto simp: Let_def)
qed

subsection \<open>Creation\<close>

lemma create_incident_eq:
  "create_incident a sev g t s = Inr (i, s') \<longleftrightarrow>
     (\<exists>k. get_alert_row a s \<noteq> None \<and> next_incident_id t s = Inr k \<and> k \<notin> fst ` set (st_incidents s)
        \<and> a \<notin> inc_primary_alert_id ` set (rows (st_incidents s)) \<and> i = new_incident k a sev g t
        \<and> s' = set_alert a (\<lambda>r. r\<lparr>al_incident_id := Some k\<rparr>) (s\<lparr>st_incidents := st_incidents s @ [(k, i)]\<rparr>))"
  by (auto simp: create_incident_def Let_def split: sum.splits if_splits)

lemma create_incident_run:
  "get_alert_row a s \<noteq> None \<Longrightarrow> next_incident_id t s = Inr k \<Longrightarrow>
     create_incident a sev g t s =
       (if k \<notin> fst ` set (st_incidents s) \<and> a \<notin> inc_primary_alert_id ` set (rows (st_incidents s))
        then Inr (new_incident k a sev g t,
          set_alert a (\<lambda>r. r\<lparr>al_incident_id := Some k\<rparr>)
            (s\<lparr>st_incidents := st_incidents s @ [(k, new_incident k a sev g t)]\<rparr>))
        else Inl SQLAlchemyError)"
  by (auto simp: create_incident_def Let_def db_bind_def db_run)

lemma new_incident_simps [simp]:
  "inc_id (new_incident k a sev g t) = k" "inc_status (new_incident k a sev g t) = OPEN"
  "inc_group_key (new_incident k a sev g t) = g" "inc_severity (new_incident k a sev g t) = sev"
  "inc_primary_alert_id (new_incident k a sev g t) = a"
  "incident_ok (new_incident k a sev g t)"
  by (simp_all add: new_incident_def incident_ok_def terminal_iff)

lemma incidents_ok_add:
  "incidents_ok s \<Longrightarrow> k \<notin> fst ` set (st_incidents s) \<Longrightarrow>
     incidents_ok (s\<lparr>st_incidents := st_incidents s @ [(k, new_incident k a sev g t)]\<rparr>)"
  by (auto simp: incidents_ok_def)

lemma one_open_add:
  "one_open_per_group s \<Longrightarrow> (\<forall>(_, i) \<in> set (st_incidents s). \<not> (inc_status i = OPEN \<and> inc_group_key i = g)) \<Longrightarrow>
     one_open_per_group (s\<lparr>st_incidents := st_incidents s @ [(k, new_incident k a sev g t)]\<rparr>)"
  by (fastforce simp: one_open_per_group_def)

text \<open>The ids of one UTC day.\<close>

definition day_numbered :: "instant \<Rightarrow> nat \<Rightarrow> store \<Rightarrow> bool" where
  "day_numbered t n s = numbered (incident_prefix t) (map fst (st_incidents s)) n"

lemma incident_prefix_dash: "incident_prefix t = (''INC-'' @ date_str t) @ ''-''"
  by (simp add: incident_prefix_def)

lemma starts_with_append [simp]: "starts_with p (p @ s)"
  by (simp add: starts_with_def)

lemma numbered_snoc:
  "numbered p ids n \<Longrightarrow> numbered p (ids @ [p @ seq_suffix (n + 1)]) (n + 1)"
  by (simp add: numbered_def atLeastAtMostSuc_conv insert_commute)

text \<open>
  Incident ids are sequential per UTC day: if the day has the incidents 1 to \<open>n\<close>, below
  10000, creating one for a stored alert that is not yet a primary alert succeeds with number
  \<open>n + 1\<close>, which no incident has; the incident is open, the alert is linked to it, and the
  day then has the incidents 1 to \<open>n + 1\<close>.
\<close>

theorem create_incident_sequential:
  assumes num: "day_numbered t n s" and n: "n < 10000"
    and alert: "get_alert_row a s = Some row"
    and unused: "a \<notin> inc_primary_alert_id ` set (rows (st_incidents s))"
  shows "\<exists>i s'. create_incident a sev g t s = Inr (i, s')
     \<and> inc_id i = incident_prefix t @ seq_suffix (n + 1) \<and> inc_id i \<notin> fst ` set (st_incidents s)
     \<and> inc_status i = OPEN \<and> get_incident (inc_id i) s' = Some i
     \<and> get_alert_row a s' = Some (row\<lparr>al_incident_id := Some (inc_id i)\<rparr>)
     \<and> day_numbered t (n + 1) s'"
proof -
  let ?p = "incident_prefix t"
  let ?k = "?p @ seq_suffix (n + 1)"
  have fetched: "next_incident_id t s = Inr ?k"
    using next_seq_id_numbered [of "''INC-'' @ date_str t"] num n
    by (simp add: next_incident_id_def day_numbered_def incident_prefix_dash)
  have fresh: "?k \<notin> fst ` set (st_incidents s)"
  proof
    assume "?k \<in> fst ` set (st_incidents s)"
    then have "?k \<in> set (filter (starts_with ?p) (map fst (st_incidents s)))" by simp
    then obtain j where "j \<in> {1..n}" "?k = ?p @ seq_suffix j"
      using num unfolding day_numbered_def numbered_def by blast
    then show False using seq_suffix_inject_fresh [OF n, of j] by simp
  qed
  let ?i = "new_incident ?k a sev g t"
  let ?s' = "set_alert a (\<lambda>r. r\<lparr>al_incident_id := Some ?k\<rparr>) (s\<lparr>st_incidents := st_incidents s @ [(?k, ?i)]\<rparr>)"
  have "create_incident a sev g t s = Inr (?i, ?s')"
    using create_incident_run [of a s t ?k sev g] alert fetched fresh unused by simp
  moreover have "get_incident ?k ?s' = Some ?i"
    using map_of_snoc_new [OF fresh] by (simp add: get_incident_def)
  moreover have "get_alert_row a ?s' = Some (row\<lparr>al_incident_id := Some ?k\<rparr>)"
    using alert by (simp add: get_alert_row_def map_of_set_alert)
  moreover have "day_numbered t (n + 1) ?s'"
    using numbered_snoc [OF num [unfolded day_numbered_def]] by (simp add: day_numbered_def)
  ultimately show ?thesis using fresh by fastforce
qed

text \<open>
  C34. The id scheme breaks after 10000 incidents in a day: the largest id is chosen as a
  string, so the next id is number 10000 again and every further creation that day fails on
  the primary key.
\<close>

theorem incident_ids_exhausted:
  assumes num: "day_numbered t 10000 s" and alert: "get_alert_row a s \<noteq> None"
  shows "create_incident a sev g t s = Inl SQLAlchemyError"
proof -
  let ?k = "incident_prefix t @ seq_suffix 10000"
  have "next_incident_id t s = Inr ?k \<and> ?k \<in> fst ` set (st_incidents s)"
    using next_seq_id_repeats [of "''INC-'' @ date_str t" "map fst (st_incidents s)"] num
    by (simp add: next_incident_id_def day_numbered_def incident_prefix_dash)
  then show ?thesis using create_incident_run [of a s t ?k sev g] alert by simp
qed

subsection \<open>Witnesses\<close>

definition sample_alert_row :: alert_row where
  "sample_alert_row = \<lparr>al_id = 1, al_source = ''wazuh'', al_received_at = 0, al_group_key = ''g'',
     al_event_identity = ''e1'', al_rule_id = ''5710'', al_rule_level = 5, al_agent_id = ''001'',
     al_agent_name = ''web'', al_payload = sample_canonical 1 0, al_incident_id = None,
     al_created_at = 0\<rparr>"

definition sample_incident :: incident where
  "sample_incident = new_incident ''INC-1970-01-01-0001'' 1 SEV2 ''g'' 0"

definition sample_store :: store where
  "sample_store = empty_store\<lparr>st_alerts := [(1, sample_alert_row), (2, sample_alert_row\<lparr>al_id := 2\<rparr>)],
     st_incidents := [(''INC-1970-01-01-0001'', sample_incident)]\<rparr>"

lemma sample_incidents_ok: "incidents_ok sample_store" "one_open_per_group sample_store"
  by (simp_all add: incidents_ok_def one_open_per_group_def sample_store_def sample_incident_def)

lemma sample_get: "get_incident ''INC-1970-01-01-0001'' sample_store = Some sample_incident"
  by (simp add: get_incident_def sample_store_def)

lemma sample_open [simp]: "inc_status sample_incident = OPEN" "inc_updated_at sample_incident = 0"
  by (simp_all add: sample_incident_def new_incident_def)

theorem update_status_implements_table_witness:
  "update_status ''INC-1970-01-01-0001'' RESOLVED 5 sample_store = Inl (invalid_transition OPEN RESOLVED)
   \<and> (\<exists>i' s'. update_status ''INC-1970-01-01-0001'' ACKNOWLEDGED 5 sample_store = Inr (i', s')
        \<and> inc_acknowledged_at i' = Some 5 \<and> inc_status i' = ACKNOWLEDGED)"
  using update_status_implements_table [OF sample_incidents_ok(1), of "''INC-1970-01-01-0001''" RESOLVED 5]
    update_status_implements_table [OF sample_incidents_ok(1), of "''INC-1970-01-01-0001''" ACKNOWLEDGED 5]
  by (auto simp: sample_get split: sum.splits)

theorem updates_follow_lifecycle_witness:
  "\<exists>i' us. get_incident ''INC-1970-01-01-0001'' (run_updates ''INC-1970-01-01-0001''
        [(RESOLVED, 1), (ESCALATED, 2), (RESOLVED, 3), (OPEN, 4)] sample_store) = Some i'
     \<and> lifecycle_path OPEN us (inc_status i')"
  using updates_follow_lifecycle [OF sample_incidents_ok(1) sample_get,
      of "[(RESOLVED, 1), (ESCALATED, 2), (RESOLVED, 3), (OPEN, 4)]"]
  by (simp del: run_updates.simps) blast

theorem auto_close_bypasses_lifecycle_witness:
  "\<exists>s'. auto_close_if_stale ''INC-1970-01-01-0001'' 1 2000000 0 OPEN sample_store
     = Inr (Some (closed_at sample_incident 2000000), s')"
  using auto_close_bypasses_lifecycle [OF sample_incidents_ok(1) sample_get, of 1 2000000]
  by (simp add: seconds_def us_per_second_def) blast

theorem incident_invariants_preserved_witness:
  "incidents_ok (snd (session_scope True (update_status ''INC-1970-01-01-0001'' ESCALATED 5) sample_store))"
  using incident_invariants_preserved [OF sample_incidents_ok, of True "''INC-1970-01-01-0001''" ESCALATED 5]
  by (simp add: Let_def)

lemma date_str_0: "date_str 0 = ''1970-01-01''"
  by code_simp

lemma sample_numbered: "day_numbered 0 1 sample_store"
proof -
  have "seq_suffix 1 = ''0001''" by (simp add: seq_suffix_four digit_char_table)
  then show ?thesis
    by (simp add: day_numbered_def numbered_def sample_store_def incident_prefix_def date_str_0
        starts_with_def)
qed

theorem create_incident_sequential_witness:
  "\<exists>i s'. create_incident 2 SEV1 ''h'' 0 sample_store = Inr (i, s')
     \<and> inc_id i = incident_prefix 0 @ seq_suffix 2 \<and> day_numbered 0 2 s'"
proof -
  have alert: "get_alert_row 2 sample_store = Some (sample_alert_row\<lparr>al_id := 2\<rparr>)"
    by (simp add: get_alert_row_def sample_store_def)
  have unused: "2 \<notin> inc_primary_alert_id ` set (rows (st_incidents sample_store))"
    by (simp add: rows_def sample_store_def sample_incident_def)
  show ?thesis
    using create_incident_sequential [OF sample_numbered _ alert unused, of SEV1 "''h''"]
    by (auto simp: numeral_2_eq_2)
qed

definition exhausted_store :: store where
  "exhausted_store = sample_store\<lparr>st_incidents :=
     map (\<lambda>n. (incident_prefix 0 @ seq_suffix n, sample_incident)) [1..<10001]\<rparr>"

theorem incident_ids_exhausted_witness:
  "create_incident 2 SEV1 ''h'' 0 exhausted_store = Inl SQLAlchemyError"
proof -
  have "map fst (st_incidents exhausted_store) = map (\<lambda>n. incident_prefix 0 @ seq_suffix n) [1..<10001]"
    by (simp only: exhausted_store_def) (simp del: upt_rec_numeral upt_Suc add: comp_def)
  moreover have "{1..<10001} = {1..10000::nat}" by auto
  ultimately have num: "day_numbered 0 10000 exhausted_store"
    unfolding day_numbered_def numbered_def by (auto simp del: upt_rec_numeral)
  have "get_alert_row 2 exhausted_store \<noteq> None"
    by (simp del: upt_rec_numeral add: get_alert_row_def exhausted_store_def sample_store_def)
  then show ?thesis using incident_ids_exhausted [OF num] by simp
qed

end
