(* ===== verification/Assessment.thy ===== *)
theory Assessment
  imports Incident_Facts
begin

text \<open>
  \<open>persist_assessment\<close> (services/assessment_persistence.py): the score, the decision, their
  audit entries and the incident linkage of one alert, in one unit of work.
\<close>

definition link_incident ::
  "uuid \<Rightarrow> decision \<Rightarrow> string \<Rightarrow> instant \<Rightarrow> string option db" where
  "link_incident alert_id decision group_key occurred_at =
     (if d_action decision = OPEN_INCIDENT then
        db_bind (db_read (open_for_group group_key)) (\<lambda>existing.
          case existing of
            None \<Rightarrow>
              (case d_severity decision of
                 None \<Rightarrow> db_raise ValueError
               | Some severity \<Rightarrow>
                   db_bind (create_incident alert_id severity group_key occurred_at) (\<lambda>i.
                   db_bind (audit_append (audit_entries_for_incident i) occurred_at) (\<lambda>_.
                     db_return (Some (inc_id i)))))
          | Some i \<Rightarrow>
              db_bind (attach alert_id (inc_id i)) (\<lambda>_. db_return (Some (inc_id i))))
      else db_return None)"

definition assessment_body ::
  "uuid \<Rightarrow> canonical_alert \<Rightarrow> risk_assessment \<Rightarrow> decision \<Rightarrow> string \<Rightarrow> instant
    \<Rightarrow> risk_assessment option \<Rightarrow> decision option \<Rightarrow> string option db" where
  "assessment_body alert_id canonical risk decision group_key occurred_at prev_risk prev_decision =
     db_bind (update_normalized_payload alert_id canonical) (\<lambda>_.
     db_bind (audit_append (audit_entries_for_assessment alert_id risk decision prev_risk prev_decision)
                occurred_at) (\<lambda>_.
       link_incident alert_id decision group_key occurred_at))"

text \<open>The result: the incident id, and whether the assessment was persisted.\<close>

definition persist_assessment ::
  "bool \<Rightarrow> uuid \<Rightarrow> canonical_alert \<Rightarrow> risk_assessment \<Rightarrow> decision \<Rightarrow> string \<Rightarrow> instant
    \<Rightarrow> risk_assessment option \<Rightarrow> decision option \<Rightarrow> store
    \<Rightarrow> (py_exn + string option \<times> bool) \<times> store" where
  "persist_assessment db_ok alert_id canonical risk decision group_key occurred_at prev_risk prev_decision s =
     (case session_scope db_ok (assessment_body alert_id canonical risk decision group_key occurred_at
              prev_risk prev_decision) s of
        (Inr incident_id, s') \<Rightarrow> (Inr (incident_id, True), s')
      | (Inl e, s') \<Rightarrow> if e = SQLAlchemyError then (Inr (None, False), s') else (Inl e, s'))"

subsection \<open>The open incident of a group\<close>

lemma open_for_group_Some:
  assumes "open_for_group g s = Some i" "incidents_ok s"
  shows "inc_group_key i = g \<and> inc_status i = OPEN \<and> get_incident (inc_id i) s = Some i"
proof -
  let ?is = "filter (\<lambda>i. inc_group_key i = g \<and> inc_status i = OPEN) (rows (st_incidents s))"
  obtain xs where "sort_key (\<lambda>i. (inc_created_at i, inc_id i)) ?is = i # xs"
    using assms(1) by (auto simp: open_for_group_def split: list.splits)
  then have "i \<in> set (sort_key (\<lambda>i. (inc_created_at i, inc_id i)) ?is)"
    by (simp only: list.set_intros)
  then obtain k where "(k, i) \<in> set (st_incidents s)" "inc_group_key i = g" "inc_status i = OPEN"
    by (auto simp: rows_def)
  with assms(2) show ?thesis by (auto simp: incidents_ok_def get_incident_def)
qed

lemma open_for_group_None:
  "open_for_group g s = None \<longleftrightarrow>
     (\<forall>(_, i) \<in> set (st_incidents s). \<not> (inc_status i = OPEN \<and> inc_group_key i = g))"
proof -
  let ?is = "filter (\<lambda>i. inc_group_key i = g \<and> inc_status i = OPEN) (rows (st_incidents s))"
  have "open_for_group g s = None \<longleftrightarrow> sort_key (\<lambda>i. (inc_created_at i, inc_id i)) ?is = []"
    unfolding open_for_group_def by (cases "sort_key (\<lambda>i. (inc_created_at i, inc_id i)) ?is") simp_all
  also have "\<dots> \<longleftrightarrow> ?is = []"
    using length_sort [of "\<lambda>i. (inc_created_at i, inc_id i)" ?is]
    by (simp only: length_0_conv [symmetric] length_sort)
  also have "\<dots> \<longleftrightarrow> (\<forall>(_, i) \<in> set (st_incidents s). \<not> (inc_status i = OPEN \<and> inc_group_key i = g))"
    by (auto simp: filter_empty_conv rows_def)
  finally show ?thesis .
qed

lemma open_for_group_frame: "st_incidents s' = st_incidents s \<Longrightarrow> open_for_group g s' = open_for_group g s"
  by (simp add: open_for_group_def)

lemma incidents_frame:
  "st_incidents s' = st_incidents s \<Longrightarrow>
     incidents_ok s' = incidents_ok s \<and> one_open_per_group s' = one_open_per_group s
     \<and> get_incident k s' = get_incident k s"
  by (simp add: incidents_ok_def one_open_per_group_def get_incident_def)

lemma attach_eq:
  "attach a k s = Inr (u, s') \<longleftrightarrow> get_incident k s \<noteq> None \<and> get_alert_row a s \<noteq> None
     \<and> s' = set_alert a (\<lambda>r. r\<lparr>al_incident_id := Some k\<rparr>) s"
  by (auto simp: attach_def link_alert_def split: if_splits)

subsection \<open>What a successful assessment did\<close>

text \<open>The store after the score and its two audit entries.\<close>

definition scored_store ::
  "uuid \<Rightarrow> canonical_alert \<Rightarrow> risk_assessment \<Rightarrow> decision \<Rightarrow> instant
    \<Rightarrow> risk_assessment option \<Rightarrow> decision option \<Rightarrow> store \<Rightarrow> store" where
  "scored_store a c risk d t pr pd s =
     fold (audit_append_one t) (audit_entries_for_assessment a risk d pr pd)
       (set_alert a (\<lambda>r. r\<lparr>al_payload := c\<rparr>) s)"

lemma scored_store_simps [simp]:
  "st_incidents (scored_store a c risk d t pr pd s) = st_incidents s"
  "st_contexts (scored_store a c risk d t pr pd s) = st_contexts s"
  "st_members (scored_store a c risk d t pr pd s) = st_members s"
  "st_groups (scored_store a c risk d t pr pd s) = st_groups s"
  "st_events (scored_store a c risk d t pr pd s) = st_events s"
  "get_alert_row u (scored_store a c risk d t pr pd s) =
     (if u = a then map_option (\<lambda>r. r\<lparr>al_payload := c\<rparr>) (get_alert_row a s) else get_alert_row u s)"
  "audit_of (scored_store a c risk d t pr pd s) =
     audit_of s @ map (Pair t) (audit_entries_for_assessment a risk d pr pd)"
  by (simp_all add: scored_store_def get_alert_row_def map_of_set_alert)
     (simp add: audit_of_def)

lemma assessment_body_eq:
  "assessment_body a c risk d g t pr pd s = Inr (r, s') \<longleftrightarrow>
     get_alert_row a s \<noteq> None \<and> link_incident a d g t (scored_store a c risk d t pr pd s) = Inr (r, s')"
  by (auto simp: assessment_body_def update_normalized_payload_eq scored_store_def)

lemma assessment_cases:
  assumes run: "assessment_body a c risk d g t pr pd s = Inr (r, s')"
  obtains (no_incident) "d_action d \<noteq> OPEN_INCIDENT" "r = None" "s' = scored_store a c risk d t pr pd s"
  | (attached) i where "d_action d = OPEN_INCIDENT" "open_for_group g s = Some i" "r = Some (inc_id i)"
      "get_incident (inc_id i) s \<noteq> None"
      "s' = set_alert a (\<lambda>x. x\<lparr>al_incident_id := Some (inc_id i)\<rparr>) (scored_store a c risk d t pr pd s)"
  | (created) k sev i s1 where "d_action d = OPEN_INCIDENT" "open_for_group g s = None"
      "d_severity d = Some sev" "i = new_incident k a sev g t" "r = Some k"
      "k \<notin> fst ` set (st_incidents s)"
      "s1 = set_alert a (\<lambda>x. x\<lparr>al_incident_id := Some k\<rparr>)
         ((scored_store a c risk d t pr pd s)\<lparr>st_incidents := st_incidents s @ [(k, i)]\<rparr>)"
      "s' = fold (audit_append_one t) (audit_entries_for_incident i) s1"
proof (cases "d_action d = OPEN_INCIDENT")
  case False
  then show ?thesis using run no_incident by (simp add: assessment_body_eq link_incident_def)
next
  case True
  let ?s1 = "scored_store a c risk d t pr pd s"
  have og: "open_for_group g ?s1 = open_for_group g s" by (rule open_for_group_frame) simp
  show ?thesis
  proof (cases "open_for_group g s")
    case None
    then show ?thesis
      using run True og created
      by (auto simp: assessment_body_eq link_incident_def create_incident_eq split: option.splits)
  next
    case (Some i)
    then show ?thesis
      using run True og attached
      by (auto simp: assessment_body_eq link_incident_def attach_eq get_incident_def)
  qed
qed

lemma persist_assessment_cases:
  assumes run: "persist_assessment db_ok a c risk d g t pr pd s = (res, s')"
  obtains (persisted) r where "res = Inr (r, True)" "assessment_body a c risk d g t pr pd s = Inr (r, s')"
  | (storage_failed) "res = Inr (None, False)" "s' = s"
  | (raised) e where "res = Inl e" "s' = s" "e \<noteq> SQLAlchemyError"
      "assessment_body a c risk d g t pr pd s = Inl e"
proof -
  obtain r s1 where r: "session_scope db_ok (assessment_body a c risk d g t pr pd) s = (r, s1)"
    by (cases "session_scope db_ok (assessment_body a c risk d g t pr pd) s")
  show ?thesis
  proof (cases r)
    case (Inl e)
    then have "s1 = s" using r session.rollback by blast
    then show ?thesis using run r Inl storage_failed raised
      by (auto simp: persist_assessment_def session_scope_eq_Inl split: if_splits)
  next
    case (Inr x)
    then show ?thesis using run r persisted
      by (auto simp: persist_assessment_def session_scope_eq_Inr)
  qed
qed

subsection \<open>Properties\<close>

text \<open>
  C31. An assessment is all or nothing: when the call does not report success, whether it returns
  the failure result or raises, the store is exactly what it was; when it does, the alert of
  record carries the new payload and the audit log has grown by the two assessment entries,
  followed by the creation entry exactly when a new incident was opened.
\<close>

theorem assessment_all_or_nothing:
  assumes run: "persist_assessment db_ok a c risk d g t pr pd s = (res, s')"
  shows "case res of
      Inl e \<Rightarrow> s' = s
    | Inr (r, False) \<Rightarrow> s' = s \<and> r = None
    | Inr (r, True) \<Rightarrow> map_option al_payload (get_alert_row a s') = Some c
        \<and> (\<exists>new. audit_of s' = audit_of s
             @ map (Pair t) (audit_entries_for_assessment a risk d pr pd @ concat (map audit_entries_for_incident new))
           \<and> map snd (st_incidents s') = map snd (st_incidents s) @ new \<and> length new \<le> 1)"
  using run
proof (cases rule: persist_assessment_cases)
  case (persisted r)
  have row: "get_alert_row a s \<noteq> None" using persisted(2) by (simp add: assessment_body_eq)
  have rowset: "get_alert_row a (set_alert a f x) = map_option f (get_alert_row a x)" for f x
    by (simp add: get_alert_row_def map_of_set_alert)
  have frame: "st_alerts x = st_alerts y \<Longrightarrow> get_alert_row a x = get_alert_row a y" for x y
    by (simp add: get_alert_row_def)
  have au: "audit_of (set_alert u f x) = audit_of x" "audit_of (x\<lparr>st_incidents := l\<rparr>) = audit_of x" for u f x l
    by (simp_all add: audit_of_def)
  from persisted(2) show ?thesis
  proof (cases rule: assessment_cases)
    case no_incident
    then show ?thesis using row persisted(1) by (auto intro!: exI [of _ "[]"])
  next
    case (attached i)
    then show ?thesis using row persisted(1) by (auto simp: rowset au intro!: exI [of _ "[]"])
  next
    case (created k sev i s1)
    have "map_option al_payload (get_alert_row a s') = Some c"
      using row created(7,8) frame [of "(scored_store a c risk d t pr pd s)\<lparr>st_incidents := st_incidents s @ [(k, i)]\<rparr>" "scored_store a c risk d t pr pd s"]
        frame [of s' s1] by (auto simp: rowset)
    then show ?thesis using created persisted(1) by (auto simp: au intro!: exI [of _ "[i]"])
  qed
qed simp_all

lemma assessment_keeps_incidents:
  assumes ok: "incidents_ok s" "one_open_per_group s"
  shows "incidents_ok (snd (persist_assessment db_ok a c risk d g t pr pd s))
    \<and> one_open_per_group (snd (persist_assessment db_ok a c risk d g t pr pd s))"
proof (cases "persist_assessment db_ok a c risk d g t pr pd s")
  case (Pair res s')
  then show ?thesis
  proof (cases rule: persist_assessment_cases)
    case (persisted r)
    from persisted(2) have "incidents_ok s' \<and> one_open_per_group s'"
    proof (cases rule: assessment_cases)
      case no_incident
      then show ?thesis using ok incidents_frame [of s' s] by simp
    next
      case (attached i)
      then show ?thesis using ok incidents_frame [of s' s] by simp
    next
      case (created k sev i s1)
      have inc: "st_incidents s' = st_incidents (s\<lparr>st_incidents := st_incidents s @ [(k, i)]\<rparr>)"
        using created(7,8) by simp
      have "\<forall>(_, i) \<in> set (st_incidents s). \<not> (inc_status i = OPEN \<and> inc_group_key i = g)"
        using created(2) by (simp only: open_for_group_None)
      then show ?thesis
        using incidents_ok_add [OF ok(1) created(6)] one_open_add [OF ok(2)] incidents_frame [OF inc] created(4)
        by simp
    qed
    then show ?thesis using Pair by simp
  qed (use Pair ok in simp_all)
qed

text \<open>
  C12. Deduplication groups have at most one open incident: the invariants of the incident table
  and the uniqueness of the open incident per group survive every assessment, successful or
  not.
\<close>

theorem assessment_keeps_one_open_incident:
  assumes ok: "incidents_ok s" "one_open_per_group s"
  shows "incidents_ok (snd (persist_assessment db_ok a c risk d g t pr pd s))
    \<and> one_open_per_group (snd (persist_assessment db_ok a c risk d g t pr pd s))"
  using assms by (rule assessment_keeps_incidents)

text \<open>
  An \<open>open_incident\<close> decision that is persisted always leaves its alert linked to the open
  incident of its group: the existing one, with no second incident created, or a new one with
  the decided severity and this alert as its primary.
\<close>

theorem open_decision_links_alert:
  assumes ok: "incidents_ok s" and d: "d_action d = OPEN_INCIDENT"
    and run: "persist_assessment db_ok a c risk d g t pr pd s = (Inr (r, True), s')"
  shows "\<exists>k i. r = Some k \<and> get_incident k s' = Some i \<and> inc_group_key i = g \<and> inc_status i = OPEN
    \<and> map_option al_incident_id (get_alert_row a s') = Some (Some k)
    \<and> (case open_for_group g s of
         Some j \<Rightarrow> i = j \<and> st_incidents s' = st_incidents s
       | None \<Rightarrow> get_incident k s = None \<and> inc_primary_alert_id i = a \<and> d_severity d = Some (inc_severity i))"
proof -
  have body: "assessment_body a c risk d g t pr pd s = Inr (r, s')"
    using run by (cases rule: persist_assessment_cases) auto
  have row: "get_alert_row a s \<noteq> None" using body by (simp add: assessment_body_eq)
  have rowset: "get_alert_row a (set_alert a f x) = map_option f (get_alert_row a x)" for f x
    by (simp add: get_alert_row_def map_of_set_alert)
  have upd: "get_alert_row a (x\<lparr>st_incidents := l\<rparr>) = get_alert_row a x" for x l
    by (simp add: get_alert_row_def)
  from body show ?thesis
  proof (cases rule: assessment_cases)
    case no_incident
    then show ?thesis using d by simp
  next
    case (attached i)
    have "get_incident (inc_id i) s' = Some i"
      using open_for_group_Some [OF attached(2) ok] attached(5) by (simp add: get_incident_def)
    then show ?thesis
      using attached row open_for_group_Some [OF attached(2) ok] by (auto simp: rowset)
  next
    case (created k sev i s1)
    have inc: "st_incidents s' = st_incidents s @ [(k, i)]" using created(7,8) by simp
    have "get_incident k s' = Some i" "get_incident k s = None"
      using map_of_snoc_new [OF created(6)] created(6) by (simp_all add: get_incident_def inc map_of_eq_None_iff)
    moreover have "get_alert_row a s' = get_alert_row a s1"
      by (simp add: created(8) get_alert_row_def)
    moreover have "get_alert_row a s1 = map_option (\<lambda>x. x\<lparr>al_incident_id := Some k\<rparr>)
        (get_alert_row a (scored_store a c risk d t pr pd s))"
      by (simp only: created(7) rowset upd)
    moreover have "get_alert_row a (scored_store a c risk d t pr pd s) \<noteq> None" using row by simp
    ultimately have "get_incident k s' = Some i \<and> get_incident k s = None
        \<and> map_option al_incident_id (get_alert_row a s') = Some (Some k)"
      by auto
    then show ?thesis using created(2-5) by simp
  qed
qed

text \<open>
  An \<open>open_incident\<close> decision without a severity is never persisted in a group with no open
  incident: the call raises \<open>ValueError\<close>, which is not among the errors it turns into a
  result, and the score and the audit entries written before it are rolled back.
\<close>

theorem severity_missing_loses_assessment:
  assumes "d_action d = OPEN_INCIDENT" "d_severity d = None" "open_for_group g s = None"
    and "get_alert_row a s \<noteq> None"
  shows "persist_assessment db_ok a c risk d g t pr pd s = (Inl ValueError, s)"
proof -
  have og: "open_for_group g (scored_store a c risk d t pr pd s) = None"
    using assms(3) open_for_group_frame [of "scored_store a c risk d t pr pd s" s] by simp
  have "assessment_body a c risk d g t pr pd s
      = link_incident a d g t (scored_store a c risk d t pr pd s)"
    using assms(4)
    by (auto simp: assessment_body_def update_normalized_payload_def scored_store_def db_bind_def db_run
        audit_append_def)
  also have "\<dots> = Inl ValueError"
    using assms(1,2) og by (simp add: link_incident_def db_bind_def db_run)
  finally show ?thesis by (simp add: persist_assessment_def session_scope_def)
qed

subsection \<open>Witnesses\<close>

definition sample_risk :: risk_assessment where
  "sample_risk = \<lparr>r_score = 70, r_tier = HIGH, r_engine_version = ''v1'', r_factors = [],
     r_summary = ''high'', r_degraded = False\<rparr>"

definition sample_decision :: decision where
  "sample_decision = \<lparr>d_action = OPEN_INCIDENT, d_severity = Some SEV2, d_reasons = [],
     d_runbook = None, d_decided_at = 0\<rparr>"

lemma sample_open_for_group: "open_for_group ''g'' sample_store = Some sample_incident"
  by (simp add: open_for_group_def rows_def sample_store_def sample_incident_def new_incident_def)

lemma sample_assessment:
  "\<exists>s'. persist_assessment True 2 (sample_canonical 2 5) sample_risk sample_decision ''g'' 5 None None sample_store
     = (Inr (Some ''INC-1970-01-01-0001'', True), s')"
proof -
  have "get_alert_row 2 sample_store \<noteq> None" by (simp add: get_alert_row_def sample_store_def)
  moreover have "open_for_group ''g'' (scored_store 2 (sample_canonical 2 5) sample_risk sample_decision 5 None None sample_store)
      = Some sample_incident"
    using sample_open_for_group open_for_group_frame [of "scored_store 2 (sample_canonical 2 5) sample_risk sample_decision 5 None None sample_store" sample_store]
    by simp
  moreover have "inc_id sample_incident = ''INC-1970-01-01-0001''" by (simp add: sample_incident_def)
  ultimately have "\<exists>s'. assessment_body 2 (sample_canonical 2 5) sample_risk sample_decision ''g'' 5 None None sample_store
      = Inr (Some ''INC-1970-01-01-0001'', s')"
    using sample_get
    by (auto simp: assessment_body_eq link_incident_def sample_decision_def attach_eq get_incident_def)
  then show ?thesis by (auto simp: persist_assessment_def session_scope_def)
qed

theorem assessment_all_or_nothing_witness:
  "\<exists>s'. persist_assessment True 2 (sample_canonical 2 5) sample_risk sample_decision ''g'' 5 None None sample_store
      = (Inr (Some ''INC-1970-01-01-0001'', True), s')
    \<and> map_option al_payload (get_alert_row 2 s') = Some (sample_canonical 2 5)"
proof -
  obtain s' where s': "persist_assessment True 2 (sample_canonical 2 5) sample_risk sample_decision ''g'' 5 None None sample_store
     = (Inr (Some ''INC-1970-01-01-0001'', True), s')" using sample_assessment by blast
  then show ?thesis using assessment_all_or_nothing [OF s'] by simp
qed

theorem assessment_keeps_one_open_incident_witness:
  "one_open_per_group (snd (persist_assessment True 2 (sample_canonical 2 5) sample_risk sample_decision ''g'' 5
      None None sample_store))"
  using assessment_keeps_one_open_incident [OF sample_incidents_ok] by blast

theorem open_decision_links_alert_witness:
  "\<exists>s'. persist_assessment True 2 (sample_canonical 2 5) sample_risk sample_decision ''g'' 5 None None sample_store
      = (Inr (Some ''INC-1970-01-01-0001'', True), s')
    \<and> st_incidents s' = st_incidents sample_store
    \<and> map_option al_incident_id (get_alert_row 2 s') = Some (Some ''INC-1970-01-01-0001'')"
proof -
  obtain s' where s': "persist_assessment True 2 (sample_canonical 2 5) sample_risk sample_decision ''g'' 5 None None sample_store
     = (Inr (Some ''INC-1970-01-01-0001'', True), s')" using sample_assessment by blast
  have d: "d_action sample_decision = OPEN_INCIDENT" by (simp add: sample_decision_def)
  show ?thesis
    using open_decision_links_alert [OF sample_incidents_ok(1) d s'] s' by (auto simp: sample_open_for_group)
qed

theorem severity_missing_loses_assessment_witness:
  "persist_assessment True 2 (sample_canonical 2 5) sample_risk (sample_decision\<lparr>d_severity := None\<rparr>) ''h'' 5
     None None sample_store = (Inl ValueError, sample_store)"
  by (rule severity_missing_loses_assessment)
     (simp_all add: sample_decision_def open_for_group_def rows_def sample_store_def sample_incident_def
        get_alert_row_def)

end
