(* ===== verification/Sweeper.thy ===== *)
theory Sweeper
  imports Incident_Facts
begin

text \<open>
  The auto-close sweeper (sweeper.py): \<open>sweep_once\<close> selects a batch of stale incidents and
  closes each in a unit of work of its own. Between two units other components may commit
  (an analyst's update), and a unit may fail in a statement or at its commit; both are
  parameters of the model, one \<open>sweep_env\<close> per candidate.
\<close>

subsection \<open>The sweep\<close>

record sweep_env =
  sw_fate :: db_fate
  sw_others :: "store \<Rightarrow> store"

record sweep_stats =
  sw_candidates :: nat
  sw_closed :: nat
  sw_skipped :: nat
  sw_errors :: nat

definition batch_limit :: int where
  "batch_limit = 500"

definition idle_time :: "instant \<Rightarrow> incident \<Rightarrow> int" where
  "idle_time now candidate = max 0 (now - inc_updated_at candidate)"

definition close_unit :: "int \<Rightarrow> instant \<Rightarrow> incident \<Rightarrow> incident option db" where
  "close_unit ttl now candidate =
     db_bind (auto_close_if_stale (inc_id candidate) ttl now (inc_updated_at candidate)
                (inc_status candidate)) (\<lambda>closed.
       case closed of
         None \<Rightarrow> db_return None
       | Some i \<Rightarrow>
           db_bind (audit_append (audit_entries_for_incident_auto_closed i (inc_status candidate) ttl
                      (idle_time now candidate)) now) (\<lambda>_. db_return (Some i)))"

definition count_skipped :: "sweep_stats \<Rightarrow> sweep_stats" where
  "count_skipped st = st\<lparr>sw_skipped := sw_skipped st + 1\<rparr>"

definition count_closed :: "sweep_stats \<Rightarrow> sweep_stats" where
  "count_closed st = st\<lparr>sw_closed := sw_closed st + 1\<rparr>"

definition count_error :: "sweep_stats \<Rightarrow> sweep_stats" where
  "count_error st = st\<lparr>sw_errors := sw_errors st + 1\<rparr>"

text \<open>
  The counters move inside the \<open>with\<close> block, before the commit; an error at the commit is
  then counted as well.
\<close>

definition sweep_candidate ::
  "int \<Rightarrow> instant \<Rightarrow> sweep_env \<Rightarrow> incident \<Rightarrow> sweep_stats \<times> store \<Rightarrow> sweep_stats \<times> store" where
  "sweep_candidate ttl now env candidate p =
     (let (stats, s) = p; s = sw_others env s in
      case (if sw_fate env = Statement_fails then Inl SQLAlchemyError else close_unit ttl now candidate s) of
        Inl e \<Rightarrow> (count_error stats, s)
      | Inr (closed, s') \<Rightarrow>
          let stats = (if closed = None then count_skipped stats else count_closed stats) in
          if sw_fate env = Commit_fails then (count_error stats, s) else (stats, s'))"

definition quiet :: sweep_env where
  "quiet = \<lparr>sw_fate = Accepted, sw_others = (\<lambda>s. s)\<rparr>"

fun next_sweep_env :: "sweep_env list \<Rightarrow> sweep_env" where
  "next_sweep_env [] = quiet"
| "next_sweep_env (e # es) = e"

fun sweep_candidates ::
  "int \<Rightarrow> instant \<Rightarrow> sweep_env list \<Rightarrow> incident list \<Rightarrow> sweep_stats \<times> store \<Rightarrow> sweep_stats \<times> store" where
  "sweep_candidates ttl now envs [] p = p"
| "sweep_candidates ttl now envs (c # cs) p =
     sweep_candidates ttl now (tl envs) cs (sweep_candidate ttl now (next_sweep_env envs) c p)"

definition sweep_once ::
  "int \<Rightarrow> instant \<Rightarrow> bool \<Rightarrow> sweep_env list \<Rightarrow> store \<Rightarrow> (py_exn + sweep_stats) \<times> store" where
  "sweep_once ttl now select_ok envs s =
     (if ttl < 1 then (Inl ValueError, s)
      else
        (case session_scope select_ok (list_incidents_eligible_for_auto_close ttl now batch_limit) s of
           (Inl e, s) \<Rightarrow> (Inl e, s)
         | (Inr cs, s) \<Rightarrow>
             let (stats, s') = sweep_candidates ttl now envs cs
                   (\<lparr>sw_candidates = length cs, sw_closed = 0, sw_skipped = 0, sw_errors = 0\<rparr>, s)
             in (Inr stats, s')))"

subsection \<open>One candidate\<close>

text \<open>
  The condition of the conditional update on a candidate, in the store the unit meets, and what
  the store becomes when it holds.
\<close>

definition still_stale :: "int \<Rightarrow> instant \<Rightarrow> incident \<Rightarrow> store \<Rightarrow> bool" where
  "still_stale ttl now c s =
     (case get_incident (inc_id c) s of
        None \<Rightarrow> False
      | Some i \<Rightarrow> inc_status i = inc_status c \<and> inc_updated_at i = inc_updated_at c
          \<and> inc_updated_at c \<le> now - seconds ttl)"

definition close_entries :: "int \<Rightarrow> instant \<Rightarrow> incident \<Rightarrow> incident \<Rightarrow> audit_entry list" where
  "close_entries ttl now c i =
     audit_entries_for_incident_auto_closed (closed_at i now) (inc_status c) ttl (idle_time now c)"

definition closing :: "int \<Rightarrow> instant \<Rightarrow> incident \<Rightarrow> store \<Rightarrow> store" where
  "closing ttl now c s =
     (case get_incident (inc_id c) s of
        None \<Rightarrow> s
      | Some i \<Rightarrow> fold (audit_append_one now) (close_entries ttl now c i) (put_incident (closed_at i now) s))"

lemma close_unit_run:
  assumes "1 \<le> ttl"
  shows "close_unit ttl now c s =
    (if still_stale ttl now c s
     then Inr (Some (closed_at (the (get_incident (inc_id c) s)) now), closing ttl now c s)
     else Inr (None, s))"
proof (cases "get_incident (inc_id c) s")
  case None
  then have "auto_close_if_stale (inc_id c) ttl now (inc_updated_at c) (inc_status c) s = Inr (None, s)"
    using assms by (simp add: auto_close_eq)
  then show ?thesis using None by (simp add: close_unit_def db_bind_def db_run still_stale_def)
next
  case (Some i)
  show ?thesis
  proof (cases "still_stale ttl now c s")
    case True
    then have "auto_close_if_stale (inc_id c) ttl now (inc_updated_at c) (inc_status c) s
        = Inr (Some (closed_at i now), put_incident (closed_at i now) s)"
      using assms Some by (simp add: auto_close_eq still_stale_def closed_at_def)
    then show ?thesis
      using True Some
      by (simp add: close_unit_def db_bind_def db_run closing_def close_entries_def audit_append_def)
  next
    case False
    then have "auto_close_if_stale (inc_id c) ttl now (inc_updated_at c) (inc_status c) s = Inr (None, s)"
      using assms Some by (auto simp: auto_close_eq still_stale_def)
    then show ?thesis using False by (simp add: close_unit_def db_bind_def db_run)
  qed
qed

lemma sweep_candidate_run:
  assumes "1 \<le> ttl"
  shows "sweep_candidate ttl now env c (stats, s) =
    (let s1 = sw_others env s; hit = still_stale ttl now c s1;
         counted = (if hit then count_closed stats else count_skipped stats)
     in case sw_fate env of
          Accepted \<Rightarrow> (counted, if hit then closing ttl now c s1 else s1)
        | Statement_fails \<Rightarrow> (count_error stats, s1)
        | Commit_fails \<Rightarrow> (count_error counted, s1))"
  by (simp add: sweep_candidate_def close_unit_run [OF assms] Let_def split: db_fate.split)

lemma get_incident_fold_audit [simp]:
  "get_incident k (fold (audit_append_one t) es s) = get_incident k s"
  by (simp add: get_incident_def)

lemma get_closing:
  assumes "incidents_ok s"
  shows "get_incident k (closing ttl now c s) =
    (if k = inc_id c then map_option (\<lambda>i. closed_at i now) (get_incident k s) else get_incident k s)"
proof (cases "get_incident (inc_id c) s")
  case (Some i)
  then have "inc_id i = inc_id c" using incident_row [OF assms Some] by simp
  with Some show ?thesis by (simp add: closing_def get_put_incident)
qed (simp add: closing_def)

lemma closing_ok:
  assumes "incidents_ok s"
  shows "incidents_ok (closing ttl now c s)"
proof (cases "get_incident (inc_id c) s")
  case (Some i)
  have "incidents_ok (put_incident (closed_at i now) s)" by (rule put_incident_ok [OF assms closed_at_ok])
  then show ?thesis
    using Some by (simp add: closing_def incidents_ok_def)
qed (simp add: closing_def assms)

lemma closing_one_open:
  assumes "incidents_ok s" "one_open_per_group s"
  shows "one_open_per_group (closing ttl now c s)"
proof (cases "get_incident (inc_id c) s")
  case (Some i)
  have "one_open_per_group (put_incident (closed_at i now) s)"
    by (rule put_incident_one_open [OF assms]) simp
  then show ?thesis using Some by (simp add: closing_def one_open_per_group_def)
qed (simp add: closing_def assms)

lemma audit_of_put [simp]: "audit_of (put_incident i s) = audit_of s"
  by (simp add: audit_of_def)

text \<open>
  A manual change wins over the sweep: if, when its unit runs, a candidate's status or
  activity timestamp is no longer what the sweep had read, or the incident is gone, the sweep
  leaves the store exactly as the others left it and counts the candidate as skipped.
\<close>

theorem manual_change_wins:
  assumes "1 \<le> ttl" "sw_fate env = Accepted"
    and "\<forall>i. get_incident (inc_id c) (sw_others env s) = Some i \<longrightarrow>
      inc_status i \<noteq> inc_status c \<or> inc_updated_at i \<noteq> inc_updated_at c"
  shows "sweep_candidate ttl now env c (stats, s) = (count_skipped stats, sw_others env s)"
proof -
  have "\<not> still_stale ttl now c (sw_others env s)"
    using assms(3) by (auto simp: still_stale_def split: option.splits)
  then show ?thesis using assms(2) by (simp add: sweep_candidate_run [OF assms(1)] Let_def)
qed

text \<open>
  The log and the counters can disagree with the store: when the commit of a unit fails,
  the incident stays open and unaudited, yet the sweep counts it both as closed (or skipped)
  and as an error.
\<close>

theorem commit_failure_counted_twice:
  assumes "1 \<le> ttl" "sw_fate env = Commit_fails"
  shows "sweep_candidate ttl now env c (stats, s) =
    (count_error (if still_stale ttl now c (sw_others env s) then count_closed stats else count_skipped stats),
     sw_others env s)"
  using assms(2) by (simp add: sweep_candidate_run [OF assms(1)] Let_def)

subsection \<open>A whole sweep\<close>

text \<open>What others commit keeps the table well-formed.\<close>

definition others_ok :: "sweep_env list \<Rightarrow> bool" where
  "others_ok envs = (\<forall>e \<in> set envs. \<forall>s. incidents_ok s \<and> one_open_per_group s \<longrightarrow>
     incidents_ok (sw_others e s) \<and> one_open_per_group (sw_others e s))"

lemma sweep_candidate_ok:
  assumes "1 \<le> ttl" "incidents_ok (sw_others env s)" "one_open_per_group (sw_others env s)"
  shows "incidents_ok (snd (sweep_candidate ttl now env c (stats, s)))
    \<and> one_open_per_group (snd (sweep_candidate ttl now env c (stats, s)))"
  using assms(2,3) closing_ok closing_one_open
  by (cases "sw_fate env") (simp_all add: sweep_candidate_run [OF assms(1)] Let_def)

lemma sweep_candidates_ok:
  assumes "1 \<le> ttl"
  shows "others_ok envs \<Longrightarrow> incidents_ok s \<Longrightarrow> one_open_per_group s \<Longrightarrow>
    incidents_ok (snd (sweep_candidates ttl now envs cs (stats, s)))
    \<and> one_open_per_group (snd (sweep_candidates ttl now envs cs (stats, s)))"
proof (induction cs arbitrary: envs stats s)
  case (Cons c cs)
  obtain st1 s1 where 1: "sweep_candidate ttl now (next_sweep_env envs) c (stats, s) = (st1, s1)"
    by (cases "sweep_candidate ttl now (next_sweep_env envs) c (stats, s)")
  have "incidents_ok (sw_others (next_sweep_env envs) s)" "one_open_per_group (sw_others (next_sweep_env envs) s)"
    using Cons.prems by (cases envs; simp add: others_ok_def quiet_def)+
  from sweep_candidate_ok [OF assms this, of now c stats] 1
  have "incidents_ok s1" "one_open_per_group s1" by simp_all
  moreover have "others_ok (tl envs)" using Cons.prems(1) by (cases envs) (auto simp: others_ok_def)
  ultimately show ?case using Cons.IH [of "tl envs" s1 st1] 1 by simp
qed simp

text \<open>An undisturbed sweep.\<close>

definition sweep_state :: "int \<Rightarrow> instant \<Rightarrow> incident list \<Rightarrow> store \<Rightarrow> store" where
  "sweep_state ttl now cs s = fold (closing ttl now) cs s"

lemma get_closing_other:
  assumes "incidents_ok s" "distinct (map inc_id (c # cs))" "x \<in> set cs"
  shows "get_incident (inc_id x) (closing ttl now c s) = get_incident (inc_id x) s"
proof -
  have "inc_id x \<noteq> inc_id c" using assms(2,3) by (auto simp: image_iff)
  then show ?thesis by (simp only: get_closing [OF assms(1)] if_False)
qed

lemma sweep_quiet:
  assumes "1 \<le> ttl"
  shows "incidents_ok s \<Longrightarrow> distinct (map inc_id cs) \<Longrightarrow>
    (\<forall>c \<in> set cs. get_incident (inc_id c) s = Some c \<and> eligible ttl now c) \<Longrightarrow>
    sweep_candidates ttl now [] cs (stats, s) =
      (stats\<lparr>sw_closed := sw_closed stats + length cs\<rparr>, sweep_state ttl now cs s)"
proof (induction cs arbitrary: stats s)
  case (Cons c cs)
  have "still_stale ttl now c s" using Cons.prems(3) by (simp add: still_stale_def eligible_def)
  then have 1: "sweep_candidate ttl now quiet c (stats, s) = (count_closed stats, closing ttl now c s)"
    by (simp add: sweep_candidate_run [OF assms] Let_def quiet_def)
  have "\<forall>x \<in> set cs. get_incident (inc_id x) (closing ttl now c s) = Some x \<and> eligible ttl now x"
    using Cons.prems(3) get_closing_other [OF Cons.prems(1,2)] by simp
  from Cons.IH [OF closing_ok [OF Cons.prems(1)] _ this, of "count_closed stats"] Cons.prems(2)
  show ?case using 1 by (simp add: sweep_state_def count_closed_def)
qed (simp add: sweep_state_def)

lemma get_sweep_state:
  assumes "incidents_ok s" "distinct (map inc_id cs)"
  shows "get_incident k (sweep_state ttl now cs s) =
    (if k \<in> inc_id ` set cs then map_option (\<lambda>i. closed_at i now) (get_incident k s) else get_incident k s)"
  using assms
proof (induction cs arbitrary: s)
  case (Cons c cs)
  then show ?case
    using closing_ok [OF Cons.prems(1)] by (auto simp: sweep_state_def get_closing)
qed (simp add: sweep_state_def)

lemma audit_sweep_state:
  assumes "incidents_ok s" "distinct (map inc_id cs)" "\<forall>c \<in> set cs. get_incident (inc_id c) s = Some c"
  shows "audit_of (sweep_state ttl now cs s) = audit_of s @ map (Pair now) (concat (map (\<lambda>c. close_entries ttl now c c) cs))"
  using assms
proof (induction cs arbitrary: s)
  case (Cons c cs)
  have "audit_of (closing ttl now c s) = audit_of s @ map (Pair now) (close_entries ttl now c c)"
    using Cons.prems by (simp add: closing_def)
  moreover have "\<forall>x \<in> set cs. get_incident (inc_id x) (closing ttl now c s) = Some x"
    using Cons.prems(3) get_closing_other [OF Cons.prems(1,2)] by simp
  ultimately show ?case
    using Cons.IH [OF closing_ok [OF Cons.prems(1)], of ttl now c] Cons.prems(2)
    by (simp add: sweep_state_def)
qed (simp add: sweep_state_def)

definition stale_incidents :: "int \<Rightarrow> instant \<Rightarrow> store \<Rightarrow> incident list" where
  "stale_incidents ttl now s =
     sort_key (\<lambda>i. (inc_updated_at i, inc_id i)) (filter (eligible ttl now) (rows (st_incidents s)))"

lemma select_batch:
  "1 \<le> ttl \<Longrightarrow> list_incidents_eligible_for_auto_close ttl now batch_limit s
     = Inr (take 500 (stale_incidents ttl now s), s)"
  by (simp add: list_incidents_eligible_for_auto_close_def batch_limit_def stale_incidents_def db_run)

lemma mem_rows: "incidents_ok s \<Longrightarrow> i \<in> set (rows (st_incidents s)) \<longleftrightarrow> get_incident (inc_id i) s = Some i"
  by (force simp: incidents_ok_def rows_def get_incident_def dest: map_of_SomeD)

lemma set_stale: "incidents_ok s \<Longrightarrow> i \<in> set (stale_incidents ttl now s) \<longleftrightarrow>
    get_incident (inc_id i) s = Some i \<and> eligible ttl now i"
  by (auto simp: stale_incidents_def mem_rows)

lemma distinct_stale: "incidents_ok s \<Longrightarrow> distinct (map inc_id (stale_incidents ttl now s))"
proof -
  assume ok: "incidents_ok s"
  have "map inc_id (rows (st_incidents s)) = map fst (st_incidents s)"
    using ok by (auto simp: rows_def incidents_ok_def)
  then have "distinct (map inc_id (rows (st_incidents s)))" using ok by (simp add: incidents_ok_def)
  then have "distinct (map inc_id (filter (eligible ttl now) (rows (st_incidents s))))"
    by (rule distinct_map_filter)
  then show ?thesis
    by (simp add: stale_incidents_def distinct_map)
qed

lemma sweep_once_quiet:
  fixes now :: instant
  assumes ok: "incidents_ok s" and ttl: "1 \<le> ttl"
  defines "cs \<equiv> take 500 (stale_incidents ttl now s)"
  shows "sweep_once ttl now True [] s =
    (Inr \<lparr>sw_candidates = length cs, sw_closed = length cs, sw_skipped = 0, sw_errors = 0\<rparr>,
     sweep_state ttl now cs s)"
proof -
  have "distinct (map inc_id cs)" unfolding cs_def take_map [symmetric] by (rule distinct_take [OF distinct_stale [OF ok]])
  moreover have "\<forall>c \<in> set cs. get_incident (inc_id c) s = Some c \<and> eligible ttl now c"
    using set_stale [OF ok, of _ ttl now] unfolding cs_def by (blast dest: in_set_takeD)
  ultimately show ?thesis
    using sweep_quiet [OF ttl ok, of cs] select_batch [OF ttl, of now s] ttl
    by (simp add: sweep_once_def session_scope_def cs_def Let_def)
qed

lemma stale_closed [simp]: "\<not> eligible ttl' now' (closed_at i now)"
  by (simp add: eligible_def terminal_iff)

text \<open>
  C29. An undisturbed sweep closes exactly the stale incidents: with at most 500 of them, every
  non-terminal incident idle for the time to live becomes resolved with the sweep's timestamp,
  every other incident is unchanged, the counters report exactly that many closed, and the log
  gains one entry per closed incident, stalest first.
\<close>

theorem sweep_closes_exactly_the_stale:
  assumes ok: "incidents_ok s" and ttl: "1 \<le> ttl"
    and batch: "length (stale_incidents ttl now s) \<le> 500"
  shows "\<exists>stats s'. sweep_once ttl now True [] s = (Inr stats, s')
    \<and> sw_closed stats = length (stale_incidents ttl now s) \<and> sw_candidates stats = sw_closed stats
    \<and> sw_skipped stats = 0 \<and> sw_errors stats = 0
    \<and> (\<forall>k. get_incident k s' =
         map_option (\<lambda>i. if inc_status i \<notin> set terminal_statuses \<and> inc_updated_at i \<le> now - seconds ttl
            then closed_at i now else i) (get_incident k s))
    \<and> audit_of s' = audit_of s
        @ map (Pair now) (concat (map (\<lambda>c. close_entries ttl now c c) (stale_incidents ttl now s)))"
proof -
  let ?cs = "stale_incidents ttl now s"
  have all: "take 500 ?cs = ?cs" using batch by simp
  have d: "distinct (map inc_id ?cs)" by (rule distinct_stale [OF ok])
  have mem: "k \<in> inc_id ` set ?cs \<longleftrightarrow> (\<exists>i. get_incident k s = Some i \<and> eligible ttl now i)" for k
    using set_stale [OF ok] incident_row [OF ok, of k] by (auto simp: image_iff)
  have "get_incident k (sweep_state ttl now ?cs s) =
      map_option (\<lambda>i. if eligible ttl now i then closed_at i now else i) (get_incident k s)" for k
    using mem [of k] by (cases "get_incident k s") (simp_all add: get_sweep_state [OF ok d])
  moreover have "audit_of (sweep_state ttl now ?cs s) = audit_of s
      @ map (Pair now) (concat (map (\<lambda>c. close_entries ttl now c c) ?cs))"
    using set_stale [OF ok] by (intro audit_sweep_state [OF ok d]) blast
  ultimately show ?thesis
    using sweep_once_quiet [OF ok ttl, of now] by (simp add: all eligible_def)
qed

lemma sweep_state_ok: "incidents_ok s \<Longrightarrow> incidents_ok (sweep_state ttl now cs s)"
  by (induction cs arbitrary: s) (simp_all add: sweep_state_def closing_ok)

text \<open>
  The sweep is idempotent: run again, at the same instant and over at most 500 stale
  incidents, it finds no candidate and changes nothing; in particular nothing is closed or
  audited twice.
\<close>

theorem sweep_idempotent:
  assumes ok: "incidents_ok s" and ttl: "1 \<le> ttl"
    and batch: "length (stale_incidents ttl now s) \<le> 500"
    and run: "sweep_once ttl now True [] s = (res, s')"
  shows "sweep_once ttl now True [] s'
    = (Inr \<lparr>sw_candidates = 0, sw_closed = 0, sw_skipped = 0, sw_errors = 0\<rparr>, s')"
proof -
  let ?cs = "stale_incidents ttl now s"
  have s': "s' = sweep_state ttl now ?cs s" using run sweep_once_quiet [OF ok ttl, of now] batch by simp
  have ok': "incidents_ok s'" unfolding s' by (rule sweep_state_ok [OF ok])
  have "i \<notin> set (stale_incidents ttl now s')" for i
  proof
    assume "i \<in> set (stale_incidents ttl now s')"
    then have i: "get_incident (inc_id i) s' = Some i" "eligible ttl now i"
      using set_stale [OF ok'] by simp_all
    have g: "get_incident (inc_id i) s' =
        (if inc_id i \<in> inc_id ` set ?cs then map_option (\<lambda>i. closed_at i now) (get_incident (inc_id i) s)
         else get_incident (inc_id i) s)"
      unfolding s' by (rule get_sweep_state [OF ok distinct_stale [OF ok]])
    show False
    proof (cases "inc_id i \<in> inc_id ` set ?cs")
      case True
      then obtain j where "i = closed_at j now"
        using g i(1) by (cases "get_incident (inc_id i) s") simp_all
      then show False using i(2) by simp
    next
      case False
      then have "i \<in> set ?cs" using g i set_stale [OF ok] by simp
      then show False using False by blast
    qed
  qed
  then have "stale_incidents ttl now s' = []" by (meson list.set_sel(1))
  then show ?thesis using sweep_once_quiet [OF ok' ttl, of now] by (simp add: sweep_state_def)
qed

lemma candidate_counts:
  fixes p defines "st \<equiv> fst p"
  shows "(case fst (sweep_candidate ttl now env c p) of st' \<Rightarrow>
      sw_candidates st' = sw_candidates st
    \<and> sw_closed st' + sw_skipped st' \<le> sw_closed st + sw_skipped st + 1
    \<and> sw_closed st + sw_skipped st + sw_errors st + 1 \<le> sw_closed st' + sw_skipped st' + sw_errors st')"
  by (cases p) (auto simp: st_def sweep_candidate_def count_error_def count_skipped_def count_closed_def Let_def
      split: sum.split)

lemma candidates_counts:
  "sw_candidates (fst (sweep_candidates ttl now envs cs p)) = sw_candidates (fst p)
   \<and> sw_closed (fst (sweep_candidates ttl now envs cs p)) + sw_skipped (fst (sweep_candidates ttl now envs cs p))
       \<le> sw_closed (fst p) + sw_skipped (fst p) + length cs
   \<and> sw_closed (fst p) + sw_skipped (fst p) + sw_errors (fst p) + length cs
       \<le> sw_closed (fst (sweep_candidates ttl now envs cs p)) + sw_skipped (fst (sweep_candidates ttl now envs cs p))
         + sw_errors (fst (sweep_candidates ttl now envs cs p))"
proof (induction cs arbitrary: envs p)
  case (Cons c cs)
  show ?case
    using Cons.IH [of "tl envs" "sweep_candidate ttl now (next_sweep_env envs) c p"]
      candidate_counts [of ttl now "next_sweep_env envs" c p] by simp
qed simp

text \<open>
  C14. Whatever fails and whatever others commit in between, a sweep keeps the incident table
  well-formed with at most one open incident per group. It refuses a time to live below one second and
  changes nothing if its query fails; otherwise it takes all stale incidents, at most 500 of them, and
  accounts for each: none is counted both as closed and as skipped, and none is left uncounted.
\<close>

theorem sweep_safe:
  assumes "incidents_ok s" "one_open_per_group s" "others_ok envs"
  shows "incidents_ok (snd (sweep_once ttl now select_ok envs s))
    \<and> one_open_per_group (snd (sweep_once ttl now select_ok envs s))
    \<and> (ttl < 1 \<longrightarrow> sweep_once ttl now select_ok envs s = (Inl ValueError, s))
    \<and> (1 \<le> ttl \<and> \<not> select_ok \<longrightarrow> sweep_once ttl now select_ok envs s = (Inl SQLAlchemyError, s))
    \<and> (1 \<le> ttl \<and> select_ok \<longrightarrow> (\<exists>stats. fst (sweep_once ttl now select_ok envs s) = Inr stats
          \<and> sw_candidates stats = min 500 (length (filter (eligible ttl now) (rows (st_incidents s))))
          \<and> sw_closed stats + sw_skipped stats \<le> sw_candidates stats
          \<and> sw_candidates stats \<le> sw_closed stats + sw_skipped stats + sw_errors stats))"
proof (cases "1 \<le> ttl \<and> select_ok")
  case True
  let ?cs = "take 500 (stale_incidents ttl now s)"
  let ?st = "\<lparr>sw_candidates = length ?cs, sw_closed = 0, sw_skipped = 0, sw_errors = 0\<rparr>"
  have run: "sweep_once ttl now select_ok envs s
      = (Inr (fst (sweep_candidates ttl now envs ?cs (?st, s))), snd (sweep_candidates ttl now envs ?cs (?st, s)))"
    using True select_batch [of ttl now s]
    by (simp add: sweep_once_def session_scope_def Let_def case_prod_unfold)
  have "length ?cs = min 500 (length (filter (eligible ttl now) (rows (st_incidents s))))"
    by (simp add: stale_incidents_def min.commute)
  then show ?thesis
    using sweep_candidates_ok [of ttl envs s now ?cs ?st] True assms candidates_counts [of ttl now envs ?cs "(?st, s)"]
    unfolding run by simp
next
  case False
  then show ?thesis
    using assms select_batch [of ttl now s]
    by (cases "ttl < 1") (auto simp: sweep_once_def session_scope_def)
qed

subsection \<open>Witnesses\<close>

definition acknowledging :: sweep_env where
  "acknowledging = \<lparr>sw_fate = Accepted,
     sw_others = (\<lambda>s. snd (session_scope True (update_status ''INC-1970-01-01-0001'' ACKNOWLEDGED 5) s))\<rparr>"

theorem manual_change_wins_witness:
  "sweep_candidate 1 2000000 acknowledging sample_incident
     (\<lparr>sw_candidates = 1, sw_closed = 0, sw_skipped = 0, sw_errors = 0\<rparr>, sample_store)
   = (\<lparr>sw_candidates = 1, sw_closed = 0, sw_skipped = 1, sw_errors = 0\<rparr>, sw_others acknowledging sample_store)"
proof -
  have id: "inc_id sample_incident = ''INC-1970-01-01-0001''" by (simp add: sample_incident_def)
  have "update_status ''INC-1970-01-01-0001'' ACKNOWLEDGED 5 sample_store
      = Inr (moved sample_incident ACKNOWLEDGED 5, put_incident (moved sample_incident ACKNOWLEDGED 5) sample_store)"
    using sample_get by (simp add: update_status_eq can_transition_def)
  then have "sw_others acknowledging sample_store = put_incident (moved sample_incident ACKNOWLEDGED 5) sample_store"
    by (simp add: acknowledging_def session_scope_def)
  then have "\<forall>i. get_incident (inc_id sample_incident) (sw_others acknowledging sample_store) = Some i \<longrightarrow>
      inc_status i \<noteq> inc_status sample_incident \<or> inc_updated_at i \<noteq> inc_updated_at sample_incident"
    by (simp add: get_put_incident id)
  from manual_change_wins [OF _ _ this, of 1 2000000] show ?thesis
    by (simp add: acknowledging_def count_skipped_def)
qed

theorem commit_failure_counted_twice_witness:
  "sweep_candidate 1 2000000 (quiet\<lparr>sw_fate := Commit_fails\<rparr>) sample_incident
     (\<lparr>sw_candidates = 1, sw_closed = 0, sw_skipped = 0, sw_errors = 0\<rparr>, sample_store)
   = (\<lparr>sw_candidates = 1, sw_closed = 1, sw_skipped = 0, sw_errors = 1\<rparr>, sample_store)"
proof -
  have "still_stale 1 2000000 sample_incident sample_store"
    using sample_get by (simp add: still_stale_def sample_incident_def seconds_def us_per_second_def)
       (simp add: new_incident_def)
  then show ?thesis
    using commit_failure_counted_twice [of 1 "quiet\<lparr>sw_fate := Commit_fails\<rparr>" 2000000 sample_incident]
    by (simp add: quiet_def count_error_def count_closed_def)
qed

lemma sample_stale: "stale_incidents 1 2000000 sample_store = [sample_incident]"
  by (simp add: stale_incidents_def sample_store_def rows_def eligible_def seconds_def
      us_per_second_def terminal_iff)

theorem sweep_closes_exactly_the_stale_witness:
  "\<exists>stats s'. sweep_once 1 2000000 True [] sample_store = (Inr stats, s') \<and> sw_closed stats = 1
     \<and> get_incident ''INC-1970-01-01-0001'' s' = Some (closed_at sample_incident 2000000)"
proof -
  have "eligible 1 2000000 sample_incident"
    by (simp add: eligible_def seconds_def us_per_second_def terminal_iff)
  then show ?thesis
    using sweep_closes_exactly_the_stale [OF sample_incidents_ok(1), of 1 2000000] sample_stale sample_get
    by (auto simp: terminal_iff seconds_def us_per_second_def)
qed

theorem sweep_idempotent_witness:
  "sweep_once 1 2000000 True [] (snd (sweep_once 1 2000000 True [] sample_store))
   = (Inr \<lparr>sw_candidates = 0, sw_closed = 0, sw_skipped = 0, sw_errors = 0\<rparr>,
      snd (sweep_once 1 2000000 True [] sample_store))"
  using sweep_idempotent [OF sample_incidents_ok(1), of 1 2000000] sample_stale
  by (cases "sweep_once 1 2000000 True [] sample_store") simp

theorem sweep_safe_witness:
  "one_open_per_group (snd (sweep_once 1 2000000 True [quiet\<lparr>sw_fate := Statement_fails\<rparr>] sample_store))
   \<and> (\<exists>stats. fst (sweep_once 1 2000000 True [quiet\<lparr>sw_fate := Statement_fails\<rparr>] sample_store) = Inr stats \<and> sw_candidates stats = 1)"
proof -
  have "length (filter (eligible 1 2000000) (rows (st_incidents sample_store))) = 1"
    using arg_cong [OF sample_stale, of length] by (simp add: stale_incidents_def)
  have "others_ok [quiet\<lparr>sw_fate := Statement_fails\<rparr>]" by (simp add: others_ok_def quiet_def)
  from sweep_safe [OF sample_incidents_ok this, of 1 2000000 True] \<open>length _ = 1\<close> show ?thesis by fastforce
qed

end
