(* ===== verification/Correlation_Evidence.thy ===== *)
theory Correlation_Evidence
  imports Alert_Model
begin

text \<open>
  The evidence two alerts share (correlation/evidence.py), and the policy that decides whether
  it justifies correlating them.
\<close>

subsection \<open>Evidence\<close>

datatype evidence_type =
  SAME_AGENT | SAME_RULE | SHARED_TECHNIQUE | SHARED_SOURCE_IP | SHARED_DESTINATION_IP | SHARED_IOC

fun evidence_type_value :: "evidence_type \<Rightarrow> string" where
  "evidence_type_value SAME_AGENT = ''same_agent''"
| "evidence_type_value SAME_RULE = ''same_rule''"
| "evidence_type_value SHARED_TECHNIQUE = ''shared_technique''"
| "evidence_type_value SHARED_SOURCE_IP = ''shared_source_ip''"
| "evidence_type_value SHARED_DESTINATION_IP = ''shared_destination_ip''"
| "evidence_type_value SHARED_IOC = ''shared_ioc''"

text \<open>The position in \<open>EVIDENCE_TYPE_ORDER\<close> orders the types.\<close>

fun evidence_index :: "evidence_type \<Rightarrow> nat" where
  "evidence_index SAME_AGENT = 0"
| "evidence_index SAME_RULE = 1"
| "evidence_index SHARED_TECHNIQUE = 2"
| "evidence_index SHARED_SOURCE_IP = 3"
| "evidence_index SHARED_DESTINATION_IP = 4"
| "evidence_index SHARED_IOC = 5"

lemma evidence_index_inject [simp]: "evidence_index s = evidence_index t \<longleftrightarrow> s = t"
  by (cases s; cases t) simp_all

instantiation evidence_type :: linorder
begin

definition less_eq_evidence_type :: "evidence_type \<Rightarrow> evidence_type \<Rightarrow> bool" where
  "less_eq_evidence_type s t = (evidence_index s \<le> evidence_index t)"

definition less_evidence_type :: "evidence_type \<Rightarrow> evidence_type \<Rightarrow> bool" where
  "less_evidence_type s t = (evidence_index s < evidence_index t)"

instance
  by standard (auto simp: less_eq_evidence_type_def less_evidence_type_def)

end

record evidence_item =
  e_type :: evidence_type
  e_value :: string

definition strong_evidence_types :: "evidence_type set" where
  "strong_evidence_types = {SHARED_SOURCE_IP, SHARED_DESTINATION_IP, SHARED_IOC}"

definition supporting_combination :: "evidence_type set" where
  "supporting_combination = {SAME_AGENT, SHARED_TECHNIQUE}"

fun reason_text :: "evidence_type \<Rightarrow> string \<Rightarrow> string" where
  "reason_text SAME_AGENT v = ''same agent '' @ v"
| "reason_text SAME_RULE v = ''same rule '' @ v @ '' fired on different agents''"
| "reason_text SHARED_TECHNIQUE v = ''shared MITRE ATT&CK technique '' @ v"
| "reason_text SHARED_SOURCE_IP v = ''shared source IP '' @ v"
| "reason_text SHARED_DESTINATION_IP v = ''shared destination IP '' @ v"
| "reason_text SHARED_IOC v = ''shared indicator '' @ v"

definition all_evidence_types :: "evidence_type list" where
  "all_evidence_types =
     [SAME_AGENT, SAME_RULE, SHARED_TECHNIQUE, SHARED_SOURCE_IP, SHARED_DESTINATION_IP, SHARED_IOC]"

definition evidence_reason :: "string \<Rightarrow> string \<Rightarrow> string" where
  "evidence_reason t v =
     (case find (\<lambda>e. evidence_type_value e = t) all_evidence_types of
        None \<Rightarrow> ''shared '' @ t @ '' '' @ v
      | Some e \<Rightarrow> reason_text e v)"

definition e_sort_key :: "evidence_item \<Rightarrow> evidence_type \<times> string" where
  "e_sort_key i = (e_type i, e_value i)"

definition sort_evidence :: "evidence_item list \<Rightarrow> evidence_item list" where
  "sort_evidence items = sort_key e_sort_key items"

definition evidence_reasons :: "evidence_item list \<Rightarrow> string list" where
  "evidence_reasons items = map (\<lambda>i. reason_text (e_type i) (e_value i)) (sort_evidence items)"

definition is_sufficient :: "evidence_item list \<Rightarrow> bool" where
  "is_sufficient items =
     (let types = e_type ` set items in
      if types \<inter> strong_evidence_types \<noteq> {} then True else supporting_combination \<subseteq> types)"

subsection \<open>What an alert offers\<close>

definition technique_ids :: "canonical_alert \<Rightarrow> string list" where
  "technique_ids c =
     (case dict_get (rule_mitre (se_rule (c_source_event c))) ''id'' of
        JList ids \<Rightarrow>
          sort (remdups (List.map_filter (\<lambda>v. case v of JStr s \<Rightarrow> if strip s \<noteq> [] then Some (strip s) else None
                                              | _ \<Rightarrow> None) ids))
      | _ \<Rightarrow> [])"

datatype role = Indicator | Source_ip | Destination_ip

definition source_ip_field :: string where
  "source_ip_field = ''source_event.data.srcip''"

definition destination_ip_field :: string where
  "destination_ip_field = ''source_event.data.dstip''"

definition ioc_roles :: "ioc \<Rightarrow> role set" where
  "ioc_roles i =
     insert Indicator
       (if i_type i = IPV4 then
          set (List.map_filter (\<lambda>p. if p_field p = source_ip_field then Some Source_ip
                 else if p_field p = destination_ip_field then Some Destination_ip else None)
               (i_provenance i))
        else {})"

definition indicator_roles :: "canonical_alert \<Rightarrow> (string, role set) dict" where
  "indicator_roles c =
     fold (\<lambda>i d. if ioc_is_allowlisted i then d
                 else AList.map_default (ioc_key i) (ioc_roles i) (\<lambda>r. r \<union> ioc_roles i) d)
       (c_iocs c) []"

definition best_shared_role :: "role set \<Rightarrow> role set \<Rightarrow> role option" where
  "best_shared_role a b = find (\<lambda>r. r \<in> a \<inter> b) [Source_ip, Destination_ip, Indicator]"

text \<open>\<open>key.split(":", 1)[1] if ":" in key else key\<close>.\<close>

definition bare_indicator_value :: "string \<Rightarrow> string" where
  "bare_indicator_value key =
     (if CHR '':'' \<in> set key then tl (dropWhile (\<lambda>c. c \<noteq> CHR '':'') key) else key)"

definition shared_keys :: "('k::linorder, 'v) dict \<Rightarrow> ('k, 'w) dict \<Rightarrow> 'k list" where
  "shared_keys a b = sort (remdups (filter (\<lambda>k. k \<in> set (map fst b)) (map fst a)))"

fun role_item :: "role \<Rightarrow> string \<Rightarrow> evidence_item" where
  "role_item Source_ip key = \<lparr>e_type = SHARED_SOURCE_IP, e_value = bare_indicator_value key\<rparr>"
| "role_item Destination_ip key = \<lparr>e_type = SHARED_DESTINATION_IP, e_value = bare_indicator_value key\<rparr>"
| "role_item Indicator key = \<lparr>e_type = SHARED_IOC, e_value = key\<rparr>"

definition shared_indicator :: "(string, role set) dict \<Rightarrow> (string, role set) dict \<Rightarrow> string \<Rightarrow> evidence_item list" where
  "shared_indicator ra rb key =
     (case best_shared_role (the (map_of ra key)) (the (map_of rb key)) of
        None \<Rightarrow> []
      | Some r \<Rightarrow> [role_item r key])"

definition agent_of :: "canonical_alert \<Rightarrow> string" where
  "agent_of c = agent_id (se_agent (c_source_event c))"

definition rule_of :: "canonical_alert \<Rightarrow> string" where
  "rule_of c = rule_id (se_rule (c_source_event c))"

definition pairwise_evidence :: "canonical_alert \<Rightarrow> canonical_alert \<Rightarrow> evidence_item list" where
  "pairwise_evidence a b =
     (let ra = indicator_roles a; rb = indicator_roles b in
      sort_evidence
        ((if agent_of a \<noteq> [] \<and> agent_of a = agent_of b
          then [\<lparr>e_type = SAME_AGENT, e_value = agent_of a\<rparr>] else [])
         @ (if rule_of a \<noteq> [] \<and> rule_of a = rule_of b
            then [\<lparr>e_type = SAME_RULE, e_value = rule_of a\<rparr>] else [])
         @ map (\<lambda>t. \<lparr>e_type = SHARED_TECHNIQUE, e_value = t\<rparr>)
             (sort (remdups (filter (\<lambda>t. t \<in> set (technique_ids b)) (technique_ids a))))
         @ concat (map (shared_indicator ra rb) (shared_keys ra rb))))"

subsection \<open>Symmetry\<close>

lemma sort_remdups_eq: "set xs = set ys \<Longrightarrow> sort (remdups xs) = sort (remdups (ys :: 'a::linorder list))"
  by (metis sorted_list_of_set_sort_remdups)

lemma best_shared_role_sym: "best_shared_role a b = best_shared_role b a"
  by (simp add: best_shared_role_def Int_commute)

text \<open>
  Evidence is symmetric: the list derived from two alerts is the same in either order, item
  by item.
\<close>

theorem pairwise_evidence_symmetric: "pairwise_evidence a b = pairwise_evidence b a"
proof -
  have t: "sort (remdups (filter (\<lambda>t. t \<in> set ys) xs)) = sort (remdups (filter (\<lambda>t. t \<in> set xs) ys))"
    for xs ys :: "string list"
    by (rule sort_remdups_eq) auto
  have k: "shared_keys (indicator_roles a) (indicator_roles b) = shared_keys (indicator_roles b) (indicator_roles a)"
    unfolding shared_keys_def by (rule sort_remdups_eq) auto
  have i: "shared_indicator (indicator_roles a) (indicator_roles b) = shared_indicator (indicator_roles b) (indicator_roles a)"
    by (simp add: fun_eq_iff shared_indicator_def best_shared_role_sym)
  show ?thesis
    unfolding pairwise_evidence_def Let_def
    by (simp add: t [of "technique_ids b" "technique_ids a"] k i eq_commute [of "agent_of a"]
        eq_commute [of "rule_of a"] cong: if_cong)
qed

subsection \<open>What the evidence means\<close>

definition offered :: "canonical_alert \<Rightarrow> ioc list" where
  "offered c = filter (\<lambda>i. \<not> ioc_is_allowlisted i) (c_iocs c)"

lemma map_of_map_default:
  "map_of (AList.map_default k v f al) =
     (map_of al)(k \<mapsto> (case map_of al k of None \<Rightarrow> v | Some w \<Rightarrow> f w))"
  by (induction al) (auto simp: fun_eq_iff)

lemma indicator_roles_offered:
  "indicator_roles c =
     fold (\<lambda>i. AList.map_default (ioc_key i) (ioc_roles i) (\<lambda>r. r \<union> ioc_roles i)) (offered c) []"
proof -
  have "fold (\<lambda>i d. if ioc_is_allowlisted i then d
                 else AList.map_default (ioc_key i) (ioc_roles i) (\<lambda>r. r \<union> ioc_roles i) d) is d
      = fold (\<lambda>i. AList.map_default (ioc_key i) (ioc_roles i) (\<lambda>r. r \<union> ioc_roles i))
          (filter (\<lambda>i. \<not> ioc_is_allowlisted i) is) d" for "is" d
    by (induction "is" arbitrary: d) simp_all
  then show ?thesis by (simp add: indicator_roles_def offered_def)
qed

text \<open>An indicator's roles are those of all its offered occurrences.\<close>

lemma map_of_indicator_roles:
  "map_of (indicator_roles c) key =
     (if \<exists>i \<in> set (offered c). ioc_key i = key
      then Some (\<Union>i \<in> {i \<in> set (offered c). ioc_key i = key}. ioc_roles i) else None)"
proof -
  let ?f = "\<lambda>i. AList.map_default (ioc_key i) (ioc_roles i) (\<lambda>r. r \<union> ioc_roles i)"
  have "map_of (fold ?f is []) key =
      (if \<exists>i \<in> set is. ioc_key i = key
       then Some (\<Union>i \<in> {i \<in> set is. ioc_key i = key}. ioc_roles i) else None)" for "is"
  proof (induction "is" rule: rev_induct)
    case (snoc x xs)
    show ?case
    proof (cases "ioc_key x = key")
      case True
      then have "{i \<in> set (xs @ [x]). ioc_key i = key} = insert x {i \<in> set xs. ioc_key i = key}" by auto
      then show ?thesis using snoc True by (auto simp: map_of_map_default)
    next
      case False
      then have "{i \<in> set (xs @ [x]). ioc_key i = key} = {i \<in> set xs. ioc_key i = key}" by auto
      then show ?thesis using snoc False by (simp add: map_of_map_default)
    qed
  qed simp
  then show ?thesis by (simp only: indicator_roles_offered)
qed

lemma mem_keys_roles: "k \<in> fst ` set (indicator_roles c) \<longleftrightarrow> (\<exists>i \<in> set (offered c). ioc_key i = k)"
proof -
  have "k \<in> fst ` set (indicator_roles c) \<longleftrightarrow> map_of (indicator_roles c) k \<noteq> None"
    by (simp add: map_of_eq_None_iff)
  then show ?thesis by (simp add: map_of_indicator_roles)
qed

lemma the_roles:
  "k \<in> fst ` set (indicator_roles c) \<Longrightarrow>
     the (map_of (indicator_roles c) k) = (\<Union>i \<in> {i \<in> set (offered c). ioc_key i = k}. ioc_roles i)"
  by (simp add: mem_keys_roles map_of_indicator_roles)

lemma role_item_source [simp]: "e_type (role_item r k) = SHARED_SOURCE_IP \<longleftrightarrow> r = Source_ip"
  by (cases r) simp_all

lemma role_item_strong [simp]: "e_type (role_item r k) \<in> strong_evidence_types"
  by (cases r) (simp_all add: strong_evidence_types_def)

lemma mem_shared_keys: "k \<in> set (shared_keys a b) \<longleftrightarrow> k \<in> fst ` set a \<and> k \<in> fst ` set b"
  by (auto simp: shared_keys_def)

lemma Indicator_mem [simp]: "Indicator \<in> ioc_roles i"
  by (simp add: ioc_roles_def)

text \<open>A shared key gives exactly one item, which is strong.\<close>

lemma shared_indicator_one:
  assumes "k \<in> set (shared_keys (indicator_roles a) (indicator_roles b))"
  shows "\<exists>e. shared_indicator (indicator_roles a) (indicator_roles b) k = [e] \<and> e_type e \<in> strong_evidence_types"
proof -
  have "Indicator \<in> the (map_of (indicator_roles a) k)" "Indicator \<in> the (map_of (indicator_roles b) k)"
    using assms by (auto simp: mem_shared_keys the_roles mem_keys_roles)
  then have "\<exists>r. best_shared_role (the (map_of (indicator_roles a) k)) (the (map_of (indicator_roles b) k)) = Some r"
    by (auto simp: best_shared_role_def)
  then show ?thesis by (auto simp: shared_indicator_def)
qed

lemma set_pairwise:
  "set (pairwise_evidence a b) =
     (if agent_of a \<noteq> [] \<and> agent_of a = agent_of b then {\<lparr>e_type = SAME_AGENT, e_value = agent_of a\<rparr>} else {})
     \<union> (if rule_of a \<noteq> [] \<and> rule_of a = rule_of b then {\<lparr>e_type = SAME_RULE, e_value = rule_of a\<rparr>} else {})
     \<union> (\<lambda>t. \<lparr>e_type = SHARED_TECHNIQUE, e_value = t\<rparr>) ` (set (technique_ids a) \<inter> set (technique_ids b))
     \<union> (\<Union>k \<in> set (shared_keys (indicator_roles a) (indicator_roles b)).
          set (shared_indicator (indicator_roles a) (indicator_roles b) k))"
  by (auto simp: pairwise_evidence_def sort_evidence_def Let_def)

lemma strong_shared:
  "(\<exists>e \<in> set (pairwise_evidence a b). e_type e \<in> strong_evidence_types) \<longleftrightarrow>
     set (shared_keys (indicator_roles a) (indicator_roles b)) \<noteq> {}" (is "?l \<longleftrightarrow> ?r")
proof
  assume ?l
  then show ?r by (auto simp: set_pairwise strong_evidence_types_def split: if_splits)
next
  assume ?r
  then obtain k where k: "k \<in> set (shared_keys (indicator_roles a) (indicator_roles b))"
    by (cases "shared_keys (indicator_roles a) (indicator_roles b)") auto
  obtain e where e: "shared_indicator (indicator_roles a) (indicator_roles b) k = [e]" "e_type e \<in> strong_evidence_types"
    using shared_indicator_one [OF k] by blast
  have "e \<in> set (pairwise_evidence a b)"
    unfolding set_pairwise by (rule UnI2, rule UN_I [OF k]) (simp add: e)
  with e show ?l by blast
qed

lemma no_support_from_indicator:
  "e \<in> set (shared_indicator ra rb k) \<Longrightarrow> e_type e \<in> strong_evidence_types"
  by (auto simp: shared_indicator_def split: option.splits)

lemma supporting_types:
  "SAME_AGENT \<in> e_type ` set (pairwise_evidence a b) \<longleftrightarrow> agent_of a \<noteq> [] \<and> agent_of a = agent_of b"
  "SHARED_TECHNIQUE \<in> e_type ` set (pairwise_evidence a b) \<longleftrightarrow>
     set (technique_ids a) \<inter> set (technique_ids b) \<noteq> {}"
proof -
  define D where "D = (\<Union>k \<in> set (shared_keys (indicator_roles a) (indicator_roles b)).
          set (shared_indicator (indicator_roles a) (indicator_roles b) k))"
  have "e_type ` D \<subseteq> strong_evidence_types" using no_support_from_indicator unfolding D_def by blast
  then have D: "SAME_AGENT \<notin> e_type ` D" "SHARED_TECHNIQUE \<notin> e_type ` D"
    by (auto simp: strong_evidence_types_def)
  have types: "e_type ` set (pairwise_evidence a b) =
      (if agent_of a \<noteq> [] \<and> agent_of a = agent_of b then {SAME_AGENT} else {})
      \<union> (if rule_of a \<noteq> [] \<and> rule_of a = rule_of b then {SAME_RULE} else {})
      \<union> (\<lambda>t. SHARED_TECHNIQUE) ` (set (technique_ids a) \<inter> set (technique_ids b)) \<union> e_type ` D"
    unfolding set_pairwise image_Un D_def [symmetric] by (simp add: image_image)
  show "SAME_AGENT \<in> e_type ` set (pairwise_evidence a b) \<longleftrightarrow> agent_of a \<noteq> [] \<and> agent_of a = agent_of b"
    unfolding types using D(1) by (auto split: if_splits)
  show "SHARED_TECHNIQUE \<in> e_type ` set (pairwise_evidence a b) \<longleftrightarrow>
     set (technique_ids a) \<inter> set (technique_ids b) \<noteq> {}"
    unfolding types using D(2) by (auto split: if_splits)
qed

text \<open>
  C30. The correlation policy in terms of the alerts: evidence is sufficient exactly when the two
  alerts share an indicator that is allowlisted in neither, or fired on the same agent with a
  common technique. Allowlisted indicators, the same agent alone, the same rule alone or a
  shared technique alone never correlate.
\<close>

theorem sufficient_iff_shared:
  "is_sufficient (pairwise_evidence a b) \<longleftrightarrow>
     (\<exists>i j. i \<in> set (c_iocs a) \<and> j \<in> set (c_iocs b) \<and> \<not> ioc_is_allowlisted i \<and> \<not> ioc_is_allowlisted j
        \<and> i_type i = i_type j \<and> i_value i = i_value j)
     \<or> (agent_of a \<noteq> [] \<and> agent_of a = agent_of b \<and> set (technique_ids a) \<inter> set (technique_ids b) \<noteq> {})"
proof -
  let ?types = "e_type ` set (pairwise_evidence a b)"
  have strong: "?types \<inter> strong_evidence_types \<noteq> {} \<longleftrightarrow>
     (\<exists>i j. i \<in> set (c_iocs a) \<and> j \<in> set (c_iocs b) \<and> \<not> ioc_is_allowlisted i \<and> \<not> ioc_is_allowlisted j
        \<and> i_type i = i_type j \<and> i_value i = i_value j)"
  proof -
    have "?types \<inter> strong_evidence_types \<noteq> {} \<longleftrightarrow>
        set (shared_keys (indicator_roles a) (indicator_roles b)) \<noteq> {}"
      unfolding strong_shared [symmetric] by auto
    also have "\<dots> \<longleftrightarrow> (\<exists>k. (\<exists>i \<in> set (offered a). ioc_key i = k) \<and> (\<exists>j \<in> set (offered b). ioc_key j = k))"
      by (simp add: ex_in_conv [symmetric] mem_shared_keys mem_keys_roles del: ex_in_conv set_empty)
    also have "\<dots> \<longleftrightarrow> (\<exists>i \<in> set (offered a). \<exists>j \<in> set (offered b). ioc_key i = ioc_key j)" by metis
    finally show ?thesis by (auto simp: ioc_key_eq_iff offered_def)
  qed
  have "is_sufficient (pairwise_evidence a b) \<longleftrightarrow>
      ?types \<inter> strong_evidence_types \<noteq> {} \<or> (SAME_AGENT \<in> ?types \<and> SHARED_TECHNIQUE \<in> ?types)"
    by (simp add: is_sufficient_def supporting_combination_def Let_def)
  then show ?thesis
    unfolding strong supporting_types [of a b] by simp
qed

lemma bare_ioc_key [simp]: "bare_indicator_value (ioc_key i) = i_value i"
proof -
  have "dropWhile (\<lambda>c. c \<noteq> CHR '':'') (xs @ CHR '':'' # ys) = CHR '':'' # ys" if "CHR '':'' \<notin> set xs" for xs ys
    using that by (induction xs) auto
  then show ?thesis using ioc_type_value_no_colon [of "i_type i"] by (simp add: bare_indicator_value_def ioc_key_def)
qed

lemma role_mem:
  "Source_ip \<in> ioc_roles i \<longleftrightarrow> i_type i = IPV4 \<and> source_ip_field \<in> p_field ` set (i_provenance i)"
  by (force simp: ioc_roles_def List.map_filter_def image_iff split: if_splits)

text \<open>
  Directional evidence is never invented: a shared source address was, in each of the two
  alerts, an IPv4 indicator that is not allowlisted and was read from that alert's own
  \<open>data.srcip\<close> field.
\<close>

theorem shared_source_ip_sound:
  assumes "e \<in> set (pairwise_evidence a b)" "e_type e = SHARED_SOURCE_IP"
  shows "\<exists>i j. i \<in> set (c_iocs a) \<and> j \<in> set (c_iocs b) \<and> i_value i = e_value e \<and> i_value j = e_value e
    \<and> i_type i = IPV4 \<and> i_type j = IPV4 \<and> \<not> ioc_is_allowlisted i \<and> \<not> ioc_is_allowlisted j
    \<and> source_ip_field \<in> p_field ` set (i_provenance i) \<and> source_ip_field \<in> p_field ` set (i_provenance j)"
proof -
  obtain k where k: "k \<in> set (shared_keys (indicator_roles a) (indicator_roles b))"
      "e \<in> set (shared_indicator (indicator_roles a) (indicator_roles b) k)"
    using assms by (auto simp: set_pairwise split: if_splits)
  have "best_shared_role (the (map_of (indicator_roles a) k)) (the (map_of (indicator_roles b) k)) = Some Source_ip"
    and v: "e_value e = bare_indicator_value k"
    using k(2) assms(2) by (auto simp: shared_indicator_def split: option.splits)
  then have "Source_ip \<in> the (map_of (indicator_roles a) k)" "Source_ip \<in> the (map_of (indicator_roles b) k)"
    by (auto simp: best_shared_role_def split: if_splits)
  moreover have keys: "k \<in> fst ` set (indicator_roles a)" "k \<in> fst ` set (indicator_roles b)"
    using k(1) by (simp_all add: mem_shared_keys)
  ultimately obtain i j where "i \<in> set (offered a)" "ioc_key i = k" "Source_ip \<in> ioc_roles i"
      "j \<in> set (offered b)" "ioc_key j = k" "Source_ip \<in> ioc_roles j"
    by (auto simp: the_roles [OF keys(1)] the_roles [OF keys(2)])
  moreover from this have "i_value i = e_value e" "i_value j = e_value e"
    using v bare_ioc_key by metis+
  ultimately have "i \<in> set (c_iocs a) \<and> j \<in> set (c_iocs b) \<and> i_value i = e_value e \<and> i_value j = e_value e
    \<and> i_type i = IPV4 \<and> i_type j = IPV4 \<and> \<not> ioc_is_allowlisted i \<and> \<not> ioc_is_allowlisted j
    \<and> source_ip_field \<in> p_field ` set (i_provenance i) \<and> source_ip_field \<in> p_field ` set (i_provenance j)"
    by (simp add: offered_def role_mem)
  then show ?thesis by blast
qed

subsection \<open>Witnesses\<close>

definition sample_ip :: "string \<Rightarrow> ioc" where
  "sample_ip field = \<lparr>i_type = IPV4, i_value = ''8.8.4.4'',
     i_provenance = [\<lparr>p_field = field, p_extractor = ''typed_field'', p_raw_value = ''8.8.4.4'',
       p_offset = None, p_location = None\<rparr>], i_enrichment = []\<rparr>"

definition sample_correlated :: "uuid \<Rightarrow> string \<Rightarrow> ioc list \<Rightarrow> canonical_alert" where
  "sample_correlated u agent iocs = \<lparr>c_alert_id = u, c_source = ''wazuh'', c_received_at = 0,
     c_source_event = \<lparr>se_rule = \<lparr>rule_id = ''5710'', rule_level = 5, rule_description = ''sshd'',
         rule_groups = [], rule_mitre = []\<rparr>,
       se_agent = \<lparr>agent_id = agent, agent_name = ''host'', agent_ip = None\<rparr>, se_location = None,
       se_full_log = None, se_data = [], se_syscheck = []\<rparr>,
     c_dedupe = None, c_iocs = iocs, c_asset = None, c_enrichment_status = None, c_risk = None,
     c_decision = None\<rparr>"

lemma sample_evidence:
  "pairwise_evidence (sample_correlated 1 ''001'' [sample_ip source_ip_field])
     (sample_correlated 2 ''002'' [sample_ip source_ip_field])
   = [\<lparr>e_type = SAME_RULE, e_value = ''5710''\<rparr>, \<lparr>e_type = SHARED_SOURCE_IP, e_value = ''8.8.4.4''\<rparr>]"
  by code_simp

theorem shared_source_ip_sound_witness:
  "\<exists>i. i \<in> set (c_iocs (sample_correlated 1 ''001'' [sample_ip source_ip_field]))
     \<and> i_value i = ''8.8.4.4'' \<and> i_type i = IPV4"
proof -
  have "\<lparr>e_type = SHARED_SOURCE_IP, e_value = ''8.8.4.4''\<rparr> \<in> set (pairwise_evidence
      (sample_correlated 1 ''001'' [sample_ip source_ip_field])
      (sample_correlated 2 ''002'' [sample_ip source_ip_field]))"
    unfolding sample_evidence by simp
  from shared_source_ip_sound [OF this] show ?thesis by auto
qed

end
