(* ===== verification/Correlation_Repository.thy ===== *)
theory Correlation_Repository
  imports Alert_Repository Sequence_Ids
begin

text \<open>
  \<open>CorrelationRepository\<close> (models/repositories.py): candidate alerts, contexts and
  memberships. An alert belongs to at most one context (the unique key of the member table).
\<close>

subsection \<open>Reads\<close>

definition candidates :: "instant \<Rightarrow> int \<Rightarrow> uuid \<Rightarrow> string \<Rightarrow> store \<Rightarrow> alert_row list" where
  "candidates received window exclude_alert exclude_group s =
     sort_key (\<lambda>a. (al_received_at a, al_id a))
       (filter (\<lambda>a. al_id a \<noteq> exclude_alert \<and> al_group_key a \<noteq> exclude_group
          \<and> received - window \<le> al_received_at a \<and> al_received_at a \<le> received)
        (rows (st_alerts s)))"

definition membership_for_alert :: "uuid \<Rightarrow> store \<Rightarrow> member_row option" where
  "membership_for_alert alert_id s = find (\<lambda>m. mb_alert_id m = alert_id) (st_members s)"

definition context_ids_for_alerts :: "uuid list \<Rightarrow> store \<Rightarrow> (uuid, string) dict" where
  "context_ids_for_alerts ids s =
     fold (\<lambda>m. AList.update (mb_alert_id m) (mb_context_id m))
       (filter (\<lambda>m. mb_alert_id m \<in> set ids) (st_members s)) []"

definition member_count :: "string \<Rightarrow> store \<Rightarrow> nat" where
  "member_count context_id s = length (filter (\<lambda>m. mb_context_id m = context_id) (st_members s))"

definition get_context :: "string \<Rightarrow> store \<Rightarrow> (context_row \<times> nat) option" where
  "get_context context_id s =
     map_option (\<lambda>r. (r, member_count context_id s)) (map_of (st_contexts s) context_id)"

definition context_for_alert :: "uuid \<Rightarrow> store \<Rightarrow> (context_row \<times> nat) option" where
  "context_for_alert alert_id s =
     (case membership_for_alert alert_id s of None \<Rightarrow> None | Some m \<Rightarrow> get_context (mb_context_id m) s)"

definition list_contexts :: "int \<Rightarrow> int \<Rightarrow> store \<Rightarrow> (context_row \<times> nat) list \<times> nat" where
  "list_contexts limit offset s =
     (map (\<lambda>r. (r, member_count (cx_id r) s))
        (page (clamp_page limit offset) (sort_desc (\<lambda>r. (cx_created_at r, cx_id r)) (rows (st_contexts s)))),
      length (st_contexts s))"

definition context_members :: "string \<Rightarrow> store \<Rightarrow> (member_row \<times> alert_row) list" where
  "context_members context_id s =
     sort_key (\<lambda>p. (al_received_at (snd p), al_id (snd p)))
       (List.map_filter (\<lambda>m. if mb_context_id m = context_id
            then map_option (Pair m) (map_of (st_alerts s) (mb_alert_id m)) else None) (st_members s))"

subsection \<open>Writes\<close>

definition context_prefix :: "instant \<Rightarrow> string" where
  "context_prefix occurred_at = ''CORR-'' @ date_str occurred_at @ ''-''"

definition next_context_id :: "instant \<Rightarrow> store \<Rightarrow> py_exn + string" where
  "next_context_id occurred_at s = next_seq_id (context_prefix occurred_at) (map fst (st_contexts s))"

definition new_context :: "string \<Rightarrow> instant \<Rightarrow> context_row" where
  "new_context context_id t =
     \<lparr>cx_id = context_id, cx_created_at = t, cx_updated_at = t, cx_first_seen = t, cx_last_seen = t\<rparr>"

definition create_context :: "instant \<Rightarrow> string db" where
  "create_context occurred_at =
     db_bind (db_read (next_context_id occurred_at)) (\<lambda>r.
       case r of
         Inl e \<Rightarrow> db_raise e
       | Inr context_id \<Rightarrow>
           db_bind (db_require (\<lambda>s. context_id \<notin> fst ` set (st_contexts s))) (\<lambda>_.
           db_bind (db_write (\<lambda>s. s\<lparr>st_contexts := st_contexts s @ [(context_id, new_context context_id occurred_at)]\<rparr>)) (\<lambda>_.
             db_return context_id)))"

definition insert_member :: "string \<Rightarrow> uuid \<Rightarrow> correlation_evidence_item list \<Rightarrow> instant \<Rightarrow> store \<Rightarrow> store" where
  "insert_member context_id alert_id evidence joined_at s =
     s\<lparr>st_members := st_members s @
        [\<lparr>mb_id = next_rowid (map mb_id (st_members s)), mb_context_id = context_id,
          mb_alert_id = alert_id, mb_joined_at = joined_at, mb_evidence = evidence\<rparr>]\<rparr>"

text \<open>One membership per alert; both foreign keys.\<close>

definition add_member :: "string \<Rightarrow> uuid \<Rightarrow> correlation_evidence_item list \<Rightarrow> instant \<Rightarrow> unit db" where
  "add_member context_id alert_id evidence joined_at =
     db_bind (db_require (\<lambda>s. alert_id \<notin> mb_alert_id ` set (st_members s)
        \<and> alert_id \<in> fst ` set (st_alerts s) \<and> context_id \<in> fst ` set (st_contexts s))) (\<lambda>_.
       db_write (insert_member context_id alert_id evidence joined_at))"

definition relabel :: "string \<Rightarrow> string \<Rightarrow> member_row \<Rightarrow> member_row" where
  "relabel source target m = (if mb_context_id m = source then m\<lparr>mb_context_id := target\<rparr> else m)"

definition move_members :: "string \<Rightarrow> string \<Rightarrow> nat db" where
  "move_members source target =
     db_bind (db_read (member_count source)) (\<lambda>moved.
     db_bind (db_write (\<lambda>s. s\<lparr>st_members := map (relabel source target) (st_members s)\<rparr>)) (\<lambda>_.
     db_bind (db_write (\<lambda>s. s\<lparr>st_contexts := AList.delete source (st_contexts s)\<rparr>)) (\<lambda>_.
       db_return moved)))"

definition member_times :: "string \<Rightarrow> store \<Rightarrow> instant list" where
  "member_times context_id s =
     List.map_filter (\<lambda>m. if mb_context_id m = context_id
         then map_option al_received_at (map_of (st_alerts s) (mb_alert_id m)) else None) (st_members s)"

definition bounded_context :: "instant list \<Rightarrow> instant \<Rightarrow> context_row \<Rightarrow> context_row" where
  "bounded_context stamps updated_at r =
     (case stamps of
        [] \<Rightarrow> r\<lparr>cx_updated_at := updated_at\<rparr>
      | t # ts \<Rightarrow> r\<lparr>cx_first_seen := fold min ts t, cx_last_seen := fold max ts t, cx_updated_at := updated_at\<rparr>)"

definition refresh_bounds :: "string \<Rightarrow> instant \<Rightarrow> unit db" where
  "refresh_bounds context_id updated_at =
     db_bind (db_read (\<lambda>s. map_of (st_contexts s) context_id)) (\<lambda>row.
       case row of
         None \<Rightarrow> db_raise LookupError
       | Some r \<Rightarrow> db_write (\<lambda>s. s\<lparr>st_contexts :=
           AList.update context_id (bounded_context (member_times context_id s) updated_at r) (st_contexts s)\<rparr>))"

subsection \<open>Frame and integrity\<close>

text \<open>The tables correlation may not touch.\<close>

definition same_but_correlation :: "store \<Rightarrow> store \<Rightarrow> bool" where
  "same_but_correlation s s' = (st_alerts s' = st_alerts s \<and> st_incidents s' = st_incidents s
     \<and> st_groups s' = st_groups s \<and> st_events s' = st_events s
     \<and> st_notifications s' = st_notifications s \<and> st_feedback s' = st_feedback s)"

definition correlation_ok :: "store \<Rightarrow> bool" where
  "correlation_ok s = (distinct (map fst (st_contexts s)) \<and> distinct (map mb_alert_id (st_members s))
     \<and> (\<forall>m \<in> set (st_members s). mb_context_id m \<in> fst ` set (st_contexts s)))"

lemma same_but_refl [simp]: "same_but_correlation s s"
  by (simp add: same_but_correlation_def)

lemma same_but_trans: "same_but_correlation s t \<Longrightarrow> same_but_correlation t u \<Longrightarrow> same_but_correlation s u"
  by (simp add: same_but_correlation_def)

lemma create_context_eq:
  "create_context t s = Inr (k, s') \<longleftrightarrow>
     next_context_id t s = Inr k \<and> k \<notin> fst ` set (st_contexts s)
     \<and> s' = s\<lparr>st_contexts := st_contexts s @ [(k, new_context k t)]\<rparr>"
  by (auto simp: create_context_def split: sum.splits)

lemma add_member_eq:
  "add_member k a ev t s = Inr (u, s') \<longleftrightarrow>
     a \<notin> mb_alert_id ` set (st_members s) \<and> a \<in> fst ` set (st_alerts s) \<and> k \<in> fst ` set (st_contexts s)
     \<and> s' = insert_member k a ev t s"
  by (auto simp: add_member_def)

lemma move_members_eq:
  "move_members x y s = Inr (n, s') \<longleftrightarrow>
     n = member_count x s \<and> s' = s\<lparr>st_members := map (relabel x y) (st_members s),
        st_contexts := AList.delete x (st_contexts s)\<rparr>"
  by (auto simp: move_members_def)

lemma refresh_bounds_eq:
  "refresh_bounds k t s = Inr (u, s') \<longleftrightarrow>
     (\<exists>r. map_of (st_contexts s) k = Some r \<and> s' = s\<lparr>st_contexts :=
        AList.update k (bounded_context (member_times k s) t r) (st_contexts s)\<rparr>)"
  by (auto simp: refresh_bounds_def split: option.splits)

lemma relabel_simps [simp]:
  "mb_alert_id (relabel x y m) = mb_alert_id m"
  "mb_context_id (relabel x y m) = (if mb_context_id m = x then y else mb_context_id m)"
  by (simp_all add: relabel_def)

lemma insert_member_simps [simp]:
  "st_contexts (insert_member k a ev t s) = st_contexts s"
  "st_alerts (insert_member k a ev t s) = st_alerts s"
  "st_audit (insert_member k a ev t s) = st_audit s"
  "map mb_alert_id (st_members (insert_member k a ev t s)) = map mb_alert_id (st_members s) @ [a]"
  "map (\<lambda>m. (mb_alert_id m, mb_context_id m)) (st_members (insert_member k a ev t s))
     = map (\<lambda>m. (mb_alert_id m, mb_context_id m)) (st_members s) @ [(a, k)]"
  "same_but_correlation s (insert_member k a ev t s)"
  by (simp_all add: insert_member_def same_but_correlation_def)

text \<open>Which context an alert is in.\<close>

definition context_of :: "store \<Rightarrow> uuid \<Rightarrow> string option" where
  "context_of s a = map_option mb_context_id (membership_for_alert a s)"

lemma membership_None: "membership_for_alert a s = None \<longleftrightarrow> a \<notin> mb_alert_id ` set (st_members s)"
  by (auto simp: membership_for_alert_def find_None_iff)

lemma context_of_eq_map_of:
  "context_of s a = map_of (map (\<lambda>m. (mb_alert_id m, mb_context_id m)) (st_members s)) a"
proof -
  have "map_option mb_context_id (find (\<lambda>m. mb_alert_id m = a) ms)
      = map_of (map (\<lambda>m. (mb_alert_id m, mb_context_id m)) ms) a" for ms
    by (induction ms) auto
  then show ?thesis by (simp add: context_of_def membership_for_alert_def)
qed

lemma map_of_snoc_fresh:
  "a \<notin> fst ` set ps \<Longrightarrow> map_of (ps @ [(a, k)]) b = (if b = a then Some k else map_of ps b)"
  by (induction ps) auto

lemma context_of_insert:
  assumes "a \<notin> mb_alert_id ` set (st_members s)"
  shows "context_of (insert_member k a ev t s) b = (if b = a then Some k else context_of s b)"
proof -
  have "a \<notin> fst ` set (map (\<lambda>m. (mb_alert_id m, mb_context_id m)) (st_members s))"
    using assms by (auto simp: image_image)
  then show ?thesis
    unfolding context_of_eq_map_of insert_member_simps by (rule map_of_snoc_fresh)
qed

lemma context_of_relabel:
  "context_of (s\<lparr>st_members := map (relabel x y) (st_members s), st_contexts := c\<rparr>) a =
     map_option (\<lambda>k. if k = x then y else k) (context_of s a)"
proof -
  have "map_of (map (\<lambda>m. (mb_alert_id m, mb_context_id m)) (map (relabel x y) ms)) a
      = map_option (\<lambda>k. if k = x then y else k) (map_of (map (\<lambda>m. (mb_alert_id m, mb_context_id m)) ms) a)" for ms
    by (induction ms) auto
  then show ?thesis by (simp add: context_of_eq_map_of)
qed

end
