(* ===== verification/Correlation_Service.thy ===== *)
theory Correlation_Service
  imports Correlation_Evidence Correlation_Repository
begin

text \<open>
  Cross-alert correlation (correlation/service.py): one newly recorded alert against the alerts
  of the window, in one unit of work. The alert, its qualifying peers and every context one of
  them belongs to become one context; the contexts other than the first are merged into it.
\<close>

subsection \<open>Deciding\<close>

record correlation_result =
  cr_context_id :: string
  cr_alert_id :: uuid
  cr_linked_alert_ids :: "uuid list"
  cr_evidence :: "evidence_item list"
  cr_merged_context_ids :: "string list"

type_synonym pairing = "alert_row \<times> evidence_item list"

definition qualifying :: "alert_row \<Rightarrow> alert_row list \<Rightarrow> pairing list" where
  "qualifying alert cands =
     filter (\<lambda>(c, items). items \<noteq> [] \<and> is_sufficient items)
       (map (\<lambda>c. (c, pairwise_evidence (al_payload alert) (al_payload c))) cands)"

text \<open>\<open>sorted({context_of[peer] for peer in peer_ids if peer in context_of})\<close>.\<close>

definition involved_contexts :: "(uuid, string) dict \<Rightarrow> uuid list \<Rightarrow> string list" where
  "involved_contexts known peer_ids = sort (remdups (List.map_filter (map_of known) peer_ids))"

definition stored_evidence :: "uuid \<Rightarrow> evidence_item list \<Rightarrow> correlation_evidence_item list" where
  "stored_evidence peer items =
     map (\<lambda>i. \<lparr>ce_type = evidence_type_value (e_type i), ce_value = e_value i, ce_peer = uuid_str peer\<rparr>) items"

definition all_evidence :: "pairing list \<Rightarrow> evidence_item list" where
  "all_evidence qs = concat (map snd qs)"

subsection \<open>Applying\<close>

fun merge_contexts :: "string \<Rightarrow> uuid \<Rightarrow> string list \<Rightarrow> audit_entry list db" where
  "merge_contexts target bridge [] = db_return []"
| "merge_contexts target bridge (other # others) =
     db_bind (move_members other target) (\<lambda>_.
     db_bind (merge_contexts target bridge others) (\<lambda>entries.
       db_return (audit_entry_for_correlation_contexts_merged target other bridge # entries)))"

text \<open>The target context, the contexts merged into it and the audit entries so far.\<close>

definition choose_target :: "uuid \<Rightarrow> instant \<Rightarrow> pairing list \<Rightarrow> string list
    \<Rightarrow> (string \<times> string list \<times> audit_entry list) db" where
  "choose_target alert_id received qs involved =
     (case involved of
        [] \<Rightarrow>
          db_bind (create_context received) (\<lambda>target.
            db_return (target, [], [audit_entry_for_correlation_context_created target
               (alert_id # map (al_id \<circ> fst) qs) (evidence_reasons (sort_evidence (all_evidence qs)))]))
      | target # others \<Rightarrow>
          db_bind (merge_contexts target alert_id others) (\<lambda>entries.
            db_return (target, others, entries)))"

fun add_peers :: "string \<Rightarrow> uuid \<Rightarrow> instant \<Rightarrow> (uuid, string) dict \<Rightarrow> pairing list
    \<Rightarrow> (uuid \<times> correlation_evidence_item list) list db" where
  "add_peers target alert_id received known [] = db_return []"
| "add_peers target alert_id received known ((c, items) # qs) =
     (if map_of known (al_id c) \<noteq> None then add_peers target alert_id received known qs
      else db_bind (add_member target (al_id c) (stored_evidence alert_id items) received) (\<lambda>_.
           db_bind (add_peers target alert_id received known qs) (\<lambda>added.
             db_return ((al_id c, stored_evidence alert_id items) # added))))"

definition apply_correlation :: "uuid \<Rightarrow> instant \<Rightarrow> pairing list \<Rightarrow> correlation_result db" where
  "apply_correlation alert_id received qs =
     (let peer_ids = map (al_id \<circ> fst) qs in
      db_bind (db_read (context_ids_for_alerts peer_ids)) (\<lambda>known.
      db_bind (choose_target alert_id received qs (involved_contexts known peer_ids))
        (\<lambda>(target, merged, entries).
      db_bind (add_peers target alert_id received known qs) (\<lambda>peers.
      let own = concat (map (\<lambda>(c, items). stored_evidence (al_id c) items) qs);
          added = peers @ [(alert_id, own)] in
      db_bind (add_member target alert_id own received) (\<lambda>_.
      db_bind (refresh_bounds target received) (\<lambda>_.
      db_bind (audit_append
         (entries @ map (\<lambda>(a, stored). audit_entry_for_correlation_alert_linked target a stored)
            (sort_key (uuid_str \<circ> fst) added)) received) (\<lambda>_.
        db_return \<lparr>cr_context_id = target, cr_alert_id = alert_id, cr_linked_alert_ids = sort peer_ids,
          cr_evidence = sort_evidence (all_evidence qs), cr_merged_context_ids = merged\<rparr>)))))))"

definition decide_and_apply :: "int \<Rightarrow> uuid \<Rightarrow> instant \<Rightarrow> correlation_result option db" where
  "decide_and_apply window alert_id received =
     db_bind (db_read (get_alert_row alert_id)) (\<lambda>row.
       case row of
         None \<Rightarrow> db_return None
       | Some alert \<Rightarrow>
           db_bind (db_read (membership_for_alert alert_id)) (\<lambda>m.
             if m \<noteq> None then db_return None
             else
               db_bind (db_read (candidates received window alert_id (al_group_key alert))) (\<lambda>cands.
                 let qs = qualifying alert cands in
                 if qs = [] then db_return None
                 else db_bind (apply_correlation alert_id received qs) (\<lambda>r. db_return (Some r)))))"

text \<open>
  \<open>correlate\<close>: a naive timestamp is refused, a storage error becomes
  \<^const>\<open>StorageError\<close>. The window is given in microseconds.
\<close>

definition correlate :: "bool \<Rightarrow> int \<Rightarrow> uuid \<Rightarrow> datetime \<Rightarrow> store
    \<Rightarrow> (py_exn + correlation_result option) \<times> store" where
  "correlate db_ok window alert_id received_at s =
     (if \<not> is_aware received_at then (Inl InvalidCorrelationInputError, s)
      else
        (case session_scope db_ok (decide_and_apply window alert_id (as_utc received_at)) s of
           (Inl e, s') \<Rightarrow> (Inl (if e = SQLAlchemyError then StorageError else e), s')
         | (Inr r, s') \<Rightarrow> (Inr r, s')))"

text \<open>The constructor: the window is at least a second.\<close>

definition correlation_window :: "int \<Rightarrow> py_exn + int" where
  "correlation_window window_seconds =
     (if window_seconds < 1 then Inl InvalidCorrelationInputError else Inr (seconds window_seconds))"

end
