(* ===== verification/Correlation_Facts.thy ===== *)
theory Correlation_Facts
  imports Correlation_Service
begin

text \<open>
  What correlating an alert does to the partition of alerts into contexts: the classes of the
  alert's qualifying peers and the alert itself become one class, every other class is unchanged,
  and the tables outside correlation are not touched.
\<close>

subsection \<open>Reading the contexts of the peers\<close>

lemma map_of_fold_puts:
  "map_of (fold (\<lambda>m. AList.update (f m) (g m)) ms d) k =
     (case map_of (rev (map (\<lambda>m. (f m, g m)) ms)) k of None \<Rightarrow> map_of d k | Some v \<Rightarrow> Some v)"
  by (induction ms rule: rev_induct) (simp_all add: update_conv)

lemma map_of_rev_distinct: "distinct (map fst xs) \<Longrightarrow> map_of (rev xs) = map_of xs"
  by (subst map_of_inject_set) (simp_all add: rev_map [symmetric] del: rev_map)

lemma context_ids_known:
  assumes "correlation_ok s"
  shows "map_of (context_ids_for_alerts ids s) a = (if a \<in> set ids then context_of s a else None)"
proof -
  let ?f = "\<lambda>m. (mb_alert_id m, mb_context_id m)"
  let ?ms = "filter (\<lambda>m. mb_alert_id m \<in> set ids) (st_members s)"
  have "distinct (map fst (map ?f ?ms))"
    using assms by (simp add: correlation_ok_def comp_def distinct_map_filter)
  from map_of_rev_distinct [OF this]
  have "map_of (context_ids_for_alerts ids s) a = map_of (map ?f ?ms) a"
    unfolding context_ids_for_alerts_def map_of_fold_puts by (simp split: option.split)
  also have "map_of (map ?f (filter (\<lambda>m. mb_alert_id m \<in> set ids) ms)) a =
      (if a \<in> set ids then map_of (map ?f ms) a else None)" for ms
    by (induction ms) auto
  finally show ?thesis by (simp add: context_of_eq_map_of)
qed

lemma involved_set:
  assumes "correlation_ok s"
  shows "set (involved_contexts (context_ids_for_alerts ids s) ids)
      = {k. \<exists>a \<in> set ids. context_of s a = Some k}"
  using context_ids_known [OF assms, of ids]
  by (force simp: involved_contexts_def List.map_filter_def image_iff)

lemma involved_distinct: "distinct (involved_contexts known ids)"
  by (simp add: involved_contexts_def)

lemma context_of_exists:
  assumes "correlation_ok s" "context_of s a = Some k"
  shows "k \<in> fst ` set (st_contexts s)"
proof -
  obtain m where "m \<in> set (st_members s)" "mb_context_id m = k"
    using assms(2) by (auto simp: context_of_eq_map_of dest!: map_of_SomeD)
  with assms(1) show ?thesis by (auto simp: correlation_ok_def)
qed

subsection \<open>One step at a time\<close>

lemma context_keys_insert [simp]: "correlation_ok s \<Longrightarrow> a \<notin> mb_alert_id ` set (st_members s) \<Longrightarrow>
    k \<in> fst ` set (st_contexts s) \<Longrightarrow> correlation_ok (insert_member k a ev t s)"
  by (auto simp: correlation_ok_def insert_member_def)

lemma member_iff_context: "a \<in> mb_alert_id ` set (st_members s) \<longleftrightarrow> context_of s a \<noteq> None"
  using membership_None [of a s] by (auto simp: context_of_def)

lemma keys_delete: "fst ` set (AList.delete k al) = fst ` set al - {k}"
  by (force simp: AList.delete_eq)

lemma move_ok:
  assumes "correlation_ok s" "target \<in> fst ` set (st_contexts s)" "target \<noteq> other"
  shows "correlation_ok (s\<lparr>st_members := map (relabel other target) (st_members s),
      st_contexts := AList.delete other (st_contexts s)\<rparr>)"
  using assms
  by (auto simp: correlation_ok_def comp_def keys_delete delete_keys distinct_removeAll)

lemma merge_contexts_run:
  assumes "correlation_ok s" "target \<in> fst ` set (st_contexts s)" "target \<notin> set os"
  shows "\<exists>s'. merge_contexts target bridge os s =
      Inr (map (\<lambda>other. audit_entry_for_correlation_contexts_merged target other bridge) os, s')
    \<and> correlation_ok s' \<and> same_but_correlation s s' \<and> st_audit s' = st_audit s
    \<and> fst ` set (st_contexts s') = fst ` set (st_contexts s) - set os
    \<and> (\<forall>b. context_of s' b = map_option (\<lambda>k. if k \<in> set os then target else k) (context_of s b))"
  using assms
proof (induction os arbitrary: s)
  case Nil
  then show ?case by (simp add: db_run option.map_ident)
next
  case (Cons other os)
  let ?s1 = "s\<lparr>st_members := map (relabel other target) (st_members s),
      st_contexts := AList.delete other (st_contexts s)\<rparr>"
  have keys: "fst ` set (st_contexts ?s1) = fst ` set (st_contexts s) - {other}"
    by (simp add: keys_delete)
  have move: "move_members other target s = Inr (member_count other s, ?s1)"
    by (simp add: move_members_eq)
  have "correlation_ok ?s1" "target \<in> fst ` set (st_contexts ?s1)" "target \<notin> set os"
    using Cons.prems move_ok [of s target other] keys by auto
  from Cons.IH [OF this] obtain s' where s': "merge_contexts target bridge os ?s1 =
      Inr (map (\<lambda>other. audit_entry_for_correlation_contexts_merged target other bridge) os, s')"
    "correlation_ok s'" "same_but_correlation ?s1 s'" "st_audit s' = st_audit s"
    "fst ` set (st_contexts s') = fst ` set (st_contexts ?s1) - set os"
    "\<And>b. context_of s' b = map_option (\<lambda>k. if k \<in> set os then target else k) (context_of ?s1 b)"
    by auto
  have "same_but_correlation s s'" using s'(3) by (simp add: same_but_correlation_def)
  moreover have "context_of s' b =
      map_option (\<lambda>k. if k \<in> set (other # os) then target else k) (context_of s b)" for b
    using Cons.prems(3) unfolding s'(6) context_of_relabel by (cases "context_of s b") auto
  moreover have "fst ` set (st_contexts s') = fst ` set (st_contexts s) - set (other # os)"
    using s'(5) keys by auto
  ultimately show ?case
    using s'(1,2,4) by (simp add: db_bind_def move db_run)
qed

text \<open>The alerts of \<open>as\<close> have joined the context \<open>k\<close>, and nothing else has changed.\<close>

definition joined :: "string \<Rightarrow> uuid set \<Rightarrow> store \<Rightarrow> store \<Rightarrow> bool" where
  "joined k as s s' = (correlation_ok s' \<and> same_but_correlation s s' \<and> st_audit s' = st_audit s
     \<and> st_contexts s' = st_contexts s
     \<and> (\<forall>b. context_of s' b = (if b \<in> as then Some k else context_of s b)))"

lemma joined_refl: "correlation_ok s \<Longrightarrow> joined k {} s s"
  by (simp add: joined_def)

lemma joined_trans: "joined k A s t \<Longrightarrow> joined k B t u \<Longrightarrow> joined k (A \<union> B) s u"
  by (auto simp: joined_def same_but_correlation_def)

lemma add_member_joins:
  assumes "correlation_ok s" "k \<in> fst ` set (st_contexts s)" "context_of s a = None"
    and "a \<in> fst ` set (st_alerts s)"
  shows "add_member k a ev t s = Inr ((), insert_member k a ev t s)
    \<and> joined k {a} s (insert_member k a ev t s)"
  using assms member_iff_context [of a s] context_of_insert [of a s k ev t]
  by (simp add: add_member_eq joined_def)

definition newcomers :: "(uuid, string) dict \<Rightarrow> pairing list \<Rightarrow> uuid set" where
  "newcomers known qs = {al_id c | c items. (c, items) \<in> set qs \<and> map_of known (al_id c) = None}"

lemma newcomers_Cons:
  "newcomers known ((c, items) # qs) =
     (if map_of known (al_id c) = None then insert (al_id c) (newcomers known qs) else newcomers known qs)"
  by (auto simp: newcomers_def)

lemma add_peers_joins:
  assumes "correlation_ok s" "k \<in> fst ` set (st_contexts s)" "distinct (map (al_id \<circ> fst) qs)"
    and "\<forall>a \<in> newcomers known qs. a \<in> fst ` set (st_alerts s) \<and> context_of s a = None"
  shows "\<exists>s'. add_peers k alert_id t known qs s =
      Inr (map (\<lambda>(c, items). (al_id c, stored_evidence alert_id items))
             (filter (\<lambda>(c, items). map_of known (al_id c) = None) qs), s')
    \<and> joined k (newcomers known qs) s s'"
  using assms
proof (induction qs arbitrary: s)
  case Nil
  then show ?case by (simp add: db_run joined_refl newcomers_def)
next
  case (Cons q qs)
  obtain c items where q: "q = (c, items)" by (cases q)
  show ?case
  proof (cases "map_of known (al_id c)")
    case None
    define s1 where "s1 = insert_member k (al_id c) (stored_evidence alert_id items) t s"
    have "context_of s (al_id c) = None" "al_id c \<in> fst ` set (st_alerts s)"
      using Cons.prems(4) None by (simp_all add: q newcomers_Cons)
    then have add: "add_member k (al_id c) (stored_evidence alert_id items) t s = Inr ((), s1)"
      and j1: "joined k {al_id c} s s1"
      using add_member_joins [OF Cons.prems(1,2), of "al_id c" "stored_evidence alert_id items" t]
      unfolding s1_def by blast+
    have "al_id c \<notin> newcomers known qs"
      using Cons.prems(3) by (force simp: q newcomers_def)
    then have new: "\<forall>a \<in> newcomers known qs. a \<in> fst ` set (st_alerts s1) \<and> context_of s1 a = None"
      using Cons.prems(4) None j1 by (auto simp: q newcomers_Cons joined_def same_but_correlation_def)
    have pre: "correlation_ok s1" "k \<in> fst ` set (st_contexts s1)" "distinct (map (al_id \<circ> fst) qs)"
      using j1 Cons.prems(2,3) by (simp_all add: joined_def comp_def)
    obtain s' where run: "add_peers k alert_id t known qs s1 =
        Inr (map (\<lambda>(c, items). (al_id c, stored_evidence alert_id items))
             (filter (\<lambda>(c, items). map_of known (al_id c) = None) qs), s')"
      and j2: "joined k (newcomers known qs) s1 s'"
      using Cons.IH [OF pre new] by blast
    show ?thesis
      using joined_trans [OF j1 j2] None
      by (simp add: q db_bind_def add run db_run newcomers_Cons)
  next
    case (Some k')
    then show ?thesis using Cons.IH [OF Cons.prems(1,2)] Cons.prems(3,4) by (simp add: q newcomers_Cons)
  qed
qed

subsection \<open>The target context\<close>

text \<open>The contexts of \<open>ks\<close> have become the context \<open>target\<close>.\<close>

definition unified :: "string list \<Rightarrow> string \<Rightarrow> store \<Rightarrow> store \<Rightarrow> bool" where
  "unified ks target s s' = (correlation_ok s' \<and> same_but_correlation s s' \<and> st_audit s' = st_audit s
     \<and> target \<in> fst ` set (st_contexts s')
     \<and> fst ` set (st_contexts s') - {target} = fst ` set (st_contexts s) - set ks - {target}
     \<and> (\<forall>b. context_of s' b = map_option (\<lambda>k. if k \<in> set ks then target else k) (context_of s b)))"

lemma choose_target_founds:
  assumes "correlation_ok s" "next_context_id t s = Inr k" "k \<notin> fst ` set (st_contexts s)"
  shows "\<exists>entries s'. choose_target alert_id t qs [] s = Inr ((k, [], entries), s') \<and> unified [] k s s'"
proof -
  define s' where "s' = s\<lparr>st_contexts := st_contexts s @ [(k, new_context k t)]\<rparr>"
  have "create_context t s = Inr (k, s')"
    using assms(2,3) by (simp add: create_context_eq s'_def)
  moreover have "unified [] k s s'"
    using assms(1,3) by (auto simp: unified_def s'_def correlation_ok_def same_but_correlation_def
        context_of_def membership_for_alert_def option.map_ident)
  ultimately show ?thesis by (simp add: choose_target_def db_bind_def db_run)
qed

lemma choose_target_merges:
  assumes "correlation_ok s" "set (k # ks) \<subseteq> fst ` set (st_contexts s)" "distinct (k # ks)"
  shows "\<exists>entries s'. choose_target alert_id t qs (k # ks) s = Inr ((k, ks, entries), s')
    \<and> unified (k # ks) k s s'"
proof -
  have "k \<in> fst ` set (st_contexts s)" "k \<notin> set ks" using assms(2,3) by auto
  from merge_contexts_run [OF assms(1) this] obtain entries s' where
    run: "merge_contexts k alert_id ks s = Inr (entries, s')"
    and ok: "correlation_ok s'" "same_but_correlation s s'" "st_audit s' = st_audit s"
      "fst ` set (st_contexts s') = fst ` set (st_contexts s) - set ks"
    and cx: "\<And>b. context_of s' b = map_option (\<lambda>x. if x \<in> set ks then k else x) (context_of s b)"
    by blast
  have "context_of s' b = map_option (\<lambda>x. if x \<in> set (k # ks) then k else x) (context_of s b)" for b
    by (cases "context_of s b") (simp_all add: cx)
  moreover have "k \<in> fst ` set (st_contexts s')"
    "fst ` set (st_contexts s') - {k} = fst ` set (st_contexts s) - set (k # ks) - {k}"
    using ok(4) assms(2,3) by auto
  ultimately have "unified (k # ks) k s s'" using ok(1,2,3) by (simp add: unified_def)
  then show ?thesis by (simp add: choose_target_def db_bind_def run db_run)
qed

lemma refresh_bounds_run:
  assumes "correlation_ok s" "k \<in> fst ` set (st_contexts s)"
  shows "\<exists>s'. refresh_bounds k t s = Inr ((), s') \<and> correlation_ok s' \<and> same_but_correlation s s'
    \<and> st_audit s' = st_audit s \<and> fst ` set (st_contexts s') = fst ` set (st_contexts s)
    \<and> (\<forall>b. context_of s' b = context_of s b)"
proof -
  obtain r where r: "map_of (st_contexts s) k = Some r"
    using assms(2) by (metis imageE map_of_eq_None_iff not_None_eq prod.collapse rev_image_eqI)
  then have "refresh_bounds k t s = Inr ((), s\<lparr>st_contexts :=
      AList.update k (bounded_context (member_times k s) t r) (st_contexts s)\<rparr>)"
    by (simp add: refresh_bounds_eq)
  moreover have "fst ` set (AList.update k v (st_contexts s)) = fst ` set (st_contexts s)" for v
    using assms(2) by (simp add: dom_update insert_absorb)
  ultimately show ?thesis
    using assms(1) by (auto simp: correlation_ok_def same_but_correlation_def distinct_update context_of_def
        membership_for_alert_def)
qed

subsection \<open>Applying the decision\<close>

definition peers_of :: "pairing list \<Rightarrow> uuid set" where
  "peers_of qs = (al_id \<circ> fst) ` set qs"

text \<open>
  The new partition: the alert, its peers and every member of a peer's context share the context
  \<open>k\<close>; the context of any other alert is unchanged.
\<close>

definition regrouped :: "uuid \<Rightarrow> uuid set \<Rightarrow> string \<Rightarrow> store \<Rightarrow> uuid \<Rightarrow> string option" where
  "regrouped alert_id peers k s b =
     (if b = alert_id \<or> b \<in> peers \<or> (\<exists>p \<in> peers. context_of s p \<noteq> None \<and> context_of s b = context_of s p)
      then Some k else context_of s b)"

definition correlated :: "uuid \<Rightarrow> uuid set \<Rightarrow> string \<Rightarrow> store \<Rightarrow> store \<Rightarrow> bool" where
  "correlated alert_id peers k s s' = (correlation_ok s' \<and> same_but_correlation s s'
     \<and> (\<forall>b. context_of s' b = regrouped alert_id peers k s b)
     \<and> (\<exists>entries. st_audit s' = st_audit s @ entries))"

definition target_known :: "pairing list \<Rightarrow> store \<Rightarrow> bool" where
  "target_known qs s = (\<exists>p \<in> peers_of qs. context_of s p \<noteq> None)"

lemma choose_target_run:
  assumes "correlation_ok s" and ids: "ids = map (al_id \<circ> fst) qs"
    and fresh: "target_known qs s \<or> (next_context_id t s = Inr k0 \<and> k0 \<notin> fst ` set (st_contexts s))"
  shows "\<exists>k ks entries s'. choose_target alert_id t qs (involved_contexts (context_ids_for_alerts ids s) ids) s
       = Inr ((k, ks, entries), s')
    \<and> unified (involved_contexts (context_ids_for_alerts ids s) ids) k s s'"
proof -
  let ?inv = "involved_contexts (context_ids_for_alerts ids s) ids"
  have set: "set ?inv = {k. \<exists>a \<in> peers_of qs. context_of s a = Some k}"
    unfolding involved_set [OF assms(1)] by (simp add: ids peers_of_def image_comp)
  show ?thesis
  proof (cases ?inv)
    case Nil
    then have "\<not> target_known qs s" using set by (auto simp: target_known_def)
    with fresh choose_target_founds [OF assms(1), of t k0 alert_id qs] Nil show ?thesis by auto
  next
    case (Cons k ks)
    have "set (k # ks) \<subseteq> fst ` set (st_contexts s)"
      unfolding Cons [symmetric] set using context_of_exists [OF assms(1)] by blast
    moreover have "distinct (k # ks)" unfolding Cons [symmetric] by (rule involved_distinct)
    ultimately show ?thesis
      unfolding Cons using choose_target_merges [OF assms(1)] by blast
  qed
qed

lemma regrouped_after:
  assumes "\<And>b. context_of s1 b = map_option (\<lambda>k. if k \<in> K then target else k) (context_of s b)"
    and "K = {k. \<exists>a \<in> peers. context_of s a = Some k}"
  shows "(if b = alert_id \<or> (b \<in> peers \<and> context_of s b = None) then Some target else context_of s1 b)
    = regrouped alert_id peers target s b"
  using assms by (cases "context_of s b") (auto simp: regrouped_def)

lemma audit_append_run: "audit_append es t s = Inr ((), fold (audit_append_one t) es s)"
  by (simp add: audit_append_def db_run)

lemma audit_append_correlation [simp]:
  "correlation_ok (fold (audit_append_one t) es s) = correlation_ok s"
  "same_but_correlation s' (fold (audit_append_one t) es s) = same_but_correlation s' s"
  "context_of (fold (audit_append_one t) es s) b = context_of s b"
  by (simp_all add: correlation_ok_def same_but_correlation_def context_of_def membership_for_alert_def)

lemma audit_append_grows: "\<exists>rows. st_audit (fold (audit_append_one t) es s) = st_audit s @ rows"
proof (induction es arbitrary: s)
  case (Cons e es)
  obtain rows where "st_audit (fold (audit_append_one t) es (audit_append_one t e s))
      = st_audit (audit_append_one t e s) @ rows" using Cons by blast
  moreover have "\<exists>row. st_audit (audit_append_one t e s) = st_audit s @ [row]"
    by (simp add: audit_append_one_def)
  ultimately show ?case by auto
qed simp

lemma apply_correlation_run:
  assumes ok: "correlation_ok s" and alert: "alert_id \<in> fst ` set (st_alerts s)" "context_of s alert_id = None"
    and peers: "distinct (map (al_id \<circ> fst) qs)" "peers_of qs \<subseteq> fst ` set (st_alerts s) - {alert_id}"
    and fresh: "target_known qs s \<or> (next_context_id t s = Inr k0 \<and> k0 \<notin> fst ` set (st_contexts s))"
  shows "\<exists>r s'. apply_correlation alert_id t qs s = Inr (r, s')
    \<and> correlated alert_id (peers_of qs) (cr_context_id r) s s'
    \<and> cr_alert_id r = alert_id \<and> cr_linked_alert_ids r = sort (map (al_id \<circ> fst) qs)
    \<and> cr_evidence r = sort_evidence (all_evidence qs)"
proof -
  define ids where "ids = map (al_id \<circ> fst) qs"
  define known where "known = context_ids_for_alerts ids s"
  have ids: "set ids = peers_of qs" by (simp add: ids_def peers_of_def image_comp)
  have known: "map_of known b = (if b \<in> peers_of qs then context_of s b else None)" for b
    unfolding known_def context_ids_known [OF ok] ids ..
  obtain k ks entries s1 where
    run1: "choose_target alert_id t qs (involved_contexts known ids) s = Inr ((k, ks, entries), s1)"
    and u: "unified (involved_contexts known ids) k s s1"
    using choose_target_run [OF ok ids_def fresh] unfolding known_def by blast
  have inv: "set (involved_contexts known ids) = {k. \<exists>a \<in> peers_of qs. context_of s a = Some k}"
    unfolding known_def involved_set [OF ok] ids ..
  have cx1: "context_of s1 b = map_option (\<lambda>x. if x \<in> set (involved_contexts known ids) then k else x)
      (context_of s b)" for b using u by (simp add: unified_def)
  have alerts1: "st_alerts s1 = st_alerts s" using u by (simp add: unified_def same_but_correlation_def)
  have new: "newcomers known qs = {b \<in> peers_of qs. context_of s b = None}"
    by (force simp: newcomers_def known peers_of_def)
  have "correlation_ok s1" "k \<in> fst ` set (st_contexts s1)" using u by (simp_all add: unified_def)
  moreover have "\<forall>a \<in> newcomers known qs. a \<in> fst ` set (st_alerts s1) \<and> context_of s1 a = None"
    using peers(2) by (auto simp: new alerts1 cx1)
  ultimately obtain added s2 where run2: "add_peers k alert_id t known qs s1 = Inr (added, s2)"
    and j2: "joined k (newcomers known qs) s1 s2"
    using add_peers_joins [of s1 k qs known alert_id t] peers(1) by blast
  define own where "own = concat (map (\<lambda>(c, items). stored_evidence (al_id c) items) qs)"
  define s3 where "s3 = insert_member k alert_id own t s2"
  have "alert_id \<notin> newcomers known qs" using peers(2) by (auto simp: new)
  then have c2: "context_of s2 alert_id = None" using j2 alert(2) by (simp add: joined_def cx1)
  have "correlation_ok s2" "k \<in> fst ` set (st_contexts s2)" "alert_id \<in> fst ` set (st_alerts s2)"
    using j2 u alert(1) by (simp_all add: joined_def unified_def same_but_correlation_def)
  from add_member_joins [OF this(1,2) c2 this(3), of own t]
  have run3: "add_member k alert_id own t s2 = Inr ((), s3)" and j3: "joined k {alert_id} s2 s3"
    unfolding s3_def by blast+
  have j: "joined k (newcomers known qs \<union> {alert_id}) s1 s3" by (rule joined_trans [OF j2 j3])
  then have "correlation_ok s3" "k \<in> fst ` set (st_contexts s3)" using u by (simp_all add: joined_def unified_def)
  from refresh_bounds_run [OF this, of t] obtain s4 where
    run4: "refresh_bounds k t s3 = Inr ((), s4)" and ok4: "correlation_ok s4" "same_but_correlation s3 s4"
      "st_audit s4 = st_audit s3" and cx4: "\<And>b. context_of s4 b = context_of s3 b" by blast
  let ?links = "entries @ map (\<lambda>(a, stored). audit_entry_for_correlation_alert_linked k a stored)
            (sort_key (uuid_str \<circ> fst) (added @ [(alert_id, own)]))"
  define s5 where "s5 = fold (audit_append_one t) ?links s4"
  have "context_of s5 b = regrouped alert_id (peers_of qs) k s b" for b
    using regrouped_after [OF cx1 inv, of b alert_id] j
    by (simp add: s5_def cx4 joined_def new)
  moreover have "same_but_correlation s s5"
    using u j ok4(2) by (simp add: s5_def unified_def joined_def same_but_correlation_def)
  moreover have "\<exists>rows. st_audit s5 = st_audit s @ rows"
    using audit_append_grows [of t ?links s4] u j ok4(3) by (simp add: s5_def unified_def joined_def)
  ultimately have "correlated alert_id (peers_of qs) k s s5"
    using ok4(1) by (simp add: correlated_def s5_def)
  moreover have "apply_correlation alert_id t qs s = Inr (\<lparr>cr_context_id = k, cr_alert_id = alert_id,
      cr_linked_alert_ids = sort ids, cr_evidence = sort_evidence (all_evidence qs),
      cr_merged_context_ids = ks\<rparr>, s5)"
    unfolding apply_correlation_def Let_def ids_def [symmetric] own_def [symmetric]
    by (simp add: db_bind_def db_run run1 [unfolded known_def] run2 [unfolded known_def] run3 run4
        audit_append_run s5_def)
  ultimately show ?thesis by (simp add: ids_def)
qed

lemma apply_correlation_fresh:
  assumes ok: "correlation_ok s" and run: "apply_correlation alert_id t qs s = Inr (r, s')"
  shows "target_known qs s \<or> (\<exists>k. next_context_id t s = Inr k \<and> k \<notin> fst ` set (st_contexts s))"
proof (rule disjCI)
  let ?ids = "map (al_id \<circ> fst) qs"
  assume fail: "\<not> (\<exists>k. next_context_id t s = Inr k \<and> k \<notin> fst ` set (st_contexts s))"
  show "target_known qs s"
  proof (rule ccontr)
    assume "\<not> target_known qs s"
    then have "set (involved_contexts (context_ids_for_alerts ?ids s) ?ids) = {}"
      unfolding involved_set [OF ok] by (auto simp: target_known_def peers_of_def)
    then have inv: "involved_contexts (context_ids_for_alerts ?ids s) ?ids = []" by simp
    have "choose_target alert_id t qs [] s = Inr z \<Longrightarrow> False" for z
      using fail by (cases z) (auto simp: choose_target_def create_context_eq)
    then have "\<exists>e. choose_target alert_id t qs [] s = Inl e"
      by (cases "choose_target alert_id t qs [] s") auto
    with run show False
      by (auto simp: apply_correlation_def Let_def db_bind_def db_run inv)
  qed
qed

subsection \<open>The service\<close>

definition alerts_keyed :: "store \<Rightarrow> bool" where
  "alerts_keyed s = (distinct (map fst (st_alerts s)) \<and> (\<forall>(u, a) \<in> set (st_alerts s). al_id a = u))"

text \<open>The peers of an alert, by the policy: the candidates with sufficient evidence.\<close>

definition correlated_peers :: "int \<Rightarrow> uuid \<Rightarrow> instant \<Rightarrow> alert_row \<Rightarrow> store \<Rightarrow> uuid set" where
  "correlated_peers window alert_id received alert s =
     {u. \<exists>c. (u, c) \<in> set (st_alerts s) \<and> u \<noteq> alert_id \<and> al_group_key c \<noteq> al_group_key alert
        \<and> received - window \<le> al_received_at c \<and> al_received_at c \<le> received
        \<and> is_sufficient (pairwise_evidence (al_payload alert) (al_payload c))}"

lemma not_sufficient_Nil [simp]: "\<not> is_sufficient []"
  by (simp add: is_sufficient_def supporting_combination_def)

lemma keyed_mem:
  "alerts_keyed s \<Longrightarrow> (u, c) \<in> set (st_alerts s) \<longleftrightarrow> c \<in> snd ` set (st_alerts s) \<and> al_id c = u"
  by (force simp: alerts_keyed_def)

lemma keyed_distinct: "alerts_keyed s \<Longrightarrow> distinct (map al_id (rows (st_alerts s)))"
proof -
  assume "alerts_keyed s"
  then have "map al_id (rows (st_alerts s)) = map fst (st_alerts s)" and "distinct (map fst (st_alerts s))"
    by (auto simp: alerts_keyed_def rows_def intro!: map_cong)
  then show ?thesis by metis
qed

lemma distinct_sort_filter: "distinct (map f xs) \<Longrightarrow> distinct (map f (sort_key k (filter P xs)))"
proof -
  assume "distinct (map f xs)"
  then have "inj_on f (set xs)" "distinct xs" by (simp_all add: distinct_map)
  then show ?thesis by (auto simp: distinct_map intro: inj_on_subset)
qed

lemma qualifying_peers:
  fixes alert_id :: uuid and window received :: int and alert :: alert_row
  assumes "alerts_keyed s"
  defines "qs \<equiv> qualifying alert (candidates received window alert_id (al_group_key alert) s)"
  shows "peers_of qs = correlated_peers window alert_id received alert s"
    and "distinct (map (al_id \<circ> fst) qs)"
    and "peers_of qs \<subseteq> fst ` set (st_alerts s) - {alert_id}"
proof -
  show eq: "peers_of qs = correlated_peers window alert_id received alert s"
  proof (rule set_eqI)
    fix u
    have "u \<in> peers_of qs \<longleftrightarrow> (\<exists>c \<in> snd ` set (st_alerts s). al_id c = u \<and> al_id c \<noteq> alert_id
        \<and> al_group_key c \<noteq> al_group_key alert \<and> received - window \<le> al_received_at c
        \<and> al_received_at c \<le> received \<and> is_sufficient (pairwise_evidence (al_payload alert) (al_payload c)))"
      by (auto simp: qs_def peers_of_def qualifying_def candidates_def rows_def image_iff)
    also have "\<dots> \<longleftrightarrow> u \<in> correlated_peers window alert_id received alert s"
      unfolding correlated_peers_def mem_Collect_eq keyed_mem [OF assms(1)] by blast
    finally show "u \<in> peers_of qs \<longleftrightarrow> u \<in> correlated_peers window alert_id received alert s" .
  qed
  have "map (al_id \<circ> fst) (qualifying alert cands) =
      map al_id (filter (\<lambda>c. pairwise_evidence (al_payload alert) (al_payload c) \<noteq> []
        \<and> is_sufficient (pairwise_evidence (al_payload alert) (al_payload c))) cands)" for cands
    by (induction cands) (auto simp: qualifying_def)
  moreover have "distinct (map al_id (candidates received window alert_id (al_group_key alert) s))"
    unfolding candidates_def by (rule distinct_sort_filter [OF keyed_distinct [OF assms(1)]])
  ultimately show "distinct (map (al_id \<circ> fst) qs)"
    unfolding qs_def by (simp add: distinct_map_filter)
  show "peers_of qs \<subseteq> fst ` set (st_alerts s) - {alert_id}"
    unfolding eq by (force simp: correlated_peers_def)
qed

lemma decide_and_apply_cases:
  assumes ok: "correlation_ok s" "alerts_keyed s"
  obtains (unknown) "get_alert_row a s = None" "decide_and_apply w a t s = Inr (None, s)"
  | (member) alert where "get_alert_row a s = Some alert" "context_of s a \<noteq> None"
      "decide_and_apply w a t s = Inr (None, s)"
  | (alone) alert where "get_alert_row a s = Some alert" "context_of s a = None"
      "correlated_peers w a t alert s = {}" "decide_and_apply w a t s = Inr (None, s)"
  | (exhausted) alert e where "get_alert_row a s = Some alert" "context_of s a = None"
      "correlated_peers w a t alert s \<noteq> {}"
      "\<forall>p \<in> correlated_peers w a t alert s. context_of s p = None"
      "\<not> (\<exists>k. next_context_id t s = Inr k \<and> k \<notin> fst ` set (st_contexts s))"
      "decide_and_apply w a t s = Inl e"
  | (united) alert r s' where "get_alert_row a s = Some alert" "context_of s a = None"
      "correlated_peers w a t alert s \<noteq> {}" "decide_and_apply w a t s = Inr (Some r, s')"
      "correlated a (correlated_peers w a t alert s) (cr_context_id r) s s'"
      "set (cr_linked_alert_ids r) = correlated_peers w a t alert s" "cr_alert_id r = a"
proof (cases "get_alert_row a s")
  case None
  then show ?thesis using unknown by (simp add: decide_and_apply_def db_bind_def db_run)
next
  case (Some alert)
  define qs where "qs = qualifying alert (candidates t w a (al_group_key alert) s)"
  note q = qualifying_peers [OF ok(2), of alert t w a, folded qs_def]
  have row: "a \<in> fst ` set (st_alerts s)"
    using Some by (force simp: get_alert_row_def dest: map_of_SomeD)
  have mem: "membership_for_alert a s = None \<longleftrightarrow> context_of s a = None"
    by (simp add: context_of_def)
  note run = decide_and_apply_def db_bind_def db_run Some qs_def [symmetric] mem
  show ?thesis
  proof (cases "context_of s a = None")
    case False
    then obtain k where "context_of s a = Some k" by auto
    with Some show ?thesis by (intro member) (simp_all add: run)
  next
    case cn: True
    show ?thesis
    proof (cases "qs = []")
      case True
      with q(1) have "correlated_peers w a t alert s = {}" by (simp add: peers_of_def)
      with Some cn True show ?thesis by (intro alone) (simp_all add: run)
    next
      case ne: False
      have pe: "correlated_peers w a t alert s \<noteq> {}"
        using ne unfolding q(1) [symmetric] peers_of_def by simp
      show ?thesis
      proof (cases "target_known qs s \<or> (\<exists>k. next_context_id t s = Inr k \<and> k \<notin> fst ` set (st_contexts s))")
        case True
        then obtain k0 where "target_known qs s \<or> (next_context_id t s = Inr k0 \<and> k0 \<notin> fst ` set (st_contexts s))"
          by blast
        from apply_correlation_run [OF ok(1) row cn q(2,3) this] obtain r s' where
          "apply_correlation a t qs s = Inr (r, s')" "correlated a (peers_of qs) (cr_context_id r) s s'"
          "cr_alert_id r = a" "cr_linked_alert_ids r = sort (map (al_id \<circ> fst) qs)" by blast
        with Some cn ne pe show ?thesis
          by (intro united [of alert r s']) (simp_all add: run q(1) [symmetric] peers_of_def image_comp)
      next
        case False
        obtain e where "apply_correlation a t qs s = Inl e"
          using False apply_correlation_fresh [OF ok(1), of a t qs]
          by (cases "apply_correlation a t qs s") auto
        with False Some cn ne pe show ?thesis
          by (intro exhausted [of alert e]) (auto simp: run target_known_def q(1))
      qed
    qed
  qed
qed

subsection \<open>Properties\<close>

lemma correlate_run:
  assumes "is_aware t"
  shows "decide_and_apply w a (as_utc t) s = Inr (r, s') \<Longrightarrow> correlate True w a t s = (Inr r, s')"
    and "correlate db_ok w a t s = (Inr r, s') \<longleftrightarrow> db_ok \<and> decide_and_apply w a (as_utc t) s = Inr (r, s')"
    and "correlate db_ok w a t s = (Inl e, s') \<Longrightarrow> s' = s"
  using assms
  by (auto simp: correlate_def session_scope_def split: sum.splits prod.splits if_splits)

lemma correlation_unites_core:
  assumes "correlation_ok s" "alerts_keyed s" "is_aware t"
    and "correlate db_ok w a t s = (Inr (Some r), s')"
  shows "\<exists>alert. get_alert_row a s = Some alert
    \<and> set (cr_linked_alert_ids r) = correlated_peers w a (as_utc t) alert s
    \<and> correlated_peers w a (as_utc t) alert s \<noteq> {}
    \<and> correlated a (set (cr_linked_alert_ids r)) (cr_context_id r) s s'"
proof -
  have "decide_and_apply w a (as_utc t) s = Inr (Some r, s')"
    using assms(4) by (simp add: correlate_run(2) [OF assms(3)])
  then show ?thesis
    by (cases rule: decide_and_apply_cases [OF assms(1,2), of a w "as_utc t"]) auto
qed

text \<open>
  C13. Correlating unites classes: when an alert is correlated, its peers are exactly the alerts of
  other groups received in the window before it with sufficient evidence, and afterwards the
  alert, its peers and every alert that shared a context with a peer are in the one returned
  context, while the context of every other alert is what it was.
\<close>

theorem correlation_unites_classes:
  assumes "correlation_ok s" "alerts_keyed s" "is_aware t"
    and "correlate db_ok w a t s = (Inr (Some r), s')"
  shows "\<exists>alert. get_alert_row a s = Some alert
    \<and> set (cr_linked_alert_ids r) = correlated_peers w a (as_utc t) alert s
    \<and> set (cr_linked_alert_ids r) \<noteq> {}
    \<and> (\<forall>b. context_of s' b =
        (if b = a \<or> b \<in> set (cr_linked_alert_ids r)
            \<or> (\<exists>p \<in> set (cr_linked_alert_ids r). context_of s p \<noteq> None \<and> context_of s b = context_of s p)
         then Some (cr_context_id r) else context_of s b))"
  using correlation_unites_core [OF assms] unfolding correlated_def regrouped_def by metis

text \<open>
  Correlation decides every stored alert when the database accepts it: nothing is done when
  the alert is already in a context or has no peer; otherwise it is correlated, unless its peers
  are in no context and the day's context ids are exhausted.
\<close>

theorem correlation_decides:
  assumes "correlation_ok s" "alerts_keyed s" "is_aware t" "get_alert_row a s = Some alert"
  shows "(if context_of s a \<noteq> None \<or> correlated_peers w a (as_utc t) alert s = {}
     then correlate True w a t s = (Inr None, s)
     else (\<exists>p \<in> correlated_peers w a (as_utc t) alert s. context_of s p \<noteq> None)
         \<or> (\<exists>k. next_context_id (as_utc t) s = Inr k \<and> k \<notin> fst ` set (st_contexts s))
       \<longrightarrow> (\<exists>r s'. correlate True w a t s = (Inr (Some r), s')))"
  using assms(1,2)
proof (cases rule: decide_and_apply_cases [where a = a and w = w and t = "as_utc t"])
  case unknown
  with assms(4) show ?thesis by simp
next
  case member
  then show ?thesis using correlate_run(1) [OF assms(3)] by auto
next
  case alone
  then show ?thesis using correlate_run(1) [OF assms(3)] assms(4) by auto
next
  case exhausted
  then show ?thesis using assms(4) by auto
next
  case (united alert r s')
  then show ?thesis using correlate_run(1) [OF assms(3) united(4)] assms(4) by auto
qed

text \<open>
  Correlation is idempotent: once an alert has been correlated, correlating it or any of its
  peers again, with any window and at any time, answers nothing and leaves the store as it is.
\<close>

theorem correlation_idempotent:
  assumes "correlation_ok s" "alerts_keyed s" "is_aware t" "is_aware t'"
    and run: "correlate db_ok w a t s = (Inr (Some r), s')"
    and b: "b = a \<or> b \<in> set (cr_linked_alert_ids r)"
  shows "correlate True w' b t' s' = (Inr None, s')"
proof -
  have "context_of s' b \<noteq> None"
    using correlation_unites_core [OF assms(1-3) run] b by (auto simp: correlated_def regrouped_def)
  then show ?thesis
    using correlate_run(1) [OF assms(4)]
    by (simp add: decide_and_apply_def db_bind_def db_run context_of_def split: option.split)
qed

text \<open>
  Correlation is confined: whatever the call does or whatever fails, an alert stays in at most
  one context, every membership refers to an existing context, no alert, incident, group, event,
  notification or feedback row is touched, the audit log only grows, and a call that does not
  report a result leaves the store unchanged.
\<close>

theorem correlation_confined:
  assumes "correlation_ok s" "alerts_keyed s" "correlate db_ok w a t s = (res, s')"
  shows "correlation_ok s' \<and> same_but_correlation s s' \<and> (\<exists>rows. st_audit s' = st_audit s @ rows)
    \<and> (s' = s \<or> (\<exists>r. res = Inr (Some r)))"
proof (cases "is_aware t \<and> (\<exists>x. res = Inr x)")
  case False
  then have "s' = s"
    using assms(3) correlate_run(3) [of t db_ok w a s]
    by (cases res) (auto simp: correlate_def split: if_splits)
  with assms(1) show ?thesis by simp
next
  case True
  then obtain x where "decide_and_apply w a (as_utc t) s = Inr (x, s')" "res = Inr x"
    using assms(3) correlate_run(2) by blast
  then show ?thesis
    by (cases rule: decide_and_apply_cases [OF assms(1,2), of a w "as_utc t"])
       (use assms(1) in \<open>auto simp: correlated_def\<close>)
qed

subsection \<open>Witnesses\<close>

definition correlated_row :: "uuid \<Rightarrow> string \<Rightarrow> instant \<Rightarrow> alert_row" where
  "correlated_row u agent t = \<lparr>al_id = u, al_source = ''wazuh'', al_received_at = t, al_group_key = agent,
     al_event_identity = agent, al_rule_id = ''5710'', al_rule_level = 5, al_agent_id = agent,
     al_agent_name = ''host'', al_payload = sample_correlated u agent [sample_ip source_ip_field],
     al_incident_id = None, al_created_at = t\<rparr>"

definition correlation_store :: store where
  "correlation_store = empty_store\<lparr>st_alerts :=
     [(1, correlated_row 1 ''001'' 0), (2, correlated_row 2 ''002'' 5), (3, correlated_row 3 ''003'' 6)]\<rparr>"

lemma correlation_store_ok: "correlation_ok correlation_store" "alerts_keyed correlation_store"
  by (simp_all add: correlation_ok_def alerts_keyed_def correlation_store_def empty_store_def correlated_row_def)

lemma correlation_run:
  obtains r s' where "correlate True 10 2 (Aware 5 0) correlation_store = (Inr (Some r), s')"
    "cr_linked_alert_ids r = [1]" "cr_context_id r = ''CORR-1970-01-01-0001''"
proof -
  have "case correlate True 10 2 (Aware 5 0) correlation_store of
      (Inr (Some r), s') \<Rightarrow> cr_linked_alert_ids r = [1] \<and> cr_context_id r = ''CORR-1970-01-01-0001''
    | _ \<Rightarrow> False"
    by code_simp
  then show ?thesis using that by (auto split: prod.splits sum.splits option.splits)
qed

theorem correlation_unites_classes_witness:
  "\<exists>r s'. correlate True 10 2 (Aware 5 0) correlation_store = (Inr (Some r), s')
     \<and> context_of s' 1 = Some ''CORR-1970-01-01-0001'' \<and> context_of s' 2 = Some ''CORR-1970-01-01-0001''
     \<and> context_of s' 3 = None"
proof -
  obtain r s' where r: "correlate True 10 2 (Aware 5 0) correlation_store = (Inr (Some r), s')"
    "cr_linked_alert_ids r = [1]" "cr_context_id r = ''CORR-1970-01-01-0001''" by (rule correlation_run)
  have "context_of correlation_store b = None" for b
    by (simp add: context_of_def membership_for_alert_def correlation_store_def empty_store_def)
  with correlation_unites_classes [OF correlation_store_ok _ r(1)] r show ?thesis by auto
qed

theorem correlation_decides_witness:
  "correlate True 10 1 (Aware 0 0) correlation_store = (Inr None, correlation_store)"
proof -
  have "get_alert_row 1 correlation_store = Some (correlated_row 1 ''001'' 0)"
    by (simp add: get_alert_row_def correlation_store_def)
  moreover have "correlated_peers 10 1 0 (correlated_row 1 ''001'' 0) correlation_store = {}"
    by (auto simp: correlated_peers_def correlation_store_def correlated_row_def)
  ultimately show ?thesis
    using correlation_decides [OF correlation_store_ok, of "Aware 0 0" 1 _ 10] by simp
qed

theorem correlation_idempotent_witness:
  "\<exists>r s'. correlate True 10 2 (Aware 5 0) correlation_store = (Inr (Some r), s')
     \<and> correlate True 99 1 (Aware 7 0) s' = (Inr None, s')"
proof -
  obtain r s' where r: "correlate True 10 2 (Aware 5 0) correlation_store = (Inr (Some r), s')"
    "cr_linked_alert_ids r = [1]" by (rule correlation_run)
  with correlation_idempotent [OF correlation_store_ok _ _ r(1), of "Aware 7 0" 1 99] show ?thesis by auto
qed

theorem correlation_confined_witness:
  "\<exists>r s'. correlate True 10 2 (Aware 5 0) correlation_store = (Inr (Some r), s') \<and> correlation_ok s'
     \<and> st_alerts s' = st_alerts correlation_store"
proof -
  obtain r s' where r: "correlate True 10 2 (Aware 5 0) correlation_store = (Inr (Some r), s')"
    by (rule correlation_run)
  with correlation_confined [OF correlation_store_ok r] show ?thesis by (auto simp: same_but_correlation_def)
qed

end
