(* ===== verification/Enrichment_Chain.thy ===== *)
theory Enrichment_Chain
  imports Alert_Model
begin

text \<open>
  The enrichment chain (enrichment/chain.py) over the provider interface (enrichment/providers.py).

  A provider is a record of its name, its flag and its lookup. The lookup may read and change the
  world outside the chain (its cache, the network), so it takes and returns a world of an arbitrary
  type; an exception is the name of its type, which is all the chain keeps of it.
\<close>

subsection \<open>The provider interface\<close>

datatype enrichment_status = SKIPPED | COMPLETE | PARTIAL | FAILED

fun enrichment_status_value :: "enrichment_status \<Rightarrow> string" where
  "enrichment_status_value SKIPPED = ''skipped''"
| "enrichment_status_value COMPLETE = ''complete''"
| "enrichment_status_value PARTIAL = ''partial''"
| "enrichment_status_value FAILED = ''failed''"

record enrichment_context =
  ec_alert_id :: "uuid option"
  ec_source :: string
  ec_received_at :: "instant option"
  ec_dedupe_group :: "string option"

definition empty_context :: enrichment_context where
  "empty_context = \<lparr>ec_alert_id = None, ec_source = ''unknown'', ec_received_at = None, ec_dedupe_group = None\<rparr>"

record provider_enrichment =
  pe_provider :: string
  pe_status :: enrichment_status
  pe_results :: "(string, (string, json) dict) dict"
  pe_notes :: "string list"

record 'w provider =
  pv_name :: string
  pv_enabled :: bool
  pv_enrich :: "ioc list \<Rightarrow> enrichment_context \<Rightarrow> 'w \<Rightarrow> (string + provider_enrichment) \<times> 'w"

text \<open>The offline provider: it looks up nothing and says so.\<close>

definition noop_provider :: "bool \<Rightarrow> 'w provider" where
  "noop_provider enabled = \<lparr>pv_name = ''noop'', pv_enabled = enabled,
     pv_enrich = (\<lambda>iocs context w. (Inr \<lparr>pe_provider = ''noop'', pe_status = SKIPPED, pe_results = [],
       pe_notes = [''noop: offline provider, no external lookup performed ('' @ nat_str (length iocs)
         @ '' indicator(s) received, none enriched)'']\<rparr>, w))\<rparr>"

subsection \<open>The chain\<close>

record provider_outcome =
  po_provider :: string
  po_status :: enrichment_status
  po_enriched :: nat
  po_error_type :: "string option"
  po_notes :: "string list"

record enrichment_outcome =
  eo_status :: enrichment_status
  eo_iocs :: "ioc list"
  eo_providers :: "provider_outcome list"

definition aggregate :: "enrichment_status list \<Rightarrow> enrichment_status" where
  "aggregate statuses =
     (let meaningful = filter (\<lambda>x. x \<noteq> SKIPPED) statuses in
      if meaningful = [] then SKIPPED
      else if list_all (\<lambda>x. x = COMPLETE) meaningful then COMPLETE
      else if list_all (\<lambda>x. x = FAILED) meaningful then FAILED
      else PARTIAL)"

definition skipped_outcome :: "string \<Rightarrow> string \<Rightarrow> provider_outcome" where
  "skipped_outcome name note = \<lparr>po_provider = name, po_status = SKIPPED, po_enriched = 0,
     po_error_type = None, po_notes = [note]\<rparr>"

definition failed_outcome :: "string \<Rightarrow> string \<Rightarrow> provider_outcome" where
  "failed_outcome name error = \<lparr>po_provider = name, po_status = FAILED, po_enriched = 0,
     po_error_type = Some error, po_notes = [''provider raised '' @ error]\<rparr>"

text \<open>Merging the payloads of one provider; the indicators are keyed by \<open>ioc.key\<close>.\<close>

definition with_payload :: "string \<Rightarrow> (string, json) dict \<Rightarrow> ioc \<Rightarrow> ioc" where
  "with_payload name payload i = i\<lparr>i_enrichment := AList.update name (JObj payload) (i_enrichment i)\<rparr>"

fun apply_results :: "string \<Rightarrow> (string, (string, json) dict) dict \<Rightarrow> (string, ioc) dict
    \<Rightarrow> (string, ioc) dict \<times> nat" where
  "apply_results name [] enriched = (enriched, 0)"
| "apply_results name ((key, payload) # results) enriched =
     (case map_of enriched key of
        None \<Rightarrow> apply_results name results enriched
      | Some i \<Rightarrow>
          (let (enriched', applied) =
             apply_results name results (AList.update key (with_payload name payload i) enriched)
           in (enriched', applied + 1)))"

record chain_state =
  cs_enriched :: "(string, ioc) dict"
  cs_outcomes :: "provider_outcome list"
  cs_statuses :: "enrichment_status list"

definition chain_step :: "ioc list \<Rightarrow> enrichment_context \<Rightarrow> 'w provider \<Rightarrow> chain_state \<times> 'w \<Rightarrow> chain_state \<times> 'w" where
  "chain_step ordered context p st =
     (let (c, w) = st in
      if \<not> pv_enabled p then
        (c\<lparr>cs_outcomes := cs_outcomes c @ [skipped_outcome (pv_name p) ''provider disabled'']\<rparr>, w)
      else
        (case pv_enrich p ordered context w of
           (Inl error, w') \<Rightarrow>
             (c\<lparr>cs_outcomes := cs_outcomes c @ [failed_outcome (pv_name p) error],
                cs_statuses := cs_statuses c @ [FAILED]\<rparr>, w')
         | (Inr result, w') \<Rightarrow>
             (let (enriched, applied) = apply_results (pv_name p) (pe_results result) (cs_enriched c) in
              (c\<lparr>cs_enriched := enriched,
                 cs_outcomes := cs_outcomes c @ [\<lparr>po_provider = pv_name p, po_status = pe_status result,
                   po_enriched = applied, po_error_type = None, po_notes = pe_notes result\<rparr>],
                 cs_statuses := cs_statuses c @ [pe_status result]\<rparr>, w'))))"

definition keyed :: "ioc list \<Rightarrow> (string, ioc) dict" where
  "keyed ordered = fold (\<lambda>i. AList.update (ioc_key i) i) ordered []"

definition chain_enrich :: "'w provider list \<Rightarrow> ioc list \<Rightarrow> enrichment_context option \<Rightarrow> 'w
    \<Rightarrow> enrichment_outcome \<times> 'w" where
  "chain_enrich providers iocs context w =
     (let context = (case context of None \<Rightarrow> empty_context | Some c \<Rightarrow> c);
          ordered = sort_key ioc_sort_key iocs in
      if ordered = [] then
        (\<lparr>eo_status = SKIPPED, eo_iocs = [],
          eo_providers = map (\<lambda>p. skipped_outcome (pv_name p) ''no indicators to enrich'') providers\<rparr>, w)
      else
        (let (c, w') = fold (chain_step ordered context) providers
               (\<lparr>cs_enriched = keyed ordered, cs_outcomes = [], cs_statuses = []\<rparr>, w) in
         (\<lparr>eo_status = aggregate (cs_statuses c),
           eo_iocs = sort_key ioc_sort_key (map snd (cs_enriched c)),
           eo_providers = cs_outcomes c\<rparr>, w')))"

subsection \<open>The merge touches one payload and nothing else\<close>

definition bare :: "ioc \<Rightarrow> ioc" where
  "bare i = i\<lparr>i_enrichment := []\<rparr>"

text \<open>The payload of a provider on an indicator of the table.\<close>

definition payload_of :: "(string, ioc) dict \<Rightarrow> string \<Rightarrow> string \<Rightarrow> json option" where
  "payload_of enriched key name =
     (case map_of enriched key of None \<Rightarrow> None | Some i \<Rightarrow> map_of (i_enrichment i) name)"

lemma bare_with_payload [simp]: "bare (with_payload name pl i) = bare i"
  by (simp add: bare_def with_payload_def)

lemma update_present_map:
  "distinct (map fst al) \<Longrightarrow> map_of al k = Some v \<Longrightarrow> f v' = f v \<Longrightarrow>
     map (f \<circ> snd) (AList.update k v' al) = map (f \<circ> snd) al"
  by (induction al) (auto split: if_splits)

lemma apply_results_keys: "map fst (fst (apply_results name rs en)) = map fst en"
  by (induction rs arbitrary: en rule: list.induct)
     (auto split: option.splits prod.splits simp: update_present_keys, metis fst_conv update_present_keys)

lemma apply_results_bare:
  "distinct (map fst en) \<Longrightarrow> map (bare \<circ> snd) (fst (apply_results name rs en)) = map (bare \<circ> snd) en"
proof (induction name rs en rule: apply_results.induct)
  case (2 name key payload results en)
  show ?case
  proof (cases "map_of en key")
    case None
    with 2 show ?thesis by simp
  next
    case (Some i)
    let ?en = "AList.update key (with_payload name payload i) en"
    have "distinct (map fst ?en)" using 2(3) Some by (simp add: update_present_keys)
    moreover have "map (bare \<circ> snd) ?en = map (bare \<circ> snd) en"
      by (rule update_present_map [OF 2(3) Some]) simp
    ultimately show ?thesis using 2(2) [OF Some] Some by (simp add: case_prod_unfold comp_def Let_def)
  qed
qed simp

lemma apply_results_other:
  "name' \<noteq> name \<or> snd (apply_results name rs en) = 0 \<Longrightarrow>
     payload_of (fst (apply_results name rs en)) key name' = payload_of en key name'"
proof (induction name rs en rule: apply_results.induct)
  case (2 name k payload results en)
  show ?case
  proof (cases "map_of en k")
    case None
    with 2 show ?thesis by simp
  next
    case (Some i)
    with 2(3) have "name' \<noteq> name" by (auto split: prod.splits)
    with 2(2) [OF Some] Some show ?thesis
      by (auto simp: payload_of_def update_conv with_payload_def split: prod.split)
  qed
qed simp

subsection \<open>The chain invariant\<close>

definition answered :: "provider_outcome list \<Rightarrow> string \<Rightarrow> bool" where
  "answered outcomes name =
     (\<exists>e \<in> set outcomes. po_provider e = name \<and> po_error_type e = None \<and> 0 < po_enriched e)"

definition chain_inv :: "(string, ioc) dict \<Rightarrow> string list \<Rightarrow> chain_state \<Rightarrow> bool" where
  "chain_inv en names c = (map fst (cs_enriched c) = map fst en
     \<and> map (bare \<circ> snd) (cs_enriched c) = map (bare \<circ> snd) en
     \<and> map po_provider (cs_outcomes c) = names
     \<and> (\<forall>name. \<not> answered (cs_outcomes c) name \<longrightarrow>
          (\<forall>key. payload_of (cs_enriched c) key name = payload_of en key name))
     \<and> ((\<exists>e \<in> set (cs_outcomes c). po_error_type e \<noteq> None) \<longrightarrow> FAILED \<in> set (cs_statuses c)))"

lemma answered_snoc: "answered (es @ [e]) name \<longleftrightarrow>
    answered es name \<or> (po_provider e = name \<and> po_error_type e = None \<and> 0 < po_enriched e)"
  by (auto simp: answered_def)

lemma outcome_simps [simp]:
  "po_provider (skipped_outcome n x) = n" "po_error_type (skipped_outcome n x) = None"
  "po_enriched (skipped_outcome n x) = 0"
  "po_provider (failed_outcome n x) = n" "po_error_type (failed_outcome n x) = Some x"
  "po_enriched (failed_outcome n x) = 0"
  by (simp_all add: skipped_outcome_def failed_outcome_def)

lemma chain_step_inv:
  assumes inv: "chain_inv en names c" and d: "distinct (map fst en)"
    and step: "chain_step ordered context p (c, w) = (c', w')"
  shows "chain_inv en (names @ [pv_name p]) c'"
proof (cases "pv_enabled p")
  case False
  with inv step show ?thesis by (auto simp: chain_step_def chain_inv_def answered_snoc)
next
  case True
  show ?thesis
  proof (cases "fst (pv_enrich p ordered context w)")
    case (Inl e)
    with True inv step show ?thesis
      by (auto simp: chain_step_def chain_inv_def answered_snoc split: prod.splits)
  next
    case (Inr result)
    define res where "res = apply_results (pv_name p) (pe_results result) (cs_enriched c)"
    have c': "c' = c\<lparr>cs_enriched := fst res,
        cs_outcomes := cs_outcomes c @ [\<lparr>po_provider = pv_name p, po_status = pe_status result,
           po_enriched = snd res, po_error_type = None, po_notes = pe_notes result\<rparr>],
        cs_statuses := cs_statuses c @ [pe_status result]\<rparr>"
      using True Inr step by (auto simp: chain_step_def res_def split: prod.splits)
    have keys: "map fst (fst res) = map fst (cs_enriched c)"
      unfolding res_def by (rule apply_results_keys)
    have "distinct (map fst (cs_enriched c))" using inv d by (metis chain_inv_def)
    then have bare: "map (bare \<circ> snd) (fst res) = map (bare \<circ> snd) (cs_enriched c)"
      unfolding res_def by (rule apply_results_bare)
    have other: "name \<noteq> pv_name p \<or> snd res = 0 \<Longrightarrow>
        payload_of (fst res) key name = payload_of (cs_enriched c) key name" for name key
      unfolding res_def by (rule apply_results_other)
    show ?thesis
      using inv keys bare other unfolding c' chain_inv_def
      by (auto simp: answered_snoc)
  qed
qed

lemma chain_fold_inv:
  assumes "chain_inv en names c" "distinct (map fst en)"
    and "fold (chain_step ordered context) ps (c, w) = (c', w')"
  shows "chain_inv en (names @ map pv_name ps) c'"
  using assms
proof (induction ps arbitrary: names c w)
  case (Cons p ps)
  obtain c1 w1 where step: "chain_step ordered context p (c, w) = (c1, w1)" by (cases "chain_step ordered context p (c, w)")
  have "chain_inv en (names @ [pv_name p]) c1" by (rule chain_step_inv [OF Cons.prems(1,2) step])
  from Cons.IH [OF this Cons.prems(2)] Cons.prems(3) step show ?case by simp
qed simp

subsection \<open>Properties\<close>

lemma keyed_distinct_keys:
  assumes "distinct (map ioc_key is)"
  shows "keyed is = map (\<lambda>i. (ioc_key i, i)) is"
  using assms
proof (induction "is" rule: rev_induct)
  case (snoc i xs)
  have "AList.update k v al = al @ [(k, v)]" if "k \<notin> fst ` set al" for k v and al :: "(string \<times> ioc) list"
    using that by (induction al) auto
  with snoc show ?case by (simp add: keyed_def image_image)
qed (simp add: keyed_def)

lemma bare_keys [simp]: "ioc_sort_key (bare i) = ioc_sort_key i" "ioc_key (bare i) = ioc_key i"
  by (simp_all add: bare_def ioc_sort_key_def ioc_key_def)

lemma bare_same_keys:
  assumes "map (bare \<circ> snd) en = map bare xs"
  shows "map (ioc_sort_key \<circ> snd) en = map ioc_sort_key xs" "map (ioc_key \<circ> snd) en = map ioc_key xs"
  using arg_cong [OF assms, of "map ioc_sort_key"] arg_cong [OF assms, of "map ioc_key"]
  by (simp_all add: comp_def)

lemma sorted_by_bare:
  assumes "map (bare \<circ> snd) en = map bare xs" "sorted (map ioc_sort_key xs)"
  shows "sort_key ioc_sort_key (map snd en) = map snd en"
proof -
  have "sorted (map ioc_sort_key (map snd en))"
    using assms(2) bare_same_keys(1) [OF assms(1)] by simp
  then show ?thesis by (rule sort_key_id_if_sorted)
qed


text \<open>
  Enrichment is deterministic in the indicators: the order in which extraction lists them
  changes neither what the providers are asked nor any part of the outcome.
\<close>

theorem chain_ignores_ioc_order:
  assumes "mset iocs = mset iocs'" "distinct (map ioc_key iocs')"
  shows "chain_enrich ps iocs context w = chain_enrich ps iocs' context w"
proof -
  have "distinct (map ioc_sort_key iocs')"
    using assms(2) by (auto simp: distinct_map inj_on_def ioc_sort_key_eq_iff)
  from sort_key_distinct_keys [OF assms(1) this] show ?thesis
    by (simp only: chain_enrich_def)
qed

subsection \<open>Witnesses\<close>

definition chain_ioc :: "string \<Rightarrow> ioc" where
  "chain_ioc v = \<lparr>i_type = IPV4, i_value = v, i_provenance = [], i_enrichment = []\<rparr>"

definition found_provider :: "unit provider" where
  "found_provider = \<lparr>pv_name = ''misp'', pv_enabled = True,
     pv_enrich = (\<lambda>iocs context w. (Inr \<lparr>pe_provider = ''misp'', pe_status = COMPLETE,
        pe_results = map (\<lambda>i. (ioc_key i, [(''seen'', JBool True)])) iocs, pe_notes = []\<rparr>, w))\<rparr>"

definition raising_provider :: "unit provider" where
  "raising_provider = \<lparr>pv_name = ''virustotal'', pv_enabled = True,
     pv_enrich = (\<lambda>iocs context w. (Inl ''RuntimeError'', w))\<rparr>"


theorem chain_ignores_ioc_order_witness:
  "chain_enrich [found_provider] [chain_ioc ''8.8.8.8'', chain_ioc ''1.1.1.1''] None ()
     = chain_enrich [found_provider] [chain_ioc ''1.1.1.1'', chain_ioc ''8.8.8.8''] None ()"
proof (rule chain_ignores_ioc_order)
  show "distinct (map ioc_key [chain_ioc ''1.1.1.1'', chain_ioc ''8.8.8.8''])" by code_simp
qed simp

end
