(* ===== verification/Enrichment_Cache.thy ===== *)
theory Enrichment_Cache
  imports Alert_Model Store
begin

text \<open>
  The response cache of the threat-intel providers (enrichment/cache.py) with the records it
  holds (enrichment/threat_intel.py).

  A lookup record's timestamp is given by the instant its ISO text denotes; \<open>None\<close> is text that
  \<open>datetime.fromisoformat\<close> refuses. A row's payload is the record it decodes to; \<open>None\<close> is text
  that does not validate. The fates of the coming units of work are a list in the state. The
  counters are outside the transactions. \<open>ca_autoflush\<close> is the option of the session factory:
  without it (the application's factory) a query does not see the pending insert or update.
\<close>

subsection \<open>Lookup records\<close>

datatype lookup_status = FOUND | NOT_FOUND | ERROR | RATE_LIMITED | TIMEOUT

fun lookup_status_value :: "lookup_status \<Rightarrow> string" where
  "lookup_status_value FOUND = ''found''"
| "lookup_status_value NOT_FOUND = ''not_found''"
| "lookup_status_value ERROR = ''error''"
| "lookup_status_value RATE_LIMITED = ''rate_limited''"
| "lookup_status_value TIMEOUT = ''timeout''"

record lookup_record =
  lr_provider :: string
  lr_indicator_type :: string
  lr_status :: lookup_status
  lr_timestamp :: "instant option"
  lr_result :: "(string, json) dict"

definition cacheable_statuses :: "lookup_status set" where
  "cacheable_statuses = {FOUND, NOT_FOUND}"

subsection \<open>Policy, counters and rows\<close>

record cache_policy =
  cp_max_entries :: nat
  cp_hash_ttl_seconds :: int
  cp_ipv4_ttl_seconds :: int
  cp_default_ttl_seconds :: int

definition ttl_for :: "cache_policy \<Rightarrow> ioc_type \<Rightarrow> int" where
  "ttl_for p t =
     (if t \<in> {MD5, SHA1, SHA256} then seconds (cp_hash_ttl_seconds p)
      else if t = IPV4 then seconds (cp_ipv4_ttl_seconds p)
      else seconds (cp_default_ttl_seconds p))"

record cache_stats =
  n_hits :: nat
  n_misses :: nat
  n_stores :: nat
  n_rejected :: nat
  n_expirations :: nat
  n_evictions :: nat
  n_failures :: nat

record cache_row =
  cw_id :: nat
  cw_provider :: string
  cw_type :: ioc_type
  cw_value :: string
  cw_payload :: "lookup_record option"
  cw_looked_at :: instant
  cw_expires_at :: instant

record cache =
  ca_policy :: cache_policy
  ca_autoflush :: bool
  ca_rows :: "cache_row list"
  ca_stats :: cache_stats
  ca_fates :: "db_fate list"

definition bump_hits :: "cache \<Rightarrow> cache" where
  "bump_hits c = c\<lparr>ca_stats := (ca_stats c)\<lparr>n_hits := n_hits (ca_stats c) + 1\<rparr>\<rparr>"
definition bump_misses :: "cache \<Rightarrow> cache" where
  "bump_misses c = c\<lparr>ca_stats := (ca_stats c)\<lparr>n_misses := n_misses (ca_stats c) + 1\<rparr>\<rparr>"
definition bump_stores :: "cache \<Rightarrow> cache" where
  "bump_stores c = c\<lparr>ca_stats := (ca_stats c)\<lparr>n_stores := n_stores (ca_stats c) + 1\<rparr>\<rparr>"
definition bump_rejected :: "cache \<Rightarrow> cache" where
  "bump_rejected c = c\<lparr>ca_stats := (ca_stats c)\<lparr>n_rejected := n_rejected (ca_stats c) + 1\<rparr>\<rparr>"
definition bump_expirations :: "nat \<Rightarrow> cache \<Rightarrow> cache" where
  "bump_expirations n c = c\<lparr>ca_stats := (ca_stats c)\<lparr>n_expirations := n_expirations (ca_stats c) + n\<rparr>\<rparr>"
definition bump_evictions :: "nat \<Rightarrow> cache \<Rightarrow> cache" where
  "bump_evictions n c = c\<lparr>ca_stats := (ca_stats c)\<lparr>n_evictions := n_evictions (ca_stats c) + n\<rparr>\<rparr>"
definition bump_failures :: "cache \<Rightarrow> cache" where
  "bump_failures c = c\<lparr>ca_stats := (ca_stats c)\<lparr>n_failures := n_failures (ca_stats c) + 1\<rparr>\<rparr>"

lemmas bump_defs = bump_hits_def bump_misses_def bump_stores_def bump_rejected_def
  bump_expirations_def bump_evictions_def bump_failures_def

text \<open>The fate of the next unit of work.\<close>

fun next_fate :: "db_fate list \<Rightarrow> db_fate" where
  "next_fate [] = Accepted"
| "next_fate (f # fs) = f"

definition spent :: "cache \<Rightarrow> cache" where
  "spent c = c\<lparr>ca_fates := tl (ca_fates c)\<rparr>"

subsection \<open>Reading\<close>

definition for_indicator :: "string \<Rightarrow> ioc \<Rightarrow> cache_row \<Rightarrow> bool" where
  "for_indicator provider i r \<longleftrightarrow> cw_provider r = provider \<and> cw_type r = i_type i \<and> cw_value r = i_value i"

definition find_entry :: "string \<Rightarrow> ioc \<Rightarrow> cache_row list \<Rightarrow> cache_row option" where
  "find_entry provider i rows = find (for_indicator provider i) rows"

definition without_row :: "cache_row \<Rightarrow> cache_row list \<Rightarrow> cache_row list" where
  "without_row e rows = filter (\<lambda>r. cw_id r \<noteq> cw_id e) rows"

definition discard_best_effort :: "string \<Rightarrow> ioc \<Rightarrow> cache \<Rightarrow> cache" where
  "discard_best_effort provider i c =
     (if next_fate (ca_fates c) \<noteq> Accepted then bump_failures (spent c)
      else (case find_entry provider i (ca_rows c) of
              None \<Rightarrow> spent c
            | Some e \<Rightarrow> (spent c)\<lparr>ca_rows := without_row e (ca_rows c)\<rparr>))"

definition failed_get :: "string \<Rightarrow> ioc \<Rightarrow> cache \<Rightarrow> lookup_record option \<times> cache" where
  "failed_get provider i c = (None, bump_misses (discard_best_effort provider i (bump_failures c)))"

definition cache_get :: "string \<Rightarrow> ioc \<Rightarrow> instant \<Rightarrow> cache \<Rightarrow> lookup_record option \<times> cache" where
  "cache_get provider i now c =
     (let fate = next_fate (ca_fates c); c = spent c in
      if fate = Statement_fails then failed_get provider i c
      else (case find_entry provider i (ca_rows c) of
          None \<Rightarrow>
            (let c = bump_misses c in
             if fate = Commit_fails then failed_get provider i c else (None, c))
        | Some e \<Rightarrow>
            if cw_expires_at e \<le> now then
              (let c = bump_misses (bump_expirations 1 c) in
               if fate = Commit_fails then failed_get provider i c
               else (None, c\<lparr>ca_rows := without_row e (ca_rows c)\<rparr>))
            else (case cw_payload e of
                None \<Rightarrow> failed_get provider i c
              | Some r \<Rightarrow>
                  if fate = Commit_fails then failed_get provider i c else (Some r, bump_hits c))))"

subsection \<open>Writing\<close>

definition new_cache_row :: "string \<Rightarrow> ioc \<Rightarrow> lookup_record \<Rightarrow> instant \<Rightarrow> instant \<Rightarrow> cache_row list \<Rightarrow> cache_row" where
  "new_cache_row provider i r looked expires rows =
     \<lparr>cw_id = next_rowid (map cw_id rows), cw_provider = provider, cw_type = i_type i, cw_value = i_value i,
      cw_payload = Some r, cw_looked_at = looked, cw_expires_at = expires\<rparr>"

definition upsert_row :: "string \<Rightarrow> ioc \<Rightarrow> lookup_record \<Rightarrow> instant \<Rightarrow> instant \<Rightarrow> cache_row list \<Rightarrow> cache_row list" where
  "upsert_row provider i r looked expires rows =
     (case find_entry provider i rows of
        Some e \<Rightarrow> map (\<lambda>w. if cw_id w = cw_id e
            then w\<lparr>cw_payload := Some r, cw_looked_at := looked, cw_expires_at := expires\<rparr> else w) rows
      | None \<Rightarrow> rows @ [new_cache_row provider i r looked expires rows])"

text \<open>The rows to evict, chosen from the rows \<open>seen\<close> by the queries.\<close>

definition victims :: "nat \<Rightarrow> cache_row list \<Rightarrow> cache_row list" where
  "victims max_entries seen =
     take (length seen - max_entries) (sort_key (\<lambda>r. (cw_expires_at r, cw_id r)) seen)"

definition evict_overflow :: "nat \<Rightarrow> cache_row list \<Rightarrow> cache_row list \<Rightarrow> cache_row list" where
  "evict_overflow max_entries seen rows =
     filter (\<lambda>r. cw_id r \<notin> cw_id ` set (victims max_entries seen)) rows"

definition cache_put :: "string \<Rightarrow> ioc \<Rightarrow> lookup_record \<Rightarrow> instant \<Rightarrow> cache \<Rightarrow> cache" where
  "cache_put provider i r now c =
     (if lr_status r \<notin> cacheable_statuses then bump_rejected c
      else
        (let looked = (case lr_timestamp r of None \<Rightarrow> now | Some t \<Rightarrow> t);
             expires = looked + ttl_for (ca_policy c) (i_type i);
             fate = next_fate (ca_fates c); c = spent c;
             rows = upsert_row provider i r looked expires (ca_rows c);
             seen = (if ca_autoflush c then rows else ca_rows c) in
         if fate \<noteq> Accepted then bump_failures c
         else bump_evictions (length (victims (cp_max_entries (ca_policy c)) seen)) (bump_stores
           (c\<lparr>ca_rows := evict_overflow (cp_max_entries (ca_policy c)) seen rows\<rparr>))))"

subsection \<open>Maintenance\<close>

definition purge_expired :: "instant \<Rightarrow> cache \<Rightarrow> nat \<times> cache" where
  "purge_expired now c =
     (let fate = next_fate (ca_fates c); c = spent c;
          expired = filter (\<lambda>r. cw_expires_at r \<le> now) (ca_rows c) in
      if fate \<noteq> Accepted then (0, bump_failures c)
      else (length expired, bump_expirations (length expired)
              (c\<lparr>ca_rows := filter (\<lambda>r. \<not> cw_expires_at r \<le> now) (ca_rows c)\<rparr>)))"

definition cache_clear :: "cache \<Rightarrow> nat \<times> cache" where
  "cache_clear c =
     (let fate = next_fate (ca_fates c); c = spent c in
      if fate \<noteq> Accepted then (0, bump_failures c)
      else (length (ca_rows c), c\<lparr>ca_rows := []\<rparr>))"

definition cache_len :: "cache \<Rightarrow> nat \<times> cache" where
  "cache_len c =
     (let fate = next_fate (ca_fates c); c = spent c in
      if fate \<noteq> Accepted then (0, bump_failures c) else (length (ca_rows c), c))"

end
