(* ===== verification/Cache_Facts.thy ===== *)
theory Cache_Facts
  imports Enrichment_Cache
begin

text \<open>
  What the response cache promises its clients, as a locale, and that the persistent cache keeps
  it whatever the database does: replay of stored verdicts only, definitive verdicts only, expiry
  from the original lookup. The bound on the number of rows is the policy's only when the session
  factory flushes before queries; the application's does not, and the bound is one more.
\<close>

subsection \<open>The contract\<close>

locale response_cache =
  fixes get :: "string \<Rightarrow> ioc \<Rightarrow> instant \<Rightarrow> 'c \<Rightarrow> lookup_record option \<times> 'c"
    and put :: "string \<Rightarrow> ioc \<Rightarrow> lookup_record \<Rightarrow> instant \<Rightarrow> 'c \<Rightarrow> 'c"
    and inv :: "'c \<Rightarrow> bool"
    and held :: "'c \<Rightarrow> string \<Rightarrow> ioc_type \<Rightarrow> string \<Rightarrow> lookup_record \<Rightarrow> bool"
  assumes get_inv: "inv c \<Longrightarrow> get p i now c = (x, c') \<Longrightarrow> inv c'"
    and put_inv: "inv c \<Longrightarrow> inv (put p i r now c)"
    and get_hit: "inv c \<Longrightarrow> get p i now c = (Some r, c') \<Longrightarrow>
      held c p (i_type i) (i_value i) r \<and> lr_status r \<in> cacheable_statuses"
    and get_keeps: "inv c \<Longrightarrow> get p i now c = (x, c') \<Longrightarrow> held c' q t v r \<Longrightarrow> held c q t v r"
    and put_adds: "inv c \<Longrightarrow> held (put p i r now c) q t v r' \<Longrightarrow>
      held c q t v r' \<or> (q = p \<and> t = i_type i \<and> v = i_value i \<and> r' = r)"
begin

text \<open>Verdicts never come from nowhere: what is held at the end was held or was put.\<close>

lemma puts_held:
  assumes "inv c" "held (fold (\<lambda>(i, r). put p i r now) irs c) q t v r'"
  shows "held c q t v r' \<or> (q = p \<and> (\<exists>i. (i, r') \<in> set irs \<and> t = i_type i \<and> v = i_value i))"
  using assms
proof (induction irs arbitrary: c)
  case (Cons ir irs)
  obtain i r where ir: "ir = (i, r)" by (cases ir)
  from Cons.IH [OF put_inv [OF Cons.prems(1)], of p i r now] Cons.prems(2) ir
    put_adds [OF Cons.prems(1), of p i r now q t v r']
  show ?case by auto
qed simp

lemma puts_inv: "inv c \<Longrightarrow> inv (fold (\<lambda>(i, r). put p i r now) irs c)"
  by (induction irs arbitrary: c) (auto intro: put_inv)

end

subsection \<open>The rows\<close>

definition row_key :: "cache_row \<Rightarrow> string \<times> ioc_type \<times> string" where
  "row_key r = (cw_provider r, cw_type r, cw_value r)"

definition row_ok :: "cache_policy \<Rightarrow> cache_row \<Rightarrow> bool" where
  "row_ok p w \<longleftrightarrow> cw_expires_at w = cw_looked_at w + ttl_for p (cw_type w)
     \<and> (\<forall>r. cw_payload w = Some r \<longrightarrow> lr_status r \<in> cacheable_statuses
          \<and> (\<forall>t. lr_timestamp r = Some t \<longrightarrow> cw_looked_at w = t))"

definition cache_ok :: "cache \<Rightarrow> bool" where
  "cache_ok c \<longleftrightarrow> distinct (map cw_id (ca_rows c)) \<and> distinct (map row_key (ca_rows c))
     \<and> (\<forall>w \<in> set (ca_rows c). row_ok (ca_policy c) w)"

definition held_by :: "cache \<Rightarrow> string \<Rightarrow> ioc_type \<Rightarrow> string \<Rightarrow> lookup_record \<Rightarrow> bool" where
  "held_by c p t v r \<longleftrightarrow> (\<exists>w \<in> set (ca_rows c). row_key w = (p, t, v) \<and> cw_payload w = Some r)"

lemma for_indicator_key: "for_indicator p i w \<longleftrightarrow> row_key w = (p, i_type i, i_value i)"
  by (auto simp: for_indicator_def row_key_def)

lemma find_entry_Some: "find_entry p i ws = Some w \<Longrightarrow> w \<in> set ws \<and> row_key w = (p, i_type i, i_value i)"
  by (auto simp: find_entry_def find_Some_iff for_indicator_key)

lemma find_entry_None: "find_entry p i ws = None \<longleftrightarrow> (p, i_type i, i_value i) \<notin> row_key ` set ws"
  by (force simp: find_entry_def find_None_iff for_indicator_key)

text \<open>Counters and fates do not matter to the invariant.\<close>

lemma rows_simps [simp]:
  "ca_rows (bump_hits c) = ca_rows c" "ca_rows (bump_misses c) = ca_rows c"
  "ca_rows (bump_stores c) = ca_rows c" "ca_rows (bump_rejected c) = ca_rows c"
  "ca_rows (bump_expirations n c) = ca_rows c" "ca_rows (bump_evictions n c) = ca_rows c"
  "ca_rows (bump_failures c) = ca_rows c" "ca_rows (spent c) = ca_rows c"
  "ca_policy (bump_hits c) = ca_policy c" "ca_policy (bump_misses c) = ca_policy c"
  "ca_policy (bump_stores c) = ca_policy c" "ca_policy (bump_rejected c) = ca_policy c"
  "ca_policy (bump_expirations n c) = ca_policy c" "ca_policy (bump_evictions n c) = ca_policy c"
  "ca_policy (bump_failures c) = ca_policy c" "ca_policy (spent c) = ca_policy c"
  "ca_autoflush (bump_hits c) = ca_autoflush c" "ca_autoflush (bump_misses c) = ca_autoflush c"
  "ca_autoflush (bump_stores c) = ca_autoflush c" "ca_autoflush (bump_rejected c) = ca_autoflush c"
  "ca_autoflush (bump_expirations n c) = ca_autoflush c" "ca_autoflush (bump_evictions n c) = ca_autoflush c"
  "ca_autoflush (bump_failures c) = ca_autoflush c" "ca_autoflush (spent c) = ca_autoflush c"
  by (simp_all add: bump_defs spent_def)

text \<open>Keeping a part of the rows: what every read and every maintenance step does.\<close>

definition thinned :: "cache \<Rightarrow> cache \<Rightarrow> bool" where
  "thinned c c' \<longleftrightarrow> ca_policy c' = ca_policy c \<and> ca_autoflush c' = ca_autoflush c
     \<and> (\<exists>P. ca_rows c' = filter P (ca_rows c))"

lemma thinned_same: "ca_rows c' = ca_rows c \<Longrightarrow> ca_policy c' = ca_policy c \<Longrightarrow>
    ca_autoflush c' = ca_autoflush c \<Longrightarrow> thinned c c'"
  unfolding thinned_def by (auto intro: exI [of _ "\<lambda>_. True"])

lemma thinned_filter: "ca_rows c' = filter P (ca_rows c) \<Longrightarrow> ca_policy c' = ca_policy c \<Longrightarrow>
    ca_autoflush c' = ca_autoflush c \<Longrightarrow> thinned c c'"
  unfolding thinned_def by blast

lemma thinned_ok: "thinned c c' \<Longrightarrow> cache_ok c \<Longrightarrow> cache_ok c'"
  by (auto simp: thinned_def cache_ok_def distinct_map_filter)

lemma thinned_held: "thinned c c' \<Longrightarrow> held_by c' p t v r \<Longrightarrow> held_by c p t v r"
  by (auto simp: thinned_def held_by_def)

lemma thinned_length: "thinned c c' \<Longrightarrow> length (ca_rows c') \<le> length (ca_rows c)"
  by (auto simp: thinned_def)

lemma discard_thins: "ca_rows c0 = ca_rows c \<Longrightarrow> ca_policy c0 = ca_policy c \<Longrightarrow>
    ca_autoflush c0 = ca_autoflush c \<Longrightarrow> thinned c (discard_best_effort p i c0)"
  by (auto simp: discard_best_effort_def without_row_def split: option.split
      intro: thinned_same thinned_filter)

lemma failed_get_thins:
  assumes "ca_rows c0 = ca_rows c" "ca_policy c0 = ca_policy c" "ca_autoflush c0 = ca_autoflush c"
  shows "thinned c (snd (failed_get p i c0))" "fst (failed_get p i c0) = None"
proof -
  have "thinned c (discard_best_effort p i (bump_failures c0))"
    by (rule discard_thins) (simp_all add: assms)
  then show "thinned c (snd (failed_get p i c0))"
    by (simp add: failed_get_def thinned_def)
qed (simp add: failed_get_def)

lemma cache_get_thins: "thinned c (snd (cache_get p i now c))"
  by (auto simp: cache_get_def Let_def without_row_def split: option.split
      intro!: failed_get_thins(1) intro: thinned_same thinned_filter)

lemma cache_get_hit:
  assumes "cache_get p i now c = (Some r, c')"
  obtains w where "find_entry p i (ca_rows c) = Some w" "cw_payload w = Some r" "now < cw_expires_at w"
    "c' = bump_hits (spent c)"
proof -
  have "fst (failed_get p i c0) = None" for c0 by (simp add: failed_get_def)
  then have "failed_get p i c0 \<noteq> (Some r, c')" for c0 by (metis fst_conv option.distinct(1))
  with assms that show ?thesis
    by (auto simp: cache_get_def Let_def split: option.splits if_splits)
qed

subsection \<open>Writing a verdict\<close>

lemma upsert_cases:
  assumes "distinct (map cw_id ws)" "distinct (map row_key ws)"
  obtains (refresh) w xs ys where "ws = xs @ w # ys" "row_key w = (p, i_type i, i_value i)"
      "upsert_row p i r looked expires ws = xs @ (w\<lparr>cw_payload := Some r, cw_looked_at := looked,
          cw_expires_at := expires\<rparr>) # ys"
  | (fresh) "(p, i_type i, i_value i) \<notin> row_key ` set ws"
      "upsert_row p i r looked expires ws = ws @ [new_cache_row p i r looked expires ws]"
proof (cases "find_entry p i ws")
  case None
  then have "(p, i_type i, i_value i) \<notin> row_key ` set ws" by (simp only: find_entry_None simp_thms)
  moreover have "upsert_row p i r looked expires ws = ws @ [new_cache_row p i r looked expires ws]"
    by (simp add: upsert_row_def None)
  ultimately show ?thesis by (rule fresh)
next
  case (Some w)
  then have w: "w \<in> set ws" "row_key w = (p, i_type i, i_value i)" using find_entry_Some by blast+
  then obtain xs ys where ws: "ws = xs @ w # ys" by (meson split_list)
  have "cw_id w \<notin> cw_id ` set xs" "cw_id w \<notin> cw_id ` set ys" using assms(1) by (simp_all add: ws)
  then have "cw_id v \<noteq> cw_id w" if "v \<in> set xs \<union> set ys" for v using that by (metis UnE image_eqI)
  then have "upsert_row p i r looked expires ws = xs @ (w\<lparr>cw_payload := Some r, cw_looked_at := looked,
          cw_expires_at := expires\<rparr>) # ys"
    using Some by (auto simp: upsert_row_def ws intro!: map_idI)
  with refresh ws w(2) show ?thesis by blast
qed

lemma next_rowid_fresh: "next_rowid ids \<notin> set ids"
proof -
  have "n \<in> set ids \<Longrightarrow> n \<le> foldr max ids 0" for n by (induction ids) auto
  then show ?thesis by (fastforce simp: next_rowid_def)
qed

lemma upsert_ids:
  assumes "distinct (map cw_id ws)" "distinct (map row_key ws)"
  shows "distinct (map cw_id (upsert_row p i r lo ex ws)) \<and> distinct (map row_key (upsert_row p i r lo ex ws))
    \<and> cw_id ` set ws \<subseteq> cw_id ` set (upsert_row p i r lo ex ws)
    \<and> length (upsert_row p i r lo ex ws) \<le> length ws + 1"
  using assms
proof (cases rule: upsert_cases [where p = p and i = i and r = r and looked = lo and expires = ex])
  case (refresh w xs ys)
  then show ?thesis using assms by (simp add: row_key_def)
next
  case fresh
  have "next_rowid (map cw_id ws) \<notin> cw_id ` set ws" using next_rowid_fresh [of "map cw_id ws"] by simp
  with fresh assms show ?thesis by (auto simp: new_cache_row_def row_key_def)
qed

lemma upsert_rows:
  assumes "distinct (map cw_id ws)" "distinct (map row_key ws)" "v \<in> set (upsert_row p i r lo ex ws)"
  shows "v \<in> set ws \<and> row_key v \<noteq> (p, i_type i, i_value i)
    \<or> row_key v = (p, i_type i, i_value i) \<and> cw_payload v = Some r \<and> cw_looked_at v = lo \<and> cw_expires_at v = ex"
  using assms(1,2)
proof (cases rule: upsert_cases [where p = p and i = i and r = r and looked = lo and expires = ex])
  case (refresh w xs ys)
  then have "\<forall>u \<in> set xs \<union> set ys. row_key u \<noteq> (p, i_type i, i_value i)"
    using assms(2) by (auto simp: image_iff)
  with refresh assms(3) show ?thesis by (auto simp: row_key_def)
next
  case fresh
  with assms(3) show ?thesis by (auto simp: new_cache_row_def row_key_def)
qed

lemma cache_put_rows:
  "ca_rows (cache_put p i r now c) = ca_rows c \<or>
     (lr_status r \<in> cacheable_statuses \<and> next_fate (ca_fates c) = Accepted
      \<and> ca_rows (cache_put p i r now c) =
        (let looked = (case lr_timestamp r of None \<Rightarrow> now | Some t \<Rightarrow> t);
             rows = upsert_row p i r looked (looked + ttl_for (ca_policy c) (i_type i)) (ca_rows c) in
         evict_overflow (cp_max_entries (ca_policy c)) (if ca_autoflush c then rows else ca_rows c) rows))"
  by (simp add: cache_put_def Let_def)

lemma cache_put_frame [simp]:
  "ca_policy (cache_put p i r now c) = ca_policy c" "ca_autoflush (cache_put p i r now c) = ca_autoflush c"
  by (simp_all add: cache_put_def Let_def)

lemma cache_put_ok:
  assumes ok: "cache_ok c"
  shows "cache_ok (cache_put p i r now c)"
  using cache_put_rows [of p i r now c]
proof
  assume "ca_rows (cache_put p i r now c) = ca_rows c"
  with ok show ?thesis by (simp add: cache_ok_def)
next
  define looked where "looked = (case lr_timestamp r of None \<Rightarrow> now | Some t \<Rightarrow> t)"
  define rows where "rows = upsert_row p i r looked (looked + ttl_for (ca_policy c) (i_type i)) (ca_rows c)"
  assume "lr_status r \<in> cacheable_statuses \<and> next_fate (ca_fates c) = Accepted
      \<and> ca_rows (cache_put p i r now c) =
        (let looked = (case lr_timestamp r of None \<Rightarrow> now | Some t \<Rightarrow> t);
             rows = upsert_row p i r looked (looked + ttl_for (ca_policy c) (i_type i)) (ca_rows c) in
         evict_overflow (cp_max_entries (ca_policy c)) (if ca_autoflush c then rows else ca_rows c) rows)"
  then have cacheable: "lr_status r \<in> cacheable_statuses" and after: "\<exists>P. ca_rows (cache_put p i r now c) = filter P rows"
    by (auto simp: Let_def evict_overflow_def rows_def looked_def)
  note d = ok [unfolded cache_ok_def]
  have "distinct (map cw_id rows)" "distinct (map row_key rows)"
    using upsert_ids d unfolding rows_def by blast+
  moreover have "row_ok (ca_policy c) w" if "w \<in> set rows" for w
    using upsert_rows [OF _ _ that [unfolded rows_def]] d cacheable
    by (auto simp: row_ok_def row_key_def looked_def)
  ultimately show ?thesis using after by (auto simp: cache_ok_def distinct_map_filter)
qed

lemma cache_put_held:
  assumes ok: "cache_ok c" and held: "held_by (cache_put p i r now c) q t v r'"
  shows "held_by c q t v r' \<or> (q = p \<and> t = i_type i \<and> v = i_value i \<and> r' = r)"
  using cache_put_rows [of p i r now c]
proof
  assume "ca_rows (cache_put p i r now c) = ca_rows c"
  with held show ?thesis by (simp add: held_by_def)
next
  note d = ok [unfolded cache_ok_def]
  assume "lr_status r \<in> cacheable_statuses \<and> next_fate (ca_fates c) = Accepted
      \<and> ca_rows (cache_put p i r now c) =
        (let looked = (case lr_timestamp r of None \<Rightarrow> now | Some t \<Rightarrow> t);
             rows = upsert_row p i r looked (looked + ttl_for (ca_policy c) (i_type i)) (ca_rows c) in
         evict_overflow (cp_max_entries (ca_policy c)) (if ca_autoflush c then rows else ca_rows c) rows)"
  then obtain lo ex P where "ca_rows (cache_put p i r now c) = filter P (upsert_row p i r lo ex (ca_rows c))"
    by (auto simp: Let_def evict_overflow_def)
  with held obtain w where "w \<in> set (upsert_row p i r lo ex (ca_rows c))" "row_key w = (q, t, v)"
      "cw_payload w = Some r'" by (auto simp: held_by_def)
  with upsert_rows [OF _ _ this(1)] d show ?thesis by (auto simp: held_by_def)
qed

interpretation persistent_cache: response_cache cache_get cache_put cache_ok held_by
proof
  fix c c' :: cache and p q :: string and i :: ioc and now :: instant and x r r' t v
  show "cache_ok c \<Longrightarrow> cache_get p i now c = (x, c') \<Longrightarrow> cache_ok c'"
    using thinned_ok [OF cache_get_thins [of c p i now]] by simp
  show "cache_ok c \<Longrightarrow> cache_ok (cache_put p i r now c)" by (rule cache_put_ok)
  show "cache_ok c \<Longrightarrow> cache_get p i now c = (Some r, c') \<Longrightarrow>
      held_by c p (i_type i) (i_value i) r \<and> lr_status r \<in> cacheable_statuses"
    by (elim cache_get_hit) (auto simp: held_by_def cache_ok_def row_ok_def dest!: find_entry_Some)
  show "cache_ok c \<Longrightarrow> cache_get p i now c = (x, c') \<Longrightarrow> held_by c' q t v r \<Longrightarrow> held_by c q t v r"
    using thinned_held [OF cache_get_thins [of c p i now]] by simp
  show "cache_ok c \<Longrightarrow> held_by (cache_put p i r now c) q t v r' \<Longrightarrow>
      held_by c q t v r' \<or> (q = p \<and> t = i_type i \<and> v = i_value i \<and> r' = r)"
    by (rule cache_put_held)
qed

subsection \<open>The bound\<close>

lemma length_filter_notin:
  assumes "distinct xs" "V \<subseteq> set xs"
  shows "length (filter (\<lambda>x. x \<notin> V) xs) = length xs - card V"
proof -
  have "length (filter (\<lambda>x. x \<notin> V) xs) = card (set xs - V)"
    using assms(1) by (metis distinct_card distinct_filter set_diff_eq set_filter)
  also have "\<dots> = card (set xs) - card V"
    using assms(2) finite_subset [OF assms(2)] by (simp add: card_Diff_subset)
  finally show ?thesis using assms(1) by (simp add: distinct_card)
qed

lemma victims_props:
  assumes "distinct (map cw_id seen)"
  shows "cw_id ` set (victims m seen) \<subseteq> cw_id ` set seen"
    and "card (cw_id ` set (victims m seen)) = length seen - m"
proof -
  let ?s = "sort_key (\<lambda>r. (cw_expires_at r, cw_id r)) seen"
  show "cw_id ` set (victims m seen) \<subseteq> cw_id ` set seen"
    unfolding victims_def by (metis image_mono set_sort set_take_subset)
  have inj: "inj_on cw_id (set ?s)" "distinct ?s" using assms by (simp_all add: distinct_map)
  have "distinct (map cw_id (take (length seen - m) ?s))"
    unfolding take_map [symmetric] by (rule distinct_take) (use inj in \<open>simp only: distinct_map\<close>)
  from distinct_card [OF this] show "card (cw_id ` set (victims m seen)) = length seen - m"
    by (simp add: victims_def)
qed

lemma evict_length:
  assumes "distinct (map cw_id rows)" "distinct (map cw_id seen)" "cw_id ` set seen \<subseteq> cw_id ` set rows"
  shows "length (evict_overflow m seen rows) = length rows - (length seen - m)"
proof -
  let ?V = "cw_id ` set (victims m seen)"
  have "?V \<subseteq> set (map cw_id rows)" using victims_props(1) [OF assms(2)] assms(3) by fastforce
  from length_filter_notin [OF assms(1) this]
  have "length (filter (\<lambda>x. x \<notin> ?V) (map cw_id rows)) = length rows - (length seen - m)"
    by (simp add: victims_props(2) [OF assms(2)])
  moreover have "filter (\<lambda>x. x \<notin> ?V) (map cw_id rows) = map cw_id (evict_overflow m seen rows)"
    by (simp add: evict_overflow_def filter_map comp_def)
  ultimately show ?thesis by (metis length_map)
qed

definition row_bound :: "cache \<Rightarrow> nat" where
  "row_bound c = cp_max_entries (ca_policy c) + (if ca_autoflush c then 0 else 1)"

lemma cache_put_bounded:
  assumes ok: "cache_ok c" and bound: "length (ca_rows c) \<le> row_bound c"
  shows "length (ca_rows (cache_put p i r now c)) \<le> row_bound c"
  using cache_put_rows [of p i r now c]
proof
  assume "ca_rows (cache_put p i r now c) = ca_rows c"
  with bound show ?thesis by simp
next
  note d = ok [unfolded cache_ok_def]
  assume "lr_status r \<in> cacheable_statuses \<and> next_fate (ca_fates c) = Accepted
      \<and> ca_rows (cache_put p i r now c) =
        (let looked = (case lr_timestamp r of None \<Rightarrow> now | Some t \<Rightarrow> t);
             rows = upsert_row p i r looked (looked + ttl_for (ca_policy c) (i_type i)) (ca_rows c) in
         evict_overflow (cp_max_entries (ca_policy c)) (if ca_autoflush c then rows else ca_rows c) rows)"
  then obtain lo ex where after: "ca_rows (cache_put p i r now c) =
      evict_overflow (cp_max_entries (ca_policy c))
        (if ca_autoflush c then upsert_row p i r lo ex (ca_rows c) else ca_rows c)
        (upsert_row p i r lo ex (ca_rows c))"
    by (auto simp: Let_def)
  have ids: "distinct (map cw_id (upsert_row p i r lo ex (ca_rows c)))"
    "cw_id ` set (ca_rows c) \<subseteq> cw_id ` set (upsert_row p i r lo ex (ca_rows c))"
    "length (upsert_row p i r lo ex (ca_rows c)) \<le> length (ca_rows c) + 1"
    using upsert_ids d by blast+
  show ?thesis
  proof (cases "ca_autoflush c")
    case True
    then show ?thesis using evict_length [OF ids(1) ids(1)] by (simp add: after row_bound_def)
  next
    case False
    then show ?thesis
      using evict_length [OF ids(1) _ ids(2), of "cp_max_entries (ca_policy c)"] d ids(3) bound
      by (simp add: after row_bound_def)
  qed
qed

subsection \<open>Histories\<close>

datatype cache_call =
    Get string ioc instant
  | Put string ioc lookup_record instant
  | Purge instant
  | Clear

fun run_call :: "cache_call \<Rightarrow> cache \<Rightarrow> cache" where
  "run_call (Get p i now) c = snd (cache_get p i now c)"
| "run_call (Put p i r now) c = cache_put p i r now c"
| "run_call (Purge now) c = snd (purge_expired now c)"
| "run_call Clear c = snd (cache_clear c)"

definition empty_cache :: "cache_policy \<Rightarrow> bool \<Rightarrow> db_fate list \<Rightarrow> cache" where
  "empty_cache policy autoflush fates = \<lparr>ca_policy = policy, ca_autoflush = autoflush, ca_rows = [],
     ca_stats = \<lparr>n_hits = 0, n_misses = 0, n_stores = 0, n_rejected = 0, n_expirations = 0,
       n_evictions = 0, n_failures = 0\<rparr>, ca_fates = fates\<rparr>"

lemma maintenance_thins: "thinned c (snd (purge_expired now c))" "thinned c (snd (cache_clear c))"
proof -
  show "thinned c (snd (purge_expired now c))"
    by (auto simp: purge_expired_def Let_def intro: thinned_same thinned_filter)
  have "thinned c c'" if "ca_rows c' = []" "ca_policy c' = ca_policy c" "ca_autoflush c' = ca_autoflush c" for c'
    using that by (intro thinned_filter [where P = "\<lambda>_. False"]) simp_all
  then show "thinned c (snd (cache_clear c))"
    by (auto simp: cache_clear_def Let_def intro: thinned_same)
qed

lemma run_call_ok: "cache_ok c \<Longrightarrow> cache_ok (run_call k c)"
  by (cases k) (auto intro: thinned_ok cache_get_thins maintenance_thins cache_put_ok)

lemma thinned_bound:
  "thinned c c' \<Longrightarrow> length (ca_rows c) \<le> row_bound c \<Longrightarrow>
     length (ca_rows c') \<le> row_bound c' \<and> ca_policy c' = ca_policy c \<and> ca_autoflush c' = ca_autoflush c"
  using thinned_length [of c c'] by (simp add: thinned_def row_bound_def)

lemma run_call_bounded:
  assumes "cache_ok c" "length (ca_rows c) \<le> row_bound c"
  shows "length (ca_rows (run_call k c)) \<le> row_bound (run_call k c)
     \<and> ca_policy (run_call k c) = ca_policy c \<and> ca_autoflush (run_call k c) = ca_autoflush c"
proof (cases k)
  case (Put p i r now)
  then show ?thesis using cache_put_bounded [OF assms, of p i r now] by (simp add: row_bound_def)
qed (use thinned_bound [OF _ assms(2)] cache_get_thins maintenance_thins in \<open>metis run_call.simps\<close>)+

lemma run_calls:
  assumes "cache_ok c" "length (ca_rows c) \<le> row_bound c"
  shows "cache_ok (fold run_call ks c) \<and> length (ca_rows (fold run_call ks c)) \<le> row_bound c
    \<and> ca_policy (fold run_call ks c) = ca_policy c \<and> ca_autoflush (fold run_call ks c) = ca_autoflush c"
  using assms
proof (induction ks arbitrary: c)
  case (Cons k ks)
  note step = run_call_bounded [OF Cons.prems, of k]
  then have "row_bound (run_call k c) = row_bound c" by (simp add: row_bound_def)
  with Cons.IH [OF run_call_ok [OF Cons.prems(1)], of k] step show ?case by simp
qed simp

lemma empty_cache_ok: "cache_ok (empty_cache p a f)" "length (ca_rows (empty_cache p a f)) \<le> row_bound (empty_cache p a f)"
  by (simp_all add: cache_ok_def empty_cache_def)

subsection \<open>Properties\<close>

text \<open>
  C28. The response cache replays only definitive verdicts, and only while they are fresh: after
  any sequence of calls and database failures, a hit returns a record with status found or
  not\_found, before the time to live of its indicator type has passed since the lookup the record
  itself is stamped with, and never changes any row.
\<close>

theorem cache_hit_definitive_and_fresh:
  assumes "c = fold run_call calls (empty_cache policy autoflush fates)"
    and "cache_get p i now c = (Some r, c')"
  shows "lr_status r \<in> {FOUND, NOT_FOUND}
    \<and> (\<forall>t. lr_timestamp r = Some t \<longrightarrow> now < t + ttl_for policy (i_type i))
    \<and> ca_rows c' = ca_rows c"
proof -
  have ok: "cache_ok c" "ca_policy c = policy"
    using run_calls [OF empty_cache_ok, of calls policy autoflush fates] assms(1)
    by (simp_all add: empty_cache_def)
  obtain w where w: "find_entry p i (ca_rows c) = Some w" "cw_payload w = Some r" "now < cw_expires_at w"
      "c' = bump_hits (spent c)" by (rule cache_get_hit [OF assms(2)])
  then have "row_ok policy w" "cw_type w = i_type i"
    using ok find_entry_Some [OF w(1)] by (auto simp: cache_ok_def row_key_def)
  with w show ?thesis by (auto simp: row_ok_def cacheable_statuses_def)
qed

text \<open>
  The cache is bounded: from an empty cache, after any sequence of calls and database failures
  it holds at most the policy's number of rows if the session factory flushes before queries, and
  at most one more if it does not.
\<close>

theorem cache_bounded:
  "length (ca_rows (fold run_call calls (empty_cache policy autoflush fates)))
     \<le> cp_max_entries policy + (if autoflush then 0 else 1)"
  using run_calls [OF empty_cache_ok, of calls policy autoflush fates]
  by (simp add: row_bound_def empty_cache_def)

lemma find_after_put:
  assumes ok: "cache_ok c" and room: "length (ca_rows c) < cp_max_entries (ca_policy c)"
    and r: "lr_status r \<in> cacheable_statuses" "lr_timestamp r = Some t" and up: "next_fate (ca_fates c) = Accepted"
  shows "\<exists>w. find_entry p i (ca_rows (cache_put p i r now c)) = Some w \<and> cw_payload w = Some r
    \<and> cw_expires_at w = t + ttl_for (ca_policy c) (i_type i)"
proof -
  note d = ok [unfolded cache_ok_def]
  define rows where "rows = upsert_row p i r t (t + ttl_for (ca_policy c) (i_type i)) (ca_rows c)"
  have len: "length rows \<le> length (ca_rows c) + 1" unfolding rows_def using upsert_ids d by blast
  have "ca_rows (cache_put p i r now c) =
      evict_overflow (cp_max_entries (ca_policy c)) (if ca_autoflush c then rows else ca_rows c) rows"
    using r up by (simp add: cache_put_def Let_def rows_def)
  also have "\<dots> = rows" using len room by (simp add: evict_overflow_def victims_def)
  finally have after: "ca_rows (cache_put p i r now c) = rows" .
  have "(p, i_type i, i_value i) \<in> row_key ` set rows"
    unfolding rows_def
    by (rule upsert_cases [OF conjunct1 [OF d] conjunct1 [OF conjunct2 [OF d]], of p i r t
          "t + ttl_for (ca_policy c) (i_type i)"])
       (auto simp: row_key_def new_cache_row_def)
  then obtain w where w: "find_entry p i rows = Some w" using find_entry_None [of p i rows] by auto
  then have "w \<in> set rows" "row_key w = (p, i_type i, i_value i)" using find_entry_Some by blast+
  with upsert_rows [OF _ _ this(1) [unfolded rows_def]] d w after show ?thesis by auto
qed

text \<open>
  A verdict that is stored while there is room is replayed byte for byte until it expires: the
  next read of the same provider and indicator that the database accepts returns the record itself
  as long as the time to live since its own timestamp has not passed, and nothing after that.
\<close>

theorem cache_replays_stored:
  assumes "cache_ok c" "length (ca_rows c) < cp_max_entries (ca_policy c)"
    and "lr_status r \<in> {FOUND, NOT_FOUND}" "lr_timestamp r = Some t" "ca_fates c = []"
  shows "fst (cache_get p i now' (cache_put p i r now c)) =
    (if now' < t + ttl_for (ca_policy c) (i_type i) then Some r else None)"
proof -
  have up: "next_fate (ca_fates c) = Accepted" and r: "lr_status r \<in> cacheable_statuses"
    using assms by (simp_all add: cacheable_statuses_def)
  obtain w where "find_entry p i (ca_rows (cache_put p i r now c)) = Some w" "cw_payload w = Some r"
    "cw_expires_at w = t + ttl_for (ca_policy c) (i_type i)"
    using find_after_put [OF assms(1,2) r assms(4) up] by blast
  moreover have "ca_fates (cache_put p i r now c) = []"
    using assms(5) r by (simp add: cache_put_def Let_def bump_defs spent_def)
  ultimately show ?thesis by (simp add: cache_get_def Let_def)
qed

definition tiny_policy :: cache_policy where
  "tiny_policy = \<lparr>cp_max_entries = 1, cp_hash_ttl_seconds = 6, cp_ipv4_ttl_seconds = 1, cp_default_ttl_seconds = 1\<rparr>"

definition cached_ioc :: "string \<Rightarrow> ioc" where
  "cached_ioc v = \<lparr>i_type = MD5, i_value = v, i_provenance = [], i_enrichment = []\<rparr>"

definition found_record :: "instant \<Rightarrow> lookup_record" where
  "found_record t = \<lparr>lr_provider = ''vt'', lr_indicator_type = ''md5'', lr_status = FOUND,
     lr_timestamp = Some t, lr_result = []\<rparr>"

text \<open>
  The bound of the policy is not kept by the application's session factory: with room for one
  entry, two stored verdicts leave two rows, the eviction of the second call not seeing its own
  pending row; and a later refresh of the older one is stored and evicted by the same call, so the
  verdict just looked up is lost. With a factory that flushes before queries neither happens.
\<close>

theorem cache_bound_off_by_one:
  "length (ca_rows (fold run_call [Put ''vt'' (cached_ioc ''a'') (found_record 0) 0,
       Put ''vt'' (cached_ioc ''b'') (found_record 1) 1] (empty_cache tiny_policy False []))) = 2
   \<and> length (ca_rows (fold run_call [Put ''vt'' (cached_ioc ''a'') (found_record 0) 0,
       Put ''vt'' (cached_ioc ''b'') (found_record 1) 1] (empty_cache tiny_policy True []))) = 1
   \<and> fst (cache_get ''vt'' (cached_ioc ''a'') 3 (fold run_call [Put ''vt'' (cached_ioc ''a'') (found_record 0) 0,
       Put ''vt'' (cached_ioc ''b'') (found_record 1) 1, Put ''vt'' (cached_ioc ''a'') (found_record 2) 2]
       (empty_cache tiny_policy False []))) = None
   \<and> fst (cache_get ''vt'' (cached_ioc ''a'') 3 (fold run_call [Put ''vt'' (cached_ioc ''a'') (found_record 0) 0,
       Put ''vt'' (cached_ioc ''b'') (found_record 1) 1, Put ''vt'' (cached_ioc ''a'') (found_record 2) 2]
       (empty_cache tiny_policy True []))) = Some (found_record 2)"
  by code_simp

subsection \<open>Witnesses\<close>

theorem cache_replays_stored_witness:
  "fst (cache_get ''vt'' (cached_ioc ''a'') 5 (cache_put ''vt'' (cached_ioc ''a'') (found_record 0) 0
      (empty_cache tiny_policy False []))) = Some (found_record 0)"
  using cache_replays_stored [OF empty_cache_ok(1), of tiny_policy False "[]" "found_record 0" 0 "''vt''"
      "cached_ioc ''a''" 5 0]
  by (simp add: empty_cache_def found_record_def tiny_policy_def ttl_for_def cached_ioc_def seconds_def
      us_per_second_def)

theorem cache_hit_definitive_and_fresh_witness:
  "\<exists>r c'. cache_get ''vt'' (cached_ioc ''a'') 5 (fold run_call [Put ''vt'' (cached_ioc ''a'') (found_record 0) 0]
      (empty_cache tiny_policy False [])) = (Some r, c') \<and> lr_status r \<in> {FOUND, NOT_FOUND}"
proof -
  have "fst (cache_get ''vt'' (cached_ioc ''a'') 5 (fold run_call [Put ''vt'' (cached_ioc ''a'') (found_record 0) 0]
      (empty_cache tiny_policy False []))) = Some (found_record 0)"
    by code_simp
  then obtain c' where "cache_get ''vt'' (cached_ioc ''a'') 5
      (fold run_call [Put ''vt'' (cached_ioc ''a'') (found_record 0) 0] (empty_cache tiny_policy False []))
      = (Some (found_record 0), c')"
    by (metis prod.collapse)
  from cache_hit_definitive_and_fresh [OF refl this] this show ?thesis by blast
qed

end
