(* ===== verification/Threat_Intel.thy ===== *)
theory Threat_Intel
  imports Enrichment_Chain Cache_Facts Calendar
begin

text \<open>
  The machinery shared by the HTTP threat-intel providers (enrichment/threat\_intel.py): cache
  before rate limiter, rate limiter before network, bounded retries, one sanitized record per
  handled indicator.

  The upstream service is not modelled: the outcomes of the coming requests, the answers of the
  rate limiter and the readings of the clock are lists in the world, next to the cache state and
  the log of the requests sent. The cache is a pair of operations, given as arguments. The length
  of a pause between two attempts (a jittered float) is left out; that computing it from the
  \<open>Retry-After\<close> header, or sleeping for it, can raise is modelled.
\<close>

subsection \<open>The world of a provider\<close>

text \<open>The status, the \<open>Retry-After\<close> header and the body, which is \<open>None\<close> when it is not JSON.\<close>

datatype http_attempt =
    Http_response nat "string option" "json option"
  | Http_timeout
  | Http_network_error
  | Http_other_error

type_synonym http_request = "string \<times> (string, string) dict option"

record 'c intel_world =
  iw_cache :: 'c
  iw_attempts :: "http_attempt list"
  iw_tokens :: "bool list"
  iw_clock :: "instant list"
  iw_requests :: "http_request list"

fun next_or :: "'a \<Rightarrow> 'a list \<Rightarrow> 'a" where
  "next_or d [] = d"
| "next_or d (x # xs) = x"

definition send :: "http_request \<Rightarrow> 'c intel_world \<Rightarrow> http_attempt \<times> 'c intel_world" where
  "send req w = (next_or Http_timeout (iw_attempts w),
     w\<lparr>iw_attempts := tl (iw_attempts w), iw_requests := iw_requests w @ [req]\<rparr>)"

definition try_acquire :: "'c intel_world \<Rightarrow> bool \<times> 'c intel_world" where
  "try_acquire w = (next_or True (iw_tokens w), w\<lparr>iw_tokens := tl (iw_tokens w)\<rparr>)"

definition read_clock :: "'c intel_world \<Rightarrow> instant \<times> 'c intel_world" where
  "read_clock w = (next_or 0 (iw_clock w), w\<lparr>iw_clock := tl (iw_clock w)\<rparr>)"

subsection \<open>Reading an integer\<close>

definition digit_of :: "char \<Rightarrow> nat option" where
  "digit_of c = (let n = of_char c :: nat in if 48 \<le> n \<and> n \<le> 57 then Some (n - 48) else None)"

text \<open>Digits with single underscores between them; the flag says whether the last one was a digit.\<close>

fun digit_groups :: "bool \<Rightarrow> nat \<Rightarrow> string \<Rightarrow> nat option" where
  "digit_groups after_digit acc [] = (if after_digit then Some acc else None)"
| "digit_groups after_digit acc (c # cs) =
     (case digit_of c of
        Some d \<Rightarrow> digit_groups True (acc * 10 + d) cs
      | None \<Rightarrow> if c = CHR ''_'' \<and> after_digit then digit_groups False acc cs else None)"

definition int_of_text :: "string \<Rightarrow> string + int" where
  "int_of_text s =
     (let t = strip s;
          (sign, digits) = (case t of c # cs \<Rightarrow> if c = CHR ''-'' then (-1, cs) else if c = CHR ''+'' then (1, cs) else (1, t)
                            | [] \<Rightarrow> (1, [])) in
      if 4300 < length (filter (\<lambda>c. digit_of c \<noteq> None) digits) then Inl ''ValueError''
      else (case digit_groups False 0 digits of None \<Rightarrow> Inl ''ValueError'' | Some n \<Rightarrow> Inr (sign * int n)))"

subsection \<open>One request with retries\<close>

definition retryable_status_codes :: "nat set" where
  "retryable_status_codes = {429, 500, 502, 503, 504}"

text \<open>
  \<open>float(int(raw))\<close> overflows beyond the largest double, and \<open>time.sleep\<close> refuses a negative pause;
  a header that \<open>int\<close> does not read is ignored.
\<close>

definition float_overflow :: int where
  "float_overflow = 2 ^ 1024 - 2 ^ 970"

definition retry_pause :: "string option \<Rightarrow> string + unit" where
  "retry_pause retry_after =
     (case retry_after of
        None \<Rightarrow> Inr ()
      | Some raw \<Rightarrow>
          (case int_of_text raw of
             Inl _ \<Rightarrow> Inr ()
           | Inr n \<Rightarrow>
               if float_overflow \<le> \<bar>n\<bar> then Inl ''OverflowError''
               else if n < 0 then Inl ''ValueError''
               else Inr ()))"

datatype http_failure = Timed_out | Http_error | Pause_raised string | Attempts_exhausted

text \<open>The first argument is the number of attempts left.\<close>

fun http_get :: "nat \<Rightarrow> http_request \<Rightarrow> 'c intel_world \<Rightarrow> (http_failure + nat \<times> json option) \<times> 'c intel_world" where
  "http_get 0 req w = (Inl Attempts_exhausted, w)"
| "http_get (Suc n) req w =
     (let (attempt, w) = send req w in
      case attempt of
        Http_response status retry_after body \<Rightarrow>
          if status \<in> retryable_status_codes \<and> 0 < n then
            (case retry_pause retry_after of
               Inl e \<Rightarrow> (Inl (Pause_raised e), w)
             | Inr _ \<Rightarrow> http_get n req w)
          else (Inr (status, body), w)
      | Http_timeout \<Rightarrow> if n = 0 then (Inl Timed_out, w) else http_get n req w
      | Http_network_error \<Rightarrow> if n = 0 then (Inl Http_error, w) else http_get n req w
      | Http_other_error \<Rightarrow> (Inl Http_error, w))"

subsection \<open>One lookup\<close>

text \<open>
  \<open>ip_sanitize\<close> returns the metadata, \<open>None\<close> for a definitive "no record", or the name of the
  exception it raises.
\<close>

record intel_provider =
  ip_name :: string
  ip_enabled :: bool
  ip_handled_types :: "ioc_type set"
  ip_rate_limited :: bool
  ip_max_attempts :: nat
  ip_cached :: bool
  ip_request :: "ioc \<Rightarrow> http_request"
  ip_sanitize :: "ioc \<Rightarrow> json \<Rightarrow> string + (string, json) dict option"

definition malformed_exceptions :: "string set" where
  "malformed_exceptions = {''ValueError'', ''KeyError'', ''TypeError''}"

definition lookup_outcome :: "intel_provider \<Rightarrow> ioc \<Rightarrow> http_failure + nat \<times> json option
    \<Rightarrow> string + lookup_status \<times> (string, json) dict" where
  "lookup_outcome p i answer =
     (case answer of
        Inl Timed_out \<Rightarrow> Inr (TIMEOUT, [])
      | Inl Http_error \<Rightarrow> Inr (ERROR, [])
      | Inl (Pause_raised e) \<Rightarrow> Inl e
      | Inl Attempts_exhausted \<Rightarrow> Inl ''AssertionError''
      | Inr (status, body) \<Rightarrow>
          if status = 429 then Inr (RATE_LIMITED, [])
          else if status = 404 then Inr (NOT_FOUND, [])
          else if 400 \<le> status then Inr (ERROR, [])
          else (case body of
              None \<Rightarrow> Inr (ERROR, [])
            | Some b \<Rightarrow>
                (case ip_sanitize p i b of
                   Inl e \<Rightarrow> if e \<in> malformed_exceptions then Inr (ERROR, []) else Inl e
                 | Inr None \<Rightarrow> Inr (NOT_FOUND, [])
                 | Inr (Some metadata) \<Rightarrow> Inr (FOUND, metadata))))"

definition lookup_one :: "intel_provider \<Rightarrow> ioc \<Rightarrow> 'c intel_world \<Rightarrow> (string + lookup_record) \<times> 'c intel_world" where
  "lookup_one p i w =
     (let (t, w) = read_clock w;
          entry = (\<lambda>(status, result). \<lparr>lr_provider = ip_name p, lr_indicator_type = ioc_type_value (i_type i),
             lr_status = status, lr_timestamp = Some t, lr_result = result\<rparr>);
          (acquired, w) = (if ip_rate_limited p then try_acquire w else (True, w)) in
      if \<not> acquired then (Inr (entry (RATE_LIMITED, [])), w)
      else
        (let (answer, w) = http_get (ip_max_attempts p) (ip_request p i) w in
         (map_sum id entry (lookup_outcome p i answer), w)))"

text \<open>The dictionary comprehension over the pending indicators: an exception ends it.\<close>

fun lookup_all :: "intel_provider \<Rightarrow> ioc list \<Rightarrow> (string, lookup_record) dict \<Rightarrow> 'c intel_world
    \<Rightarrow> (string + (string, lookup_record) dict) \<times> 'c intel_world" where
  "lookup_all p [] records w = (Inr records, w)"
| "lookup_all p (i # is) records w =
     (case lookup_one p i w of
        (Inl e, w) \<Rightarrow> (Inl e, w)
      | (Inr r, w) \<Rightarrow> lookup_all p is (AList.update (ioc_key i) r records) w)"

subsection \<open>The cache around the lookups\<close>

type_synonym 'c get_call = "string \<Rightarrow> ioc \<Rightarrow> instant \<Rightarrow> 'c \<Rightarrow> lookup_record option \<times> 'c"
type_synonym 'c put_call = "string \<Rightarrow> ioc \<Rightarrow> lookup_record \<Rightarrow> instant \<Rightarrow> 'c \<Rightarrow> 'c"

text \<open>The cached records by key, and the indicators left to look up.\<close>

fun split_cached :: "'c get_call \<Rightarrow> intel_provider \<Rightarrow> instant \<Rightarrow> ioc list \<Rightarrow> (string, lookup_record) dict
    \<Rightarrow> 'c \<Rightarrow> (string, lookup_record) dict \<times> ioc list \<times> 'c" where
  "split_cached get p now [] cached c = (cached, [], c)"
| "split_cached get p now (i # is) cached c =
     (let (r, c) = (if ip_cached p then get (ip_name p) i now c else (None, c)) in
      case r of
        Some r \<Rightarrow> split_cached get p now is (AList.update (ioc_key i) r cached) c
      | None \<Rightarrow> (let (cached, pending, c) = split_cached get p now is cached c in (cached, i # pending, c)))"

definition store_verdict :: "'c put_call \<Rightarrow> intel_provider \<Rightarrow> instant \<Rightarrow> (string, lookup_record) dict \<Rightarrow> ioc \<Rightarrow> 'c \<Rightarrow> 'c" where
  "store_verdict put p now records i c =
     (case map_of records (ioc_key i) of
        None \<Rightarrow> c
      | Some r \<Rightarrow>
          if \<not> ip_cached p \<or> lr_status r \<notin> cacheable_statuses then c else put (ip_name p) i r now c)"

subsection \<open>The provider run\<close>

definition aggregate_lookups :: "lookup_record list \<Rightarrow> enrichment_status" where
  "aggregate_lookups records =
     (if records = [] then SKIPPED
      else if list_all (\<lambda>r. lr_status r \<in> cacheable_statuses) records then COMPLETE
      else if list_all (\<lambda>r. lr_status r \<notin> cacheable_statuses) records then FAILED
      else PARTIAL)"

definition outcome_count :: "lookup_status \<Rightarrow> lookup_record list \<Rightarrow> nat" where
  "outcome_count st records = length (filter (\<lambda>r. lr_status r = st) records)"

definition count_note :: "string \<Rightarrow> lookup_record list \<Rightarrow> lookup_status \<Rightarrow> string \<Rightarrow> string list" where
  "count_note provider records st text =
     (if outcome_count st records = 0 then []
      else [provider @ '': '' @ nat_str (outcome_count st records) @ text])"

definition build_notes :: "string \<Rightarrow> lookup_record list \<Rightarrow> string list" where
  "build_notes provider records =
     [provider @ '': looked up '' @ nat_str (length records) @ '' indicator(s)'']
     @ count_note provider records RATE_LIMITED '' rate-limited''
     @ count_note provider records TIMEOUT '' timed out''
     @ count_note provider records ERROR '' failed''
     @ count_note provider records NOT_FOUND '' not found''"

definition record_dump :: "lookup_record \<Rightarrow> (string, json) dict" where
  "record_dump r =
     [(''provider'', JStr (lr_provider r)), (''indicator_type'', JStr (lr_indicator_type r)),
      (''lookup_status'', JStr (lookup_status_value (lr_status r))), (''timestamp'', iso_or_null (lr_timestamp r)),
      (''result'', JObj (lr_result r))]"

definition skipped_run :: "intel_provider \<Rightarrow> string \<Rightarrow> provider_enrichment" where
  "skipped_run p why = \<lparr>pe_provider = ip_name p, pe_status = SKIPPED, pe_results = [],
     pe_notes = [ip_name p @ '': '' @ why]\<rparr>"

definition intel_enrich :: "'c get_call \<Rightarrow> 'c put_call \<Rightarrow> intel_provider \<Rightarrow> ioc list \<Rightarrow> 'c intel_world
    \<Rightarrow> (string + provider_enrichment) \<times> 'c intel_world" where
  "intel_enrich get put p iocs w =
     (if \<not> ip_enabled p then (Inr (skipped_run p ''provider disabled''), w)
      else
        (let handled = filter (\<lambda>i. i_type i \<in> ip_handled_types p) iocs in
         if handled = [] then (Inr (skipped_run p ''no indicators of a handled type''), w)
         else
           (let (now, w) = read_clock w;
                (cached, pending, c) = split_cached get p now handled [] (iw_cache w);
                w = w\<lparr>iw_cache := c\<rparr> in
            case lookup_all p pending [] w of
              (Inl e, w) \<Rightarrow> (Inl e, w)
            | (Inr looked, w) \<Rightarrow>
                (let w = w\<lparr>iw_cache := fold (store_verdict put p now looked) pending (iw_cache w)\<rparr>;
                     records = fold (\<lambda>(k, r). AList.update k r) cached looked;
                     rs = map snd records;
                     notes = build_notes (ip_name p) rs in
                 (Inr \<lparr>pe_provider = ip_name p, pe_status = aggregate_lookups rs,
                    pe_results = map (\<lambda>(k, r). (k, record_dump r)) records,
                    pe_notes = (if cached = [] then notes
                      else (ip_name p @ '': '' @ nat_str (length cached) @ '' served from cache'') # notes)\<rparr>, w)))))"

text \<open>As the chain sees it.\<close>

definition chain_provider :: "'c get_call \<Rightarrow> 'c put_call \<Rightarrow> intel_provider \<Rightarrow> 'c intel_world provider" where
  "chain_provider get put p = \<lparr>pv_name = ip_name p, pv_enabled = ip_enabled p,
     pv_enrich = (\<lambda>iocs context. intel_enrich get put p iocs)\<rparr>"

end
