(* ===== verification/Intel_Providers.thy ===== *)
theory Intel_Providers
  imports Threat_Intel
begin

text \<open>
  The two providers: VirusTotal (enrichment/virustotal.py) and MISP (enrichment/misp.py), each the
  request for an indicator and the reduction of a response body to allow-listed metadata.
  \<open>float_text\<close> stands for the text CPython gives a float (its shortest decimal form).
\<close>

subsection \<open>Conversions of the standard library\<close>

definition trunc_float :: "int \<Rightarrow> int \<Rightarrow> int" where
  "trunc_float m e = (if 0 \<le> e then m * 2 ^ nat e else sgn m * (\<bar>m\<bar> div 2 ^ nat (- e)))"

fun py_int :: "json \<Rightarrow> string + int" where
  "py_int (JBool b) = Inr (if b then 1 else 0)"
| "py_int (JInt i) = Inr i"
| "py_int (JFloat m e) = Inr (trunc_float m e)"
| "py_int (JInf pos) = Inl ''OverflowError''"
| "py_int JNaN = Inl ''ValueError''"
| "py_int (JStr s) = int_of_text s"
| "py_int _ = Inl ''TypeError''"

text \<open>Unpadded base64url.\<close>

definition b64_char :: "nat \<Rightarrow> char" where
  "b64_char n = char_of (if n < 26 then 65 + n else if n < 52 then 71 + n else if n < 62 then n - 4
     else if n = 62 then 45 else 95)"

fun base64url :: "nat list \<Rightarrow> string" where
  "base64url [] = []"
| "base64url [a] = [b64_char (a div 4), b64_char (a mod 4 * 16)]"
| "base64url [a, b] = [b64_char (a div 4), b64_char (a mod 4 * 16 + b div 16), b64_char (b mod 16 * 4)]"
| "base64url (a # b # c # rest) =
     [b64_char (a div 4), b64_char (a mod 4 * 16 + b div 16), b64_char (b mod 16 * 4 + c div 64), b64_char (c mod 64)]
     @ base64url rest"

definition url_id :: "string \<Rightarrow> string" where
  "url_id v = base64url (map of_char v)"

subsection \<open>VirusTotal\<close>

definition int_or_zero :: "json \<Rightarrow> string + int" where
  "int_or_zero v = (case v of JNull \<Rightarrow> Inr 0 | _ \<Rightarrow> py_int v)"

fun then_int :: "(string, json) dict \<Rightarrow> string \<Rightarrow> ((string \<times> json) \<Rightarrow> string + 'a) \<Rightarrow> string + 'a" where
  "then_int stats key k = then_ok (int_or_zero (dict_get stats key)) (\<lambda>n. k (key, JInt n))"

definition vt_request :: "ioc \<Rightarrow> http_request" where
  "vt_request i =
     ((if i_type i \<in> {MD5, SHA1, SHA256} then ''/files/'' @ i_value i
       else if i_type i = IPV4 then ''/ip_addresses/'' @ i_value i
       else if i_type i = DOMAIN then ''/domains/'' @ i_value i
       else ''/urls/'' @ url_id (i_value i)), None)"

definition vt_counts :: "(string, json) dict \<Rightarrow> json \<Rightarrow> string + (string, json) dict option" where
  "vt_counts stats reputation =
     then_int stats ''malicious'' (\<lambda>m.
     then_int stats ''suspicious'' (\<lambda>s.
     then_int stats ''harmless'' (\<lambda>h.
     then_int stats ''undetected'' (\<lambda>u.
       Inr (Some [m, s, h, u, (''reputation'', reputation)])))))"

definition vt_sanitize :: "ioc \<Rightarrow> json \<Rightarrow> string + (string, json) dict option" where
  "vt_sanitize i body =
     (case body of
        JObj root \<Rightarrow>
          (case dict_get root ''data'' of
             JNull \<Rightarrow> Inr None
           | JObj d \<Rightarrow>
               (case dict_get d ''attributes'' of
                  JObj attributes \<Rightarrow>
                    (case dict_get attributes ''last_analysis_stats'' of
                       JNull \<Rightarrow> vt_counts [] (dict_get attributes ''reputation'')
                     | JObj stats \<Rightarrow> vt_counts stats (dict_get attributes ''reputation'')
                     | _ \<Rightarrow> Inl ''ValueError'')
                | _ \<Rightarrow> Inl ''ValueError'')
           | _ \<Rightarrow> Inl ''ValueError'')
      | _ \<Rightarrow> Inl ''ValueError'')"

definition virustotal :: "bool \<Rightarrow> bool \<Rightarrow> nat \<Rightarrow> intel_provider" where
  "virustotal has_key cached max_attempts = \<lparr>ip_name = ''virustotal'', ip_enabled = has_key,
     ip_handled_types = {MD5, SHA1, SHA256, IPV4, DOMAIN, URL}, ip_rate_limited = True,
     ip_max_attempts = max_attempts, ip_cached = cached, ip_request = vt_request, ip_sanitize = vt_sanitize\<rparr>"

subsection \<open>MISP\<close>

definition max_event_ids :: nat where
  "max_event_ids = 20"

definition max_tags :: nat where
  "max_tags = 50"

text \<open>Iterating over a value: text and mappings yield items that are not mappings.\<close>

fun tag_items :: "json \<Rightarrow> string + json list" where
  "tag_items (JList vs) = Inr vs"
| "tag_items (JStr s) = Inr []"
| "tag_items (JObj kvs) = Inr []"
| "tag_items _ = Inl ''TypeError''"

definition tag_names :: "(json \<Rightarrow> string) \<Rightarrow> json list \<Rightarrow> string list" where
  "tag_names float_text items =
     List.map_filter (\<lambda>t. case t of
        JObj kvs \<Rightarrow> if json_truthy (dict_get kvs ''name'') then Some (json_text float_text (dict_get kvs ''name'')) else None
      | _ \<Rightarrow> None) items"

record misp_tally =
  mt_match_count :: nat
  mt_event_ids :: "json list"
  mt_tags :: "string list"

fun misp_collect :: "(json \<Rightarrow> string) \<Rightarrow> json list \<Rightarrow> misp_tally \<Rightarrow> string + misp_tally" where
  "misp_collect float_text [] t = Inr t"
| "misp_collect float_text (JObj a # attributes) t =
     (let event_id = dict_get a ''event_id'' in
      then_ok (tag_items (or_empty_list (dict_get a ''tags''))) (\<lambda>items.
        misp_collect float_text attributes
          (t\<lparr>mt_match_count := mt_match_count t + 1,
             mt_event_ids := mt_event_ids t @ (if event_id = JNull then [] else [event_id]),
             mt_tags := mt_tags t @ tag_names float_text items\<rparr>)))"
| "misp_collect float_text (_ # attributes) t = misp_collect float_text attributes t"

definition misp_metadata :: "(json \<Rightarrow> string) \<Rightarrow> misp_tally \<Rightarrow> (string, json) dict" where
  "misp_metadata float_text t =
     [(''match_count'', JInt (int (mt_match_count t))),
      (''event_ids'', JList (map JStr (take max_event_ids (sort (remdups (map (json_text float_text) (mt_event_ids t))))))),
      (''tags'', JList (map JStr (take max_tags (sort (remdups (mt_tags t))))))]"

definition misp_request :: "ioc \<Rightarrow> http_request" where
  "misp_request i = (''/attributes/restSearch'', Some [(''value'', i_value i), (''returnFormat'', ''json'')])"

definition misp_sanitize :: "(json \<Rightarrow> string) \<Rightarrow> ioc \<Rightarrow> json \<Rightarrow> string + (string, json) dict option" where
  "misp_sanitize float_text i body =
     (case body of
        JObj root \<Rightarrow>
          (case dict_get root ''response'' of
             JList [] \<Rightarrow> Inr None
           | JObj response \<Rightarrow>
               (case or_empty_list (dict_get response ''Attribute'') of
                  JList attributes \<Rightarrow>
                    if attributes = [] then Inr None
                    else map_sum id (\<lambda>t. Some (misp_metadata float_text t))
                      (misp_collect float_text attributes \<lparr>mt_match_count = 0, mt_event_ids = [], mt_tags = []\<rparr>)
                | _ \<Rightarrow> Inl ''ValueError'')
           | _ \<Rightarrow> Inl ''ValueError'')
      | _ \<Rightarrow> Inl ''ValueError'')"

definition misp :: "(json \<Rightarrow> string) \<Rightarrow> bool \<Rightarrow> bool \<Rightarrow> nat \<Rightarrow> intel_provider" where
  "misp float_text has_url_and_key cached max_attempts = \<lparr>ip_name = ''misp'', ip_enabled = has_url_and_key,
     ip_handled_types = UNIV, ip_rate_limited = False, ip_max_attempts = max_attempts, ip_cached = cached,
     ip_request = misp_request, ip_sanitize = misp_sanitize float_text\<rparr>"

end
