(* ===== verification/Intel_Facts.thy ===== *)
theory Intel_Facts
  imports Intel_Providers
begin

text \<open>
  What the threat-intel providers guarantee: bounded traffic, one record per handled indicator,
  replayed verdicts taken from the cache only, metadata limited to the allow-list; and where the
  code does not keep its promise never to raise.
\<close>

subsection \<open>Requests\<close>

lemma send_simps [simp]:
  "iw_requests (snd (send req w)) = iw_requests w @ [req]" "iw_cache (snd (send req w)) = iw_cache w"
  "iw_clock (snd (send req w)) = iw_clock w"
  by (simp_all add: send_def)

text \<open>Only requests are logged and consumed.\<close>

definition only_requests :: "nat \<Rightarrow> 'c intel_world \<Rightarrow> 'c intel_world \<Rightarrow> bool" where
  "only_requests n w w' \<longleftrightarrow> iw_cache w' = iw_cache w
     \<and> length (iw_requests w') \<le> length (iw_requests w) + n
     \<and> set (iw_attempts w') \<subseteq> set (iw_attempts w)"

lemma only_requests_refl [simp]: "only_requests n w w"
  by (simp add: only_requests_def)

lemma only_requests_trans: "only_requests m w w1 \<Longrightarrow> only_requests n w1 w2 \<Longrightarrow> only_requests (m + n) w w2"
  by (auto simp: only_requests_def)

lemma only_requests_mono: "only_requests m w w' \<Longrightarrow> m \<le> n \<Longrightarrow> only_requests n w w'"
  by (simp add: only_requests_def)

lemma send_only: "send req w = (a, w') \<Longrightarrow> only_requests 1 w w'"
  by (cases "iw_attempts w") (auto simp: send_def only_requests_def)

lemma http_get_only: "http_get n req w = (x, w') \<Longrightarrow> only_requests n w w'"
proof (induction n arbitrary: w)
  case (Suc n)
  obtain a w1 where s: "send req w = (a, w1)" by (cases "send req w")
  have "only_requests (Suc 0) w w1" using send_only [OF s] by simp
  moreover have "only_requests n w1 w'"
    using Suc.prems Suc.IH [of w1] by (auto simp: s split: http_attempt.splits if_splits sum.splits)
  ultimately show ?case using only_requests_trans [of "Suc 0" w w1 n w'] by simp
qed simp

text \<open>An answer whose \<open>Retry-After\<close> header, if any, can be slept for.\<close>

fun courteous :: "http_attempt \<Rightarrow> bool" where
  "courteous (Http_response status retry_after body) = (retry_pause retry_after = Inr ())"
| "courteous _ = True"

definition all_courteous :: "'c intel_world \<Rightarrow> bool" where
  "all_courteous w \<longleftrightarrow> (\<forall>a \<in> set (iw_attempts w). courteous a)"

lemma only_requests_courteous: "only_requests n w w' \<Longrightarrow> all_courteous w \<Longrightarrow> all_courteous w'"
  by (auto simp: only_requests_def all_courteous_def)

lemma send_courteous: "send req w = (a, w') \<Longrightarrow> all_courteous w \<Longrightarrow> courteous a"
  by (cases "iw_attempts w") (auto simp: send_def all_courteous_def)

lemma http_get_answers:
  "0 < n \<Longrightarrow> all_courteous w \<Longrightarrow> fst (http_get n req w) \<notin> {Inl Attempts_exhausted} \<union> range (Inl \<circ> Pause_raised)"
proof (induction n arbitrary: w)
  case (Suc n)
  obtain a w1 where s: "send req w = (a, w1)" by (cases "send req w")
  have "all_courteous w1" using only_requests_courteous [OF send_only [OF s] Suc.prems(2)] .
  then show ?case
    using Suc.IH [of w1] send_courteous [OF s Suc.prems(2)]
    by (cases n) (auto simp: s split: http_attempt.split)
qed simp

subsection \<open>Lookups\<close>

definition well_behaved :: "intel_provider \<Rightarrow> bool" where
  "well_behaved p \<longleftrightarrow> 0 < ip_max_attempts p
     \<and> (\<forall>i b e. ip_sanitize p i b = Inl e \<longrightarrow> e \<in> malformed_exceptions)"

lemma lookup_one_cases:
  obtains (limited) r w2 where "only_requests 0 w w2" "lookup_one p i w = (Inr r, w2)" "lr_provider r = ip_name p"
  | (sent) t w2 answer w' where "only_requests 0 w w2" "http_get (ip_max_attempts p) (ip_request p i) w2 = (answer, w')"
      "lookup_one p i w = (map_sum id (\<lambda>(status, result). \<lparr>lr_provider = ip_name p,
         lr_indicator_type = ioc_type_value (i_type i), lr_status = status, lr_timestamp = Some t,
         lr_result = result\<rparr>) (lookup_outcome p i answer), w')"
proof -
  obtain t w1 where clock: "read_clock w = (t, w1)" by (cases "read_clock w")
  obtain acquired w2 where token: "(if ip_rate_limited p then try_acquire w1 else (True, w1)) = (acquired, w2)"
    by (cases "if ip_rate_limited p then try_acquire w1 else (True, w1)")
  have same: "only_requests 0 w w2"
    using clock token by (auto simp: read_clock_def try_acquire_def only_requests_def split: if_splits)
  obtain answer w' where get: "http_get (ip_max_attempts p) (ip_request p i) w2 = (answer, w')"
    by (cases "http_get (ip_max_attempts p) (ip_request p i) w2")
  note run = lookup_one_def Let_def clock prod.case token get
  show ?thesis
  proof (cases acquired)
    case False
    with limited [OF same] show ?thesis by (simp add: run)
  next
    case True
    with sent [OF same get, of t] show ?thesis by (simp add: run)
  qed
qed

lemma lookup_one_only:
  assumes "lookup_one p i w = (x, w')"
  shows "only_requests (ip_max_attempts p) w w'"
proof (cases rule: lookup_one_cases [of w p i])
  case (limited r w2)
  with assms show ?thesis by (auto intro: only_requests_mono)
next
  case (sent t w2 answer w'')
  from only_requests_trans [OF sent(1) http_get_only [OF sent(2)]] sent(3) assms show ?thesis by simp
qed

lemma lookup_one_returns:
  assumes "well_behaved p" "all_courteous w"
  shows "\<exists>r. fst (lookup_one p i w) = Inr r"
proof (cases rule: lookup_one_cases [of w p i])
  case (sent t w2 answer w')
  have "answer \<notin> {Inl Attempts_exhausted} \<union> range (Inl \<circ> Pause_raised)"
    using http_get_answers [of "ip_max_attempts p" w2 "ip_request p i"] sent(2) assms
      only_requests_courteous [OF sent(1)]
    by (simp add: well_behaved_def)
  then have "\<exists>x. lookup_outcome p i answer = Inr x"
    using assms by (auto simp: lookup_outcome_def well_behaved_def
        split: sum.split http_failure.split option.split prod.split)
  with sent(3) show ?thesis by auto
qed simp

lemma lookup_all_only:
  "lookup_all p is records w = (x, w') \<Longrightarrow> only_requests (length is * ip_max_attempts p) w w'"
proof (induction p "is" records w rule: lookup_all.induct)
  case (2 p i "is" records w)
  obtain y w1 where one: "lookup_one p i w = (y, w1)" by (cases "lookup_one p i w")
  note step = lookup_one_only [OF one]
  show ?case
  proof (cases y)
    case (Inl e)
    with 2 one step show ?thesis by (auto intro: only_requests_mono)
  next
    case (Inr r)
    from 2(1) [OF one [symmetric] Inr] 2(2) one Inr
    have "only_requests (length is * ip_max_attempts p) w1 w'" by simp
    from only_requests_trans [OF step this] show ?thesis by simp
  qed
qed simp

lemma lookup_all_returns:
  "well_behaved p \<Longrightarrow> all_courteous w \<Longrightarrow> \<exists>records'. fst (lookup_all p is records w) = Inr records'
     \<and> fst ` set records' = fst ` set records \<union> ioc_key ` set is"
proof (induction p "is" records w rule: lookup_all.induct)
  case (2 p i "is" records w)
  obtain r w1 where one: "lookup_one p i w = (Inr r, w1)"
    using lookup_one_returns [OF 2(2,3), of i] by (metis prod.collapse)
  have "all_courteous w1" using only_requests_courteous [OF lookup_one_only [OF one] 2(3)] .
  then show ?case using 2(1) [OF one [symmetric] refl 2(2)] by (auto simp: one dom_update)
qed simp

subsection \<open>The run around the lookups\<close>

lemma split_cached_keys:
  "split_cached get p now is cached c = (cached', pending, c') \<Longrightarrow>
     fst ` set cached' \<union> ioc_key ` set pending = fst ` set cached \<union> ioc_key ` set is
     \<and> length pending \<le> length is"
proof (induction get p now "is" cached c arbitrary: cached' pending c' rule: split_cached.induct)
  case (2 get p now i "is" cached c)
  obtain r c1 where r: "(if ip_cached p then get (ip_name p) i now c else (None, c)) = (r, c1)"
    by (cases "if ip_cached p then get (ip_name p) i now c else (None, c)")
  show ?case
  proof (cases r)
    case None
    obtain ca pe c2 where rest: "split_cached get p now is cached c1 = (ca, pe, c2)" by (metis prod.collapse)
    from 2(3) r rest None have "cached' = ca" "pending = i # pe" by simp_all
    with 2(1) [OF r [symmetric] refl None rest] show ?thesis by simp
  next
    case (Some v)
    from 2(3) r Some have "split_cached get p now is (AList.update (ioc_key i) v cached) c1 = (cached', pending, c')"
      by simp
    from 2(2) [OF r [symmetric] refl Some this] show ?thesis by (simp add: dom_update)
  qed
qed simp

lemma set_update_subset: "set (AList.update k v al) \<subseteq> insert (k, v) (set al)"
  by (induction al) auto

lemma fold_update_keys:
  "fst ` set (fold (\<lambda>(k, r). AList.update k r) xs al) = fst ` set al \<union> fst ` set xs"
proof (induction xs arbitrary: al)
  case (Cons x xs)
  then show ?case by (cases x) (simp add: dom_update)
qed simp

lemma fold_update_subset: "set (fold (\<lambda>(k, r). AList.update k r) xs al) \<subseteq> set al \<union> set xs"
proof (induction xs arbitrary: al)
  case (Cons x xs)
  obtain k v where x: "x = (k, v)" by (cases x)
  from Cons [of "AList.update k v al"] set_update_subset [of k v al] show ?case by (auto simp: x)
qed simp

lemma lookup_all_subset:
  "lookup_all p is records w = (Inr records', w') \<Longrightarrow>
     (k, r) \<in> set records' \<Longrightarrow> (k, r) \<in> set records \<or> lr_provider r = ip_name p"
proof (induction p "is" records w rule: lookup_all.induct)
  case (2 p i "is" records w)
  obtain y w1 where one: "lookup_one p i w = (y, w1)" by (cases "lookup_one p i w")
  then obtain r0 where y: "y = Inr r0" using 2(2) by (cases y) auto
  have "lr_provider r0 = ip_name p"
  proof (cases rule: lookup_one_cases [of w p i])
    case (sent t w2 answer w'')
    then show ?thesis using one y by (cases "lookup_outcome p i answer") auto
  next
    case (limited r w2)
    then show ?thesis using one y by simp
  qed
  with 2(1) [OF one [symmetric] y] 2(2,3) one y set_update_subset [of "ioc_key i" r0 records]
  show ?case by auto
qed simp

text \<open>A run that returns, in its steps.\<close>

lemma intel_enrich_run:
  assumes "intel_enrich get put p iocs w = (Inr e, w')"
    and on: "ip_enabled p" "filter (\<lambda>i. i_type i \<in> ip_handled_types p) iocs \<noteq> []"
  obtains now w1 cached pending c looked w2 where
    "read_clock w = (now, w1)"
    "split_cached get p now (filter (\<lambda>i. i_type i \<in> ip_handled_types p) iocs) [] (iw_cache w1) = (cached, pending, c)"
    "lookup_all p pending [] (w1\<lparr>iw_cache := c\<rparr>) = (Inr looked, w2)"
    "w' = w2\<lparr>iw_cache := fold (store_verdict put p now looked) pending (iw_cache w2)\<rparr>"
    "pe_results e = map (\<lambda>(k, r). (k, record_dump r)) (fold (\<lambda>(k, r). AList.update k r) cached looked)"
proof -
  obtain now w1 where clock: "read_clock w = (now, w1)" by (cases "read_clock w")
  obtain cached pending c where split: "split_cached get p now
      (filter (\<lambda>i. i_type i \<in> ip_handled_types p) iocs) [] (iw_cache w1) = (cached, pending, c)"
    by (metis prod.collapse)
  obtain x w2 where all: "lookup_all p pending [] (w1\<lparr>iw_cache := c\<rparr>) = (x, w2)" by (metis prod.collapse)
  obtain looked where x: "x = Inr looked"
    using assms by (cases x) (auto simp: intel_enrich_def Let_def clock split all)
  have "w' = w2\<lparr>iw_cache := fold (store_verdict put p now looked) pending (iw_cache w2)\<rparr>
    \<and> pe_results e = map (\<lambda>(k, r). (k, record_dump r)) (fold (\<lambda>(k, r). AList.update k r) cached looked)"
    using assms by (auto simp: intel_enrich_def Let_def clock split all x)
  then show ?thesis using that [OF clock split] all x by simp
qed

lemma intel_enrich_returns:
  assumes "well_behaved p" "all_courteous w" "ip_enabled p"
  shows "\<exists>e w'. intel_enrich get put p iocs w = (Inr e, w')"
proof -
  obtain now w1 where clock: "read_clock w = (now, w1)" by (cases "read_clock w")
  obtain cached pending c where split: "split_cached get p now
      (filter (\<lambda>i. i_type i \<in> ip_handled_types p) iocs) [] (iw_cache w1) = (cached, pending, c)"
    by (metis prod.collapse)
  have "all_courteous (w1\<lparr>iw_cache := c\<rparr>)"
    using clock assms(2) by (auto simp: read_clock_def all_courteous_def)
  then obtain looked w2 where "lookup_all p pending [] (w1\<lparr>iw_cache := c\<rparr>) = (Inr looked, w2)"
    using lookup_all_returns [OF assms(1), of "w1\<lparr>iw_cache := c\<rparr>" pending "[]"] by (metis prod.collapse)
  then show ?thesis by (simp add: intel_enrich_def Let_def clock split)
qed

lemma intel_enrich_keys:
  assumes "well_behaved p" "all_courteous w" "ip_enabled p"
  shows "\<exists>e w'. intel_enrich get put p iocs w = (Inr e, w')
    \<and> fst ` set (pe_results e) = ioc_key ` {i \<in> set iocs. i_type i \<in> ip_handled_types p}
    \<and> length (iw_requests w') \<le> length (iw_requests w)
        + length (filter (\<lambda>i. i_type i \<in> ip_handled_types p) iocs) * ip_max_attempts p"
proof (cases "filter (\<lambda>i. i_type i \<in> ip_handled_types p) iocs = []")
  case True
  then have "{i \<in> set iocs. i_type i \<in> ip_handled_types p} = {}" by (auto simp: filter_empty_conv)
  with True assms(3) show ?thesis by (simp add: intel_enrich_def Let_def skipped_run_def)
next
  case False
  let ?h = "filter (\<lambda>i. i_type i \<in> ip_handled_types p) iocs"
  obtain e w' where ret: "intel_enrich get put p iocs w = (Inr e, w')"
    using intel_enrich_returns [OF assms] by blast
  obtain now w1 cached pending c looked w2 where run:
    "read_clock w = (now, w1)" "split_cached get p now ?h [] (iw_cache w1) = (cached, pending, c)"
    "lookup_all p pending [] (w1\<lparr>iw_cache := c\<rparr>) = (Inr looked, w2)"
    "w' = w2\<lparr>iw_cache := fold (store_verdict put p now looked) pending (iw_cache w2)\<rparr>"
    "pe_results e = map (\<lambda>(k, r). (k, record_dump r)) (fold (\<lambda>(k, r). AList.update k r) cached looked)"
    by (rule intel_enrich_run [OF ret assms(3) False])
  have "all_courteous (w1\<lparr>iw_cache := c\<rparr>)"
    using run(1) assms(2) by (auto simp: read_clock_def all_courteous_def)
  then have "fst ` set looked = ioc_key ` set pending"
    using lookup_all_returns [OF assms(1), of "w1\<lparr>iw_cache := c\<rparr>" pending "[]"] run(3) by simp
  moreover have "fst ` set cached \<union> ioc_key ` set pending = ioc_key ` set ?h" and len: "length pending \<le> length ?h"
    using split_cached_keys [OF run(2)] by simp_all
  ultimately have "fst ` set (pe_results e) = ioc_key ` set ?h"
    by (simp add: run(5) image_image case_prod_unfold fold_update_keys [unfolded case_prod_unfold] Un_commute)
  moreover have "only_requests (length pending * ip_max_attempts p) (w1\<lparr>iw_cache := c\<rparr>) w2"
    using lookup_all_only [OF run(3)] .
  then have "length (iw_requests w2) \<le> length (iw_requests w) + length pending * ip_max_attempts p"
    using run(1) by (auto simp: only_requests_def read_clock_def)
  then have "length (iw_requests w2) \<le> length (iw_requests w) + length ?h * ip_max_attempts p"
    using mult_le_mono1 [OF len, of "ip_max_attempts p"] by linarith
  ultimately show ?thesis using ret run(4) by auto
qed

subsection \<open>What the cache contract gives a provider\<close>

context response_cache
begin

text \<open>Each cached record was held, for its indicator, when the run began.\<close>

lemma split_replays:
  "inv c \<Longrightarrow> split_cached get p now is cached c = (cached', pending, c') \<Longrightarrow>
     inv c' \<and> (\<forall>q t v r. held c' q t v r \<longrightarrow> held c q t v r)
     \<and> (\<forall>k r. (k, r) \<in> set cached' \<longrightarrow> (k, r) \<in> set cached
          \<or> (\<exists>t v. held c (ip_name p) t v r))"
proof (induction "is" arbitrary: cached c cached' pending c')
  case (Cons i "is")
  obtain r c1 where r: "(if ip_cached p then get (ip_name p) i now c else (None, c)) = (r, c1)"
    by (cases "if ip_cached p then get (ip_name p) i now c else (None, c)")
  have inv1: "inv c1" and keep: "held c1 q t v x \<Longrightarrow> held c q t v x" for q t v x
    using r Cons.prems(1) get_inv get_keeps by (auto split: if_splits)
  show ?case
  proof (cases r)
    case None
    obtain ca pe c2 where rest: "split_cached get p now is cached c1 = (ca, pe, c2)" by (metis prod.collapse)
    with r None Cons.prems(2) have "cached' = ca" "c' = c2" by simp_all
    with Cons.IH [OF inv1 rest] keep show ?thesis by blast
  next
    case (Some x)
    have "held c (ip_name p) (i_type i) (i_value i) x"
      using r Some get_hit [OF Cons.prems(1)] by (auto split: if_splits)
    moreover have "split_cached get p now is (AList.update (ioc_key i) x cached) c1 = (cached', pending, c')"
      using r Some Cons.prems(2) by simp
    ultimately show ?thesis
      using Cons.IH [OF inv1] keep set_update_subset [of "ioc_key i" x cached] by blast
  qed
qed auto

lemma store_verdicts:
  assumes "inv c"
  shows "inv (fold (store_verdict put p now looked) pending c)
    \<and> (\<forall>q t v r. held (fold (store_verdict put p now looked) pending c) q t v r \<longrightarrow>
         held c q t v r \<or> (q = ip_name p \<and> r \<in> snd ` set looked \<and> lr_status r \<in> cacheable_statuses))"
  using assms
proof (induction pending arbitrary: c)
  case (Cons i xs)
  let ?c = "store_verdict put p now looked i c"
  have "inv ?c" using Cons.prems put_inv by (simp add: store_verdict_def split: option.split)
  moreover have "held ?c q t v r \<Longrightarrow> held c q t v r
      \<or> (q = ip_name p \<and> r \<in> snd ` set looked \<and> lr_status r \<in> cacheable_statuses)" for q t v r
  proof (cases "map_of looked (ioc_key i)")
    case (Some x)
    then have "x \<in> snd ` set looked" by (force dest: map_of_SomeD)
    moreover assume "held ?c q t v r"
    ultimately show ?thesis
      using put_adds [OF Cons.prems, of "ip_name p" i x now q t v r] Some
      by (auto simp: store_verdict_def split: if_splits)
  qed (simp add: store_verdict_def)
  ultimately show ?case using Cons.IH [of ?c] by simp metis
qed simp

definition scoped :: "'c \<Rightarrow> bool" where
  "scoped c \<longleftrightarrow> inv c \<and> (\<forall>q t v r. held c q t v r \<longrightarrow> lr_provider r = q \<and> lr_status r \<in> cacheable_statuses)"

lemma enrich_scoped:
  assumes "scoped (iw_cache w)" "intel_enrich get put p iocs w = (Inr e, w')"
  shows "scoped (iw_cache w') \<and> (\<forall>(k, d) \<in> set (pe_results e). \<exists>r. d = record_dump r \<and> lr_provider r = ip_name p)"
proof (cases "ip_enabled p \<and> filter (\<lambda>i. i_type i \<in> ip_handled_types p) iocs \<noteq> []")
  case False
  then show ?thesis using assms by (auto simp: intel_enrich_def Let_def skipped_run_def split: if_splits)
next
  case True
  let ?h = "filter (\<lambda>i. i_type i \<in> ip_handled_types p) iocs"
  obtain now w1 cached pending c looked w2 where run:
    "read_clock w = (now, w1)" "split_cached get p now ?h [] (iw_cache w1) = (cached, pending, c)"
    "lookup_all p pending [] (w1\<lparr>iw_cache := c\<rparr>) = (Inr looked, w2)"
    "w' = w2\<lparr>iw_cache := fold (store_verdict put p now looked) pending (iw_cache w2)\<rparr>"
    "pe_results e = map (\<lambda>(k, r). (k, record_dump r)) (fold (\<lambda>(k, r). AList.update k r) cached looked)"
    by (rule intel_enrich_run [OF assms(2) conjunct1 [OF True] conjunct2 [OF True]])
  have e: "iw_cache w' = fold (store_verdict put p now looked) pending (iw_cache w2)"
    by (simp add: run(4))
  have c0: "iw_cache w1 = iw_cache w" using run(1) by (auto simp: read_clock_def)
  have "inv (iw_cache w1)" using assms(1) by (simp add: scoped_def c0)
  note split = split_replays [OF this run(2)]
  have c2: "iw_cache w2 = c" using lookup_all_only [OF run(3)] by (simp add: only_requests_def)
  have fresh: "lr_provider r = ip_name p" if "(k, r) \<in> set looked" for k r
    using lookup_all_subset [OF run(3) that] by simp
  have old: "lr_provider r = ip_name p" if kr: "(k, r) \<in> set cached" for k r
  proof -
    have "\<exists>t v. held (iw_cache w1) (ip_name p) t v r"
      using split [THEN conjunct2, THEN conjunct2, rule_format, OF kr] by simp
    then show ?thesis using assms(1) unfolding scoped_def c0 by metis
  qed
  have "inv c" using split by blast
  note stored = store_verdicts [OF this, of p now looked pending]
  have "lr_provider r = q \<and> lr_status r \<in> cacheable_statuses" if h: "held (iw_cache w') q t v r" for q t v r
  proof -
    consider "held c q t v r" | "q = ip_name p" "r \<in> snd ` set looked" "lr_status r \<in> cacheable_statuses"
      using stored [THEN conjunct2, rule_format, of q t v r] h unfolding e c2 by blast
    then show ?thesis
    proof cases
      case 1
      then have "held (iw_cache w) q t v r" using split c0 by simp
      then show ?thesis using assms(1) unfolding scoped_def by simp
    next
      case 2
      then show ?thesis using fresh by force
    qed
  qed
  moreover have "inv (iw_cache w')" using stored unfolding e c2 by simp
  ultimately have "scoped (iw_cache w')" unfolding scoped_def by simp
  moreover have "lr_provider r = ip_name p" if "(k, r) \<in> set (fold (\<lambda>(k, r). AList.update k r) cached looked)" for k r
    using fold_update_subset [of cached looked] that old fresh by blast
  ultimately show ?thesis by (fastforce simp: run(5))
qed

end

subsection \<open>Metadata\<close>

lemma vt_well_formed:
  assumes "vt_sanitize i body = Inr (Some md)"
  obtains m s h u reputation where
    "md = [(''malicious'', JInt m), (''suspicious'', JInt s), (''harmless'', JInt h),
       (''undetected'', JInt u), (''reputation'', reputation)]"
  using assms by (auto simp: vt_sanitize_def vt_counts_def split: json.splits)

lemma tag_items_error: "tag_items v = Inl e \<Longrightarrow> e = ''TypeError''"
  by (cases v) auto

lemma misp_collect_error: "misp_collect ft vs t = Inl e \<Longrightarrow> e = ''TypeError''"
  by (induction ft vs t rule: misp_collect.induct) (auto simp: Let_def then_ok_eq_Inl dest: tag_items_error)

lemma misp_well_behaved: "0 < n \<Longrightarrow> well_behaved (misp ft has_key cached n)"
  by (auto simp: well_behaved_def misp_def misp_sanitize_def malformed_exceptions_def map_sum_def
      split: json.splits list.splits if_splits sum.splits dest: misp_collect_error)

lemma b64_alphabet: "distinct (map b64_char [0..<64])"
  by code_simp

lemma b64_char_inject: "m < 64 \<Longrightarrow> n < 64 \<Longrightarrow> b64_char m = b64_char n \<longleftrightarrow> m = n"
  using b64_alphabet by (simp add: distinct_map inj_on_eq_iff)

lemma sextets:
  fixes a b c :: nat
  shows "a < 256 \<Longrightarrow> a div 4 < 64" "a mod 4 * 16 < 64" "b < 256 \<Longrightarrow> a mod 4 * 16 + b div 16 < 64"
    "b mod 16 * 4 < 64" "c < 256 \<Longrightarrow> b mod 16 * 4 + c div 64 < 64" "c mod 64 < 64"
  by (simp_all add: less_mult_imp_div_less)

lemma octet_pair:
  fixes a b a' b' :: nat
  assumes "a div 4 = a' div 4" "a mod 4 * 16 + b div 16 = a' mod 4 * 16 + b' div 16" "b < 256" "b' < 256"
  shows "a = a'" "b div 16 = b' div 16"
proof -
  have "b div 16 < 16" "b' div 16 < 16" using assms(3,4) by (simp_all add: less_mult_imp_div_less)
  then show b: "b div 16 = b' div 16"
    using arg_cong [OF assms(2), of "\<lambda>x. x mod 16"] by simp
  with assms(2) have "a mod 4 = a' mod 4" by simp
  with assms(1) show "a = a'" by (metis div_mult_mod_eq)
qed

lemma octet_triple:
  fixes b c b' c' :: nat
  assumes "b div 16 = b' div 16" "b mod 16 * 4 + c div 64 = b' mod 16 * 4 + c' div 64"
    "c mod 64 = c' mod 64" "c < 256" "c' < 256"
  shows "b = b' \<and> c = c'"
proof -
  have "c div 64 < 4" "c' div 64 < 4" using assms(4,5) by (simp_all add: less_mult_imp_div_less)
  then have c: "c div 64 = c' div 64"
    using arg_cong [OF assms(2), of "\<lambda>x. x mod 4"] by simp
  with assms(2) have "b mod 16 = b' mod 16" by simp
  with assms(1,3) c show ?thesis by (metis div_mult_mod_eq)
qed

lemma base64url_inject:
  "\<forall>x \<in> set xs \<union> set ys. x < 256 \<Longrightarrow> base64url xs = base64url ys \<Longrightarrow> xs = ys"
proof (induction xs arbitrary: ys rule: base64url.induct)
  case 1
  then show ?case by (cases ys rule: base64url.cases) auto
next
  case (2 a)
  then show ?case
  proof (cases ys rule: base64url.cases)
    case (2 b)
    with "2.prems" have "a div 4 = b div 4" "a mod 4 = b mod 4"
      by (simp_all add: b64_char_inject sextets)
    with 2 show ?thesis by (metis div_mult_mod_eq)
  qed auto
next
  case (3 a b)
  then show ?case
  proof (cases ys rule: base64url.cases)
    case (3 a' b')
    with "3.prems" have e: "a div 4 = a' div 4" "a mod 4 * 16 + b div 16 = a' mod 4 * 16 + b' div 16"
      "b mod 16 = b' mod 16" and l: "b < 256" "b' < 256"
      by (simp_all add: b64_char_inject sextets)
    note p = octet_pair [OF e(1,2) l]
    with 3 e(3) show ?thesis by (metis div_mult_mod_eq)
  qed auto
next
  case (4 a b c rest)
  show ?case
  proof (cases ys rule: base64url.cases)
    case (4 a' b' c' rest')
    with "4.prems" have e: "a div 4 = a' div 4" "a mod 4 * 16 + b div 16 = a' mod 4 * 16 + b' div 16"
      "b mod 16 * 4 + c div 64 = b' mod 16 * 4 + c' div 64" "c mod 64 = c' mod 64"
      "base64url rest = base64url rest'" and l: "b < 256" "b' < 256" "c < 256" "c' < 256"
      "\<forall>x \<in> set rest \<union> set rest'. x < 256"
      by (simp_all add: b64_char_inject sextets)
    note p = octet_pair [OF e(1,2) l(1,2)]
    with octet_triple [OF p(2) e(3,4) l(3,4)] "4.IH" [OF l(5) e(5)] 4 show ?thesis by simp
  qed (use "4.prems" in auto)
qed

lemma url_id_inject: "url_id u = url_id v \<Longrightarrow> u = v"
proof -
  assume "url_id u = url_id v"
  moreover have "\<forall>x \<in> set (map of_char u) \<union> set (map of_char v). x < (256::nat)" by auto
  ultimately have "map (of_char :: char \<Rightarrow> nat) u = map of_char v"
    unfolding url_id_def by (intro base64url_inject) auto
  then show "u = v" by (rule map_injective) (simp add: inj_on_def)
qed

subsection \<open>Properties\<close>

text \<open>
  The MISP provider is fail-open: whatever the upstream service answers, in whatever order (but
  for \<open>Retry-After\<close> headers that cannot be slept for), and whatever the cache holds, a run returns, with exactly one record per handled indicator key, and
  has sent at most the configured number of attempts per indicator.
\<close>

theorem misp_never_raises:
  assumes "1 \<le> max_attempts" "\<And>a. a \<in> set (iw_attempts w) \<Longrightarrow> courteous a"
  shows "\<exists>e w'. intel_enrich get put (misp float_text True cached max_attempts) iocs w = (Inr e, w')
    \<and> fst ` set (pe_results e) = ioc_key ` set iocs
    \<and> length (iw_requests w') \<le> length (iw_requests w) + length iocs * max_attempts"
proof -
  have "well_behaved (misp float_text True cached max_attempts)"
    using assms(1) by (simp add: misp_well_behaved)
  moreover have "all_courteous w" using assms(2) by (simp add: all_courteous_def)
  ultimately show ?thesis using intel_enrich_keys [of "misp float_text True cached max_attempts" w get put iocs]
    by (simp add: misp_def)
qed

text \<open>
  A verdict is never served for another provider and only definitive verdicts are kept: if every
  verdict in the cache belongs to the provider it is filed under and is definitive, the same holds
  after a run of the MISP provider, and every record the run returns is its own.
\<close>

theorem misp_run_keeps_cache_scoped:
  assumes "cache_ok (iw_cache w)"
    and "\<And>q t v r. held_by (iw_cache w) q t v r \<Longrightarrow> lr_provider r = q \<and> lr_status r \<in> {FOUND, NOT_FOUND}"
    and "intel_enrich cache_get cache_put (misp float_text True True max_attempts) iocs w = (Inr e, w')"
  shows "cache_ok (iw_cache w')
    \<and> (\<forall>q t v r. held_by (iw_cache w') q t v r \<longrightarrow> lr_provider r = q \<and> lr_status r \<in> {FOUND, NOT_FOUND})
    \<and> (\<forall>k d. (k, d) \<in> set (pe_results e) \<longrightarrow> (\<exists>r. d = record_dump r \<and> lr_provider r = ''misp''))"
proof -
  have "persistent_cache.scoped (iw_cache w)"
    unfolding persistent_cache.scoped_def cacheable_statuses_def using assms(1,2) by blast
  from persistent_cache.enrich_scoped [OF this assms(3)] show ?thesis
    unfolding persistent_cache.scoped_def cacheable_statuses_def by (auto simp: misp_def)
qed

text \<open>
  Only allow-listed metadata leaves the providers: a MISP hit is a match count, at most 20
  distinct event ids and at most 50 distinct tags, each list sorted and of text; a VirusTotal hit
  is four integer counts and the upstream value of \<open>reputation\<close>.
\<close>

theorem metadata_allow_listed:
  "(misp_sanitize float_text i body = Inr (Some md) \<longrightarrow>
      (\<exists>n es ts. md = [(''match_count'', JInt (int n)), (''event_ids'', JList (map JStr es)), (''tags'', JList (map JStr ts))]
         \<and> length es \<le> 20 \<and> length ts \<le> 50 \<and> distinct es \<and> distinct ts \<and> sorted es \<and> sorted ts))
   \<and> (vt_sanitize i body = Inr (Some md) \<longrightarrow>
      (\<exists>m s h u reputation. md = [(''malicious'', JInt m), (''suspicious'', JInt s), (''harmless'', JInt h),
         (''undetected'', JInt u), (''reputation'', reputation)]))"
proof (intro conjI impI)
  assume "misp_sanitize float_text i body = Inr (Some md)"
  then obtain t where "md = misp_metadata float_text t"
    by (auto simp: misp_sanitize_def map_sum_def split: json.splits list.splits if_splits sum.splits)
  then show "\<exists>n es ts. md = [(''match_count'', JInt (int n)), (''event_ids'', JList (map JStr es)), (''tags'', JList (map JStr ts))]
         \<and> length es \<le> 20 \<and> length ts \<le> 50 \<and> distinct es \<and> distinct ts \<and> sorted es \<and> sorted ts"
    by (intro exI [of _ "mt_match_count t"] exI [of _ "take max_event_ids (sort (remdups (map (json_text float_text) (mt_event_ids t))))"]
          exI [of _ "take max_tags (sort (remdups (mt_tags t)))"])
       (simp add: misp_metadata_def max_event_ids_def max_tags_def sorted_wrt_take)
next
  assume "vt_sanitize i body = Inr (Some md)"
  then show "\<exists>m s h u reputation. md = [(''malicious'', JInt m), (''suspicious'', JInt s), (''harmless'', JInt h),
         (''undetected'', JInt u), (''reputation'', reputation)]"
    by (elim vt_well_formed) blast
qed

text \<open>
  Different values are never looked up under one VirusTotal address: the request determines the
  value of the indicator, for URLs through the injectivity of their unpadded base64url id.
\<close>

theorem vt_request_determines_value:
  assumes "i_type i \<in> {MD5, SHA1, SHA256, IPV4, DOMAIN, URL}" "i_type j \<in> {MD5, SHA1, SHA256, IPV4, DOMAIN, URL}"
    and "vt_request i = vt_request j"
  shows "i_value i = i_value j"
  using assms by (auto simp: vt_request_def dest: url_id_inject split: if_splits)

definition intel_ioc :: "string \<Rightarrow> ioc" where
  "intel_ioc v = \<lparr>i_type = MD5, i_value = v, i_provenance = [], i_enrichment = []\<rparr>"

definition vt_body :: "json \<Rightarrow> json" where
  "vt_body malicious = JObj [(''data'', JObj [(''attributes'', JObj [(''last_analysis_stats'',
     JObj [(''malicious'', malicious)]), (''reputation'', JObj [(''raw'', JStr ''upstream'')])])])]"

definition intel_answers :: "http_attempt list \<Rightarrow> unit intel_world" where
  "intel_answers as = \<lparr>iw_cache = (), iw_attempts = as, iw_tokens = [], iw_clock = [], iw_requests = []\<rparr>"


subsection \<open>Witnesses\<close>

lemma virustotal_count_read: "\<exists>md. vt_sanitize (intel_ioc ''a'') (vt_body (JInt 7)) = Inr (Some md)"
  unfolding vt_sanitize_def vt_counts_def vt_body_def by (simp add: dict_get_def int_or_zero_def)

theorem misp_never_raises_witness:
  "\<exists>e w'. intel_enrich (\<lambda>p i now c. (None, c)) (\<lambda>p i r now c. c) (misp (\<lambda>_. []) True False 3)
      [intel_ioc ''a''] (intel_answers [Http_network_error, Http_response 503 (Some ''2'') None, Http_response 200 None None]) = (Inr e, w')
    \<and> fst ` set (pe_results e) = {''md5:a''} \<and> length (iw_requests w') \<le> 3"
proof -
  let ?w = "intel_answers [Http_network_error, Http_response 503 (Some ''2'') None, Http_response 200 None None]"
  have key: "ioc_key (intel_ioc ''a'') = ''md5:a''" by code_simp
  have "retry_pause (Some ''2'') = Inr ()" "retry_pause None = Inr ()" by code_simp+
  then have ok: "courteous a" if "a \<in> set (iw_attempts ?w)" for a
    using that by (auto simp: intel_answers_def)
  have "iw_requests ?w = []" by (simp add: intel_answers_def)
  then show ?thesis
    using misp_never_raises [OF _ ok, of 3 ?w "\<lambda>p i now c. (None, c)" "\<lambda>p i r now c. c" "\<lambda>_. []" False
        "[intel_ioc ''a'']"] by (simp add: key)
qed

theorem misp_run_keeps_cache_scoped_witness:
  "\<exists>e w'. intel_enrich cache_get cache_put (misp (\<lambda>_. []) True True 1) [intel_ioc ''a'']
      \<lparr>iw_cache = empty_cache tiny_policy False [], iw_attempts = [Http_response 404 None None], iw_tokens = [],
        iw_clock = [], iw_requests = []\<rparr> = (Inr e, w') \<and> cache_ok (iw_cache w')"
proof -
  let ?w = "\<lparr>iw_cache = empty_cache tiny_policy False [], iw_attempts = [Http_response 404 None None], iw_tokens = [],
        iw_clock = [], iw_requests = []\<rparr>"
  obtain e w' where run: "intel_enrich cache_get cache_put (misp (\<lambda>_. []) True True 1) [intel_ioc ''a''] ?w = (Inr e, w')"
    using intel_enrich_returns [OF misp_well_behaved, of 1 ?w "\<lambda>_. []" True True cache_get cache_put "[intel_ioc ''a'']"]
    by (auto simp: all_courteous_def retry_pause_def misp_def)
  have ok: "cache_ok (iw_cache ?w)" by (simp add: empty_cache_ok(1))
  have none: "lr_provider r = q \<and> lr_status r \<in> {FOUND, NOT_FOUND}" if "held_by (iw_cache ?w) q t v r" for q t v r
    using that by (simp add: held_by_def empty_cache_def)
  from misp_run_keeps_cache_scoped [OF ok none run] have "cache_ok (iw_cache w')" by simp
  with run show ?thesis by blast
qed

theorem metadata_allow_listed_witness:
  "\<exists>md. vt_sanitize (intel_ioc ''a'') (vt_body (JInt 7)) = Inr (Some md) \<and> map fst md =
     [''malicious'', ''suspicious'', ''harmless'', ''undetected'', ''reputation'']"
proof -
  obtain md where md: "vt_sanitize (intel_ioc ''a'') (vt_body (JInt 7)) = Inr (Some md)"
    using virustotal_count_read by blast
  with metadata_allow_listed [of "\<lambda>_. []" "intel_ioc ''a''" "vt_body (JInt 7)" md] show ?thesis by auto
qed

theorem vt_request_determines_value_witness:
  "vt_request (intel_ioc ''a'') \<noteq> vt_request (intel_ioc ''b'')"
  using vt_request_determines_value [of "intel_ioc ''a''" "intel_ioc ''b''"] by (auto simp: intel_ioc_def)

end
