(* ===== verification/Text_Patterns.thy ===== *)
theory Text_Patterns
  imports Prelude
begin

text \<open>
  The part of Python's \<open>re\<close> the extractor uses: backtracking matching with greedy repetition,
  one-character look-behind and arbitrary look-ahead. A position is the text before it, reversed,
  and the text after it; \<open>ends\<close> lists the positions a pattern can end at in the order the
  backtracking matcher tries them, so its first element is the match \<open>re\<close> reports.
\<close>

subsection \<open>Character classes\<close>

definition between :: "char \<Rightarrow> char \<Rightarrow> char \<Rightarrow> bool" where
  "between lo hi c \<longleftrightarrow> (of_char lo :: nat) \<le> of_char c \<and> (of_char c :: nat) \<le> of_char hi"

definition is_num :: "char \<Rightarrow> bool" where
  "is_num = between (CHR ''0'') (CHR ''9'')"

definition is_small :: "char \<Rightarrow> bool" where
  "is_small = between (CHR ''a'') (CHR ''z'')"

definition is_alpha :: "char \<Rightarrow> bool" where
  "is_alpha c \<longleftrightarrow> is_small c \<or> between (CHR ''A'') (CHR ''Z'') c"

definition is_alnum :: "char \<Rightarrow> bool" where
  "is_alnum c \<longleftrightarrow> is_alpha c \<or> is_num c"

definition is_hex :: "char \<Rightarrow> bool" where
  "is_hex c \<longleftrightarrow> is_num c \<or> between (CHR ''a'') (CHR ''f'') c \<or> between (CHR ''A'') (CHR ''F'') c"

definition is_ascii :: "string \<Rightarrow> bool" where
  "is_ascii s \<longleftrightarrow> list_all (\<lambda>c. (of_char c :: nat) < 128) s"

subsection \<open>Patterns\<close>

type_synonym position = "string \<times> string"

datatype pattern =
    Eps
  | Chr "char \<Rightarrow> bool"
  | Seq pattern pattern
  | Alt pattern pattern
  | Upto nat pattern
  | Star pattern
  | Not_after "char \<Rightarrow> bool"
  | Not_before pattern
  | Before pattern
  | At_end

text \<open>Greedy repetition: as many rounds as possible first.\<close>

fun greedy :: "nat \<Rightarrow> (position \<Rightarrow> position list) \<Rightarrow> position \<Rightarrow> position list" where
  "greedy 0 f x = [x]"
| "greedy (Suc n) f x = concat (map (greedy n f) (f x)) @ [x]"

text \<open>
  An unbounded repetition runs at most once per remaining character; every body it is used on
  consumes at least one. \<^const>\<open>At_end\<close> is \<open>$\<close>: the end, or a newline at the very end.
\<close>

primrec ends :: "pattern \<Rightarrow> position \<Rightarrow> position list" where
  "ends Eps x = [x]"
| "ends (Chr p) x = (case snd x of [] \<Rightarrow> [] | c # cs \<Rightarrow> if p c then [(c # fst x, cs)] else [])"
| "ends (Seq r s) x = concat (map (ends s) (ends r x))"
| "ends (Alt r s) x = ends r x @ ends s x"
| "ends (Upto n r) x = greedy n (ends r) x"
| "ends (Star r) x = greedy (length (snd x)) (ends r) x"
| "ends (Not_after p) x = (case fst x of [] \<Rightarrow> [x] | c # cs \<Rightarrow> if p c then [] else [x])"
| "ends (Not_before r) x = (if ends r x = [] then [x] else [])"
| "ends (Before r) x = (if ends r x = [] then [] else [x])"
| "ends At_end x = (if snd x = [] \<or> snd x = [CHR 0x0A] then [x] else [])"

definition seqs :: "pattern list \<Rightarrow> pattern" where
  "seqs rs = foldr Seq rs Eps"

definition plus :: "pattern \<Rightarrow> pattern" where
  "plus r = Seq r (Star r)"

definition exactly :: "nat \<Rightarrow> pattern \<Rightarrow> pattern" where
  "exactly n r = seqs (replicate n r)"

definition from_to :: "nat \<Rightarrow> nat \<Rightarrow> pattern \<Rightarrow> pattern" where
  "from_to m n r = Seq (exactly m r) (Upto (n - m) r)"

definition lit :: "char \<Rightarrow> pattern" where
  "lit c = Chr (\<lambda>d. d = c)"

definition lits :: "string \<Rightarrow> pattern" where
  "lits s = seqs (map lit s)"

text \<open>\<open>re.match\<close> of a pattern that closes with \<open>$\<close>.\<close>

definition matches :: "pattern \<Rightarrow> string \<Rightarrow> bool" where
  "matches r s \<longleftrightarrow> ends (Seq r At_end) ([], s) \<noteq> []"

text \<open>
  \<open>re.finditer\<close> for a pattern that never matches the empty text: the offset and the text of each
  match, from left to right. The first argument counts the characters of the last match still to
  be passed over; the third is the text before the position, reversed.
\<close>

fun find_all :: "nat \<Rightarrow> pattern \<Rightarrow> string \<Rightarrow> string \<Rightarrow> (nat \<times> string) list" where
  "find_all skip r past [] = []"
| "find_all (Suc skip) r past (c # cs) = find_all skip r (c # past) cs"
| "find_all 0 r past (c # cs) =
     (case ends r (past, c # cs) of
        [] \<Rightarrow> find_all 0 r (c # past) cs
      | (_, after) # _ \<Rightarrow>
          (let n = length (c # cs) - length after in
           (length past, take n (c # cs)) # find_all (n - 1) r (c # past) cs))"

definition finditer :: "pattern \<Rightarrow> string \<Rightarrow> (nat \<times> string) list" where
  "finditer r s = find_all 0 r [] s"

text \<open>\<open>re.sub\<close> with a fixed replacement.\<close>

fun sub_all :: "nat \<Rightarrow> pattern \<Rightarrow> string \<Rightarrow> string \<Rightarrow> string \<Rightarrow> string" where
  "sub_all skip r repl past [] = []"
| "sub_all (Suc skip) r repl past (c # cs) = sub_all skip r repl (c # past) cs"
| "sub_all 0 r repl past (c # cs) =
     (case ends r (past, c # cs) of
        [] \<Rightarrow> c # sub_all 0 r repl (c # past) cs
      | (_, after) # _ \<Rightarrow> repl @ sub_all (length cs - length after) r repl (c # past) cs)"

definition re_sub :: "pattern \<Rightarrow> string \<Rightarrow> string \<Rightarrow> string" where
  "re_sub r repl s = sub_all 0 r repl [] s"

subsection \<open>What a match consumes\<close>

definition steps_over :: "position \<Rightarrow> string \<Rightarrow> position \<Rightarrow> bool" where
  "steps_over x m y \<longleftrightarrow> snd x = m @ snd y \<and> fst y = rev m @ fst x"

lemma steps_over_refl [simp, intro]: "steps_over x [] x"
  by (simp add: steps_over_def)

lemma steps_over_trans [intro]: "steps_over x m y \<Longrightarrow> steps_over y n z \<Longrightarrow> steps_over x (m @ n) z"
  by (simp add: steps_over_def)

lemma greedy_steps:
  "(\<And>x y. y \<in> set (f x) \<Longrightarrow> \<exists>m. steps_over x m y) \<Longrightarrow> y \<in> set (greedy n f x) \<Longrightarrow> \<exists>m. steps_over x m y"
proof (induction n f x rule: greedy.induct)
  case (2 n f x)
  from 2(3) consider "y = x" | z where "z \<in> set (f x)" "y \<in> set (greedy n f z)" by auto
  then show ?case
  proof cases
    case 2
    then show ?thesis
      using "2.IH" [OF 2(1) "2.prems"(1) 2(2)] "2.prems"(1) [OF 2(1)] steps_over_trans by blast
  qed auto
qed auto

lemma ends_steps: "y \<in> set (ends r x) \<Longrightarrow> \<exists>m. steps_over x m y"
proof (induction r arbitrary: x y)
  case (Chr p)
  then show ?case
    by (cases "snd x") (auto simp: steps_over_def split: if_splits)
next
  case (Seq r s)
  then show ?case by simp (meson steps_over_trans)
next
  case (Upto n r)
  show ?case by (rule greedy_steps [OF Upto.IH]) (use Upto.prems in simp_all)
next
  case (Star r)
  show ?case by (rule greedy_steps [OF Star.IH]) (use Star.prems in simp_all)
qed (auto split: list.splits if_splits)

text \<open>Consuming patterns: every match is non-empty.\<close>

primrec consuming :: "pattern \<Rightarrow> bool" where
  "consuming Eps = False"
| "consuming (Chr p) = True"
| "consuming (Seq r s) = (consuming r \<or> consuming s)"
| "consuming (Alt r s) = (consuming r \<and> consuming s)"
| "consuming (Upto n r) = False"
| "consuming (Star r) = False"
| "consuming (Not_after p) = False"
| "consuming (Not_before r) = False"
| "consuming (Before r) = False"
| "consuming At_end = False"

lemma consuming_shorter:
  "consuming r \<Longrightarrow> y \<in> set (ends r x) \<Longrightarrow> length (snd y) < length (snd x)"
proof (induction r arbitrary: x y)
  case (Seq r s)
  then obtain z where z: "z \<in> set (ends r x)" "y \<in> set (ends s z)" by auto
  have "length (snd z) \<le> length (snd x)" "length (snd y) \<le> length (snd z)"
    using ends_steps [OF z(1)] ends_steps [OF z(2)] by (auto simp: steps_over_def)
  with Seq z show ?case by fastforce
qed (auto split: list.splits if_splits)

text \<open>The classes of a pattern bound the characters it consumes.\<close>

primrec over :: "(char \<Rightarrow> bool) \<Rightarrow> pattern \<Rightarrow> bool" where
  "over P Eps = True"
| "over P (Chr p) = (\<forall>c. p c \<longrightarrow> P c)"
| "over P (Seq r s) = (over P r \<and> over P s)"
| "over P (Alt r s) = (over P r \<and> over P s)"
| "over P (Upto n r) = over P r"
| "over P (Star r) = over P r"
| "over P (Not_after p) = True"
| "over P (Not_before r) = True"
| "over P (Before r) = True"
| "over P At_end = True"

definition steps_in :: "(char \<Rightarrow> bool) \<Rightarrow> position \<Rightarrow> position \<Rightarrow> bool" where
  "steps_in P x y \<longleftrightarrow> (\<exists>m. steps_over x m y \<and> list_all P m)"

lemma steps_in_refl [simp, intro]: "steps_in P x x"
  unfolding steps_in_def by (intro exI [of _ "[]"]) simp

lemma steps_in_trans: "steps_in P x y \<Longrightarrow> steps_in P y z \<Longrightarrow> steps_in P x z"
  unfolding steps_in_def by (metis steps_over_trans list_all_append)

lemma greedy_in:
  "(\<And>x y. y \<in> set (f x) \<Longrightarrow> steps_in P x y) \<Longrightarrow> y \<in> set (greedy n f x) \<Longrightarrow> steps_in P x y"
proof (induction n f x rule: greedy.induct)
  case (2 n f x)
  from 2(3) consider "y = x" | z where "z \<in> set (f x)" "y \<in> set (greedy n f z)" by auto
  then show ?case
    using "2.IH" "2.prems"(1) steps_in_trans by cases blast+
qed auto

lemma ends_in: "over P r \<Longrightarrow> y \<in> set (ends r x) \<Longrightarrow> steps_in P x y"
proof (induction r arbitrary: x y)
  case (Chr p)
  then obtain c cs where "snd x = c # cs" "p c" "y = (c # fst x, cs)"
    by (cases "snd x") (auto split: if_splits)
  with Chr have "steps_over x [c] y \<and> list_all P [c]" by (simp add: steps_over_def)
  then show ?case unfolding steps_in_def by blast
next
  case (Seq r s)
  then obtain z where z: "z \<in> set (ends r x)" "y \<in> set (ends s z)" by auto
  from Seq.prems(1) have "over P r" "over P s" by simp_all
  from steps_in_trans [OF Seq.IH(1) [OF this(1) z(1)] Seq.IH(2) [OF this(2) z(2)]] show ?case .
next
  case (Upto n r)
  show ?case by (rule greedy_in [OF Upto.IH]) (use Upto.prems in simp_all)
next
  case (Star r)
  show ?case by (rule greedy_in [OF Star.IH]) (use Star.prems in simp_all)
qed (auto split: list.splits if_splits)

text \<open>So the bound on the rounds of a repetition is no restriction.\<close>

lemma greedy_enough:
  assumes "consuming r" "length (snd x) \<le> n"
  shows "greedy n (ends r) x = greedy (length (snd x)) (ends r) x"
  using assms(2)
proof (induction n arbitrary: x rule: less_induct)
  case (less n)
  show ?case
  proof (cases "n = length (snd x)")
    case False
    then obtain k where n: "n = Suc k" and k: "length (snd x) \<le> k" using less.prems by (cases n) auto
    have tail: "greedy k (ends r) z = greedy (length (snd z)) (ends r) z"
        "length (snd z) \<le> length (snd x) - 1" if "z \<in> set (ends r x)" for z
      using consuming_shorter [OF assms(1) that] less.IH [of k z] k n by auto
    show ?thesis
    proof (cases "length (snd x)")
      case 0
      then have "ends r x = []" using consuming_shorter [OF assms(1), of _ x] by (cases "ends r x") fastforce+
      then show ?thesis by (simp add: n 0)
    next
      case (Suc l)
      have "greedy l (ends r) z = greedy k (ends r) z" if z: "z \<in> set (ends r x)" for z
        using less.IH [of l z] tail [OF z] Suc k n by auto
      then have "map (greedy l (ends r)) (ends r x) = map (greedy k (ends r)) (ends r x)" by simp
      then show ?thesis by (simp only: n Suc greedy.simps)
    qed
  qed simp
qed

subsection \<open>What a search finds\<close>

lemma find_all_found:
  "consuming r \<Longrightarrow> (n, m) \<in> set (find_all skip r past s) \<Longrightarrow>
     length past + skip \<le> n \<and> m \<noteq> [] \<and> take (length m) (drop (n - length past) s) = m
     \<and> n + length m \<le> length past + length s"
proof (induction skip r past s arbitrary: n m rule: find_all.induct)
  case (2 skip r past c cs)
  have "n - length past = Suc (n - Suc (length past))" if "Suc (length past + skip) \<le> n"
    using that by simp
  with 2(1) [of n m] 2(2,3) show ?case by auto
next
  case (3 r past c cs)
  have later: "length past + 0 \<le> n \<and> m \<noteq> [] \<and> take (length m) (drop (n - length past) (c # cs)) = m
      \<and> n + length m \<le> length past + length (c # cs)"
    if "Suc (length past) + k \<le> n \<and> m \<noteq> [] \<and> take (length m) (drop (n - Suc (length past)) cs) = m
      \<and> n + length m \<le> Suc (length past) + length cs" for k
  proof -
    from that have "Suc (length past) \<le> n" by linarith
    then have "n - length past = Suc (n - Suc (length past))" by linarith
    with that show ?thesis by auto
  qed
  show ?case
  proof (cases "ends r (past, c # cs)")
    case Nil
    then have "(n, m) \<in> set (find_all 0 r (c # past) cs)" using 3(4) by simp
    from 3(1) [OF Nil 3(3) this] show ?thesis by (intro later [of 0]) simp
  next
    case (Cons e es)
    obtain b after where e: "e = (b, after)" by (cases e)
    let ?k = "length (c # cs) - length after"
    have short: "length after < length (c # cs)"
      using consuming_shorter [OF 3(3), of e "(past, c # cs)"] by (simp add: Cons e)
    from 3(4) Cons e consider "n = length past" "m = take ?k (c # cs)"
      | "(n, m) \<in> set (find_all (?k - 1) r (c # past) cs)" by (auto simp: Let_def)
    then show ?thesis
    proof cases
      case 1
      with short show ?thesis by (auto simp: min_def)
    next
      case 2
      from 3(2) [OF Cons e [symmetric] refl 3(3) this] show ?thesis by (intro later [of "?k - 1"]) simp
    qed
  qed
qed simp

text \<open>Matches come from left to right and do not overlap.\<close>

lemma find_all_ordered:
  "consuming r \<Longrightarrow> sorted_wrt (\<lambda>(i, m) (j, n). i + length m \<le> j) (find_all skip r past s)"
proof (induction skip r past s rule: find_all.induct)
  case (3 r past c cs)
  show ?case
  proof (cases "ends r (past, c # cs)")
    case (Cons e es)
    obtain b after where e: "e = (b, after)" by (cases e)
    have short: "length after < length (c # cs)"
      using consuming_shorter [OF 3(3), of e "(past, c # cs)"] by (simp add: Cons e)
    have "length past + (length (c # cs) - length after) \<le> j"
      if "(j, n) \<in> set (find_all (length (c # cs) - length after - 1) r (c # past) cs)" for j n
      using find_all_found [OF 3(3) that] short by (simp, linarith)
    with 3(2) [OF Cons e [symmetric] refl 3(3)] short show ?thesis by (auto simp: Cons e Let_def)
  qed (use 3 in simp)
qed auto

lemma finditer_found:
  assumes "consuming r" "(n, m) \<in> set (finditer r s)"
  shows "m \<noteq> []" "take (length m) (drop n s) = m" "n + length m \<le> length s"
  using find_all_found [OF assms(1) assms(2) [unfolded finditer_def]] by auto

end
