(* ===== verification/Ipv4.thy ===== *)
theory Ipv4
  imports Text_Patterns
begin

text \<open>
  IPv4 addresses as CPython's \<open>ipaddress\<close> reads and classifies them (a 32-bit address is an
  integer), and the extraction policy built on them (enrichment/policy.py).
\<close>

subsection \<open>Reading and writing\<close>

text \<open>\<open>s.split(sep)\<close> for a separator of one character.\<close>

fun split_on :: "char \<Rightarrow> string \<Rightarrow> string list" where
  "split_on sep [] = [[]]"
| "split_on sep (c # cs) =
     (if c = sep then [] # split_on sep cs
      else (case split_on sep cs of [] \<Rightarrow> [[c]] | w # ws \<Rightarrow> (c # w) # ws))"

definition decimal :: "string \<Rightarrow> nat" where
  "decimal s = digits_value 10 (map (\<lambda>c. of_char c - 48) s)"

text \<open>An octet: one to three ASCII digits, no leading zero, at most 255.\<close>

definition parse_octet :: "string \<Rightarrow> nat option" where
  "parse_octet s =
     (if s = [] \<or> \<not> list_all is_num s \<or> 3 < length s \<or> (s \<noteq> ''0'' \<and> hd s = CHR ''0'') \<or> 255 < decimal s
      then None else Some (decimal s))"

definition parse_ipv4 :: "string \<Rightarrow> int option" where
  "parse_ipv4 s =
     (case map parse_octet (split_on (CHR ''.'') s) of
        [Some a, Some b, Some c, Some d] \<Rightarrow> Some (((int a * 256 + int b) * 256 + int c) * 256 + int d)
      | _ \<Rightarrow> None)"

definition ipv4_str :: "int \<Rightarrow> string" where
  "ipv4_str n = join ''.'' (map (\<lambda>b. nat_str (nat b)) [n div 16777216 mod 256, n div 65536 mod 256, n div 256 mod 256, n mod 256])"

subsection \<open>Networks\<close>

record ipv4_network =
  nw_address :: int
  nw_prefixlen :: nat

definition netmask_bits :: "nat \<Rightarrow> int" where
  "netmask_bits prefixlen = 2 ^ (32 - prefixlen)"

definition in_network :: "int \<Rightarrow> ipv4_network \<Rightarrow> bool" where
  "in_network a w \<longleftrightarrow> a div netmask_bits (nw_prefixlen w) = nw_address w div netmask_bits (nw_prefixlen w)"

definition net :: "int \<Rightarrow> int \<Rightarrow> int \<Rightarrow> int \<Rightarrow> nat \<Rightarrow> ipv4_network" where
  "net a b c d p = \<lparr>nw_address = ((a * 256 + b) * 256 + c) * 256 + d, nw_prefixlen = p\<rparr>"

definition private_networks :: "ipv4_network list" where
  "private_networks =
     [net 0 0 0 0 8, net 10 0 0 0 8, net 127 0 0 0 8, net 169 254 0 0 16, net 172 16 0 0 12, net 192 0 0 0 24,
      net 192 0 0 170 31, net 192 0 2 0 24, net 192 168 0 0 16, net 198 18 0 0 15, net 198 51 100 0 24,
      net 203 0 113 0 24, net 240 0 0 0 4, net 255 255 255 255 32]"

definition private_exceptions :: "ipv4_network list" where
  "private_exceptions = [net 192 0 0 9 32, net 192 0 0 10 32]"

definition shared_network :: ipv4_network where
  "shared_network = net 100 64 0 0 10"

definition is_private :: "int \<Rightarrow> bool" where
  "is_private a \<longleftrightarrow> list_ex (in_network a) private_networks \<and> \<not> list_ex (in_network a) private_exceptions"

definition is_global :: "int \<Rightarrow> bool" where
  "is_global a \<longleftrightarrow> \<not> in_network a shared_network \<and> \<not> is_private a"

subsection \<open>The extraction policy\<close>

definition documentation_networks :: "ipv4_network list" where
  "documentation_networks =
     [net 192 0 2 0 24, net 198 51 100 0 24, net 203 0 113 0 24, net 192 18 0 0 15, net 198 18 0 0 15]"

record extraction_policy =
  xp_include_private_ipv4 :: bool
  xp_include_documentation_ipv4 :: bool
  xp_include_full_log :: bool
  xp_include_location :: bool
  xp_include_unknown_data_fields :: bool
  xp_max_iocs :: nat

definition default_ioc_policy :: extraction_policy where
  "default_ioc_policy = \<lparr>xp_include_private_ipv4 = False, xp_include_documentation_ipv4 = True,
     xp_include_full_log = False, xp_include_location = False, xp_include_unknown_data_fields = True,
     xp_max_iocs = 200\<rparr>"

definition ipv4_allowed :: "extraction_policy \<Rightarrow> int \<Rightarrow> bool" where
  "ipv4_allowed policy a =
     (if list_ex (in_network a) documentation_networks then xp_include_documentation_ipv4 policy
      else if is_global a then True
      else xp_include_private_ipv4 policy)"

subsection \<open>Lemmas\<close>

lemma split_on_nonempty [simp]: "split_on sep s \<noteq> []"
  by (induction s) (auto split: list.split)

lemma split_on_no_sep: "sep \<notin> set s \<Longrightarrow> split_on sep s = [s]"
  by (induction s) auto

lemma split_on_append: "sep \<notin> set w \<Longrightarrow> split_on sep (w @ sep # s) = w # split_on sep s"
  by (induction w) auto

lemma nat_str_digits: "list_all is_num (nat_str n)" "decimal (nat_str n) = n" "nat_str n \<noteq> []"
proof -
  have char: "is_num (digit_char d) \<and> of_char (digit_char d) - 48 = d" if "d < 10" for d
    using that by (simp add: is_num_def between_def digit_char_def)
  have small: "d < 10" if "d \<in> set (base_digits 10 n)" for d
    using base_digits_less [of 10] that by simp
  show "list_all is_num (nat_str n)"
    unfolding nat_str_def by (simp add: list_all_iff char small)
  have "map (\<lambda>c. of_char c - 48) (nat_str n) = base_digits 10 n"
    unfolding nat_str_def map_map by (rule map_idI) (simp add: char small)
  then show "decimal (nat_str n) = n"
    by (simp add: decimal_def digits_value_base_digits)
  show "nat_str n \<noteq> []" by (simp add: nat_str_def)
qed

lemma base_digits_leading: "0 < n \<Longrightarrow> 0 < hd (base_digits b n)"
proof (induction b n rule: base_digits.induct)
  case (1 b n)
  show ?case
  proof (cases "b < 2 \<or> n < b")
    case True
    with 1(2) show ?thesis by (subst base_digits.simps) simp
  next
    case False
    then have "0 < n div b" by (simp add: div_greater_zero_iff)
    from 1(1) [OF False this] False show ?thesis by (subst base_digits.simps) simp
  qed
qed

lemma nat_str_leading:
  assumes "0 < n"
  shows "hd (nat_str n) \<noteq> CHR ''0''"
proof -
  let ?d = "hd (base_digits 10 n)"
  have "0 < ?d" "?d < 10" using base_digits_leading [OF assms] base_digits_less [of 10 ?d n] by simp_all
  then have "of_char (digit_char ?d) \<noteq> (48 :: nat)" by (simp add: digit_char_def take_bit_eq_mod)
  moreover have "hd (nat_str n) = digit_char ?d" by (simp add: nat_str_def hd_map)
  ultimately show ?thesis by auto
qed

lemma nat_str_length: "n < 1000 \<Longrightarrow> length (nat_str n) \<le> 3"
  unfolding nat_str_def
  by (subst base_digits.simps, simp, subst base_digits.simps, simp, subst base_digits.simps, simp)

lemma octets_written: "n < 256 \<Longrightarrow> parse_octet (nat_str n) = Some n" "CHR ''.'' \<notin> set (nat_str n)"
proof -
  assume "n < 256"
  moreover have "nat_str 0 = ''0''" by code_simp
  ultimately show "parse_octet (nat_str n) = Some n"
    using nat_str_digits [of n] nat_str_length [of n] nat_str_leading [of n]
    by (cases "n = 0") (auto simp: parse_octet_def)
next
  have "\<not> is_num (CHR ''.'')" by code_simp
  then show "CHR ''.'' \<notin> set (nat_str n)" using nat_str_digits(1) [of n] by (auto simp: list_all_iff)
qed

lemma ipv4_octets:
  assumes "0 \<le> n" "n < 2 ^ 32"
  shows "(((n div 16777216 mod 256) * 256 + n div 65536 mod 256) * 256 + n div 256 mod 256) * 256 + n mod 256 = (n::int)"
    and "n div 16777216 < 256" "0 \<le> n div 16777216"
proof -
  show top: "n div 16777216 < 256" "0 \<le> n div 16777216" using assms by simp_all
  have "n div 65536 div 256 = n div 16777216" "n div 256 div 256 = n div 65536"
    by (simp_all add: zdiv_zmult2_eq [symmetric])
  then have "n div 16777216 * 256 + n div 65536 mod 256 = n div 65536" "n div 65536 * 256 + n div 256 mod 256 = n div 256"
    by (metis div_mult_mod_eq)+
  with top show "(((n div 16777216 mod 256) * 256 + n div 65536 mod 256) * 256 + n div 256 mod 256) * 256 + n mod 256 = n"
    by simp
qed

lemma parse_ipv4_octets:
  assumes "a < 256" "b < 256" "c < 256" "d < 256"
  shows "parse_ipv4 (join ''.'' [nat_str a, nat_str b, nat_str c, nat_str d]) =
    Some (((int a * 256 + int b) * 256 + int c) * 256 + int d)"
  using assms by (simp add: parse_ipv4_def split_on_append split_on_no_sep octets_written)

text \<open>An address survives writing and reading.\<close>

lemma parse_ipv4_str:
  assumes "0 \<le> n" "n < 2 ^ 32"
  shows "parse_ipv4 (ipv4_str n) = Some n"
proof -
  have "nat (m mod 256) < 256" "int (nat (m mod 256)) = m mod 256" for m :: int by simp_all
  then show ?thesis
    unfolding ipv4_str_def list.map
    by (subst parse_ipv4_octets) (simp_all only: ipv4_octets(1) [OF assms])
qed

lemma parse_octet_bounded: "parse_octet s = Some n \<Longrightarrow> n < 256"
  by (auto simp: parse_octet_def split: if_splits)

lemma parse_ipv4_bounded:
  assumes "parse_ipv4 s = Some n"
  shows "0 \<le> n" "n < 2 ^ 32"
proof -
  obtain ws a b c d where ws: "map parse_octet ws = [Some a, Some b, Some c, Some d]"
    and n: "n = ((int a * 256 + int b) * 256 + int c) * 256 + int d"
    using assms by (auto simp: parse_ipv4_def split: list.splits option.splits)
  have "x < 256" if "Some x \<in> set (map parse_octet ws)" for x
    using that parse_octet_bounded by auto
  then have "a < 256" "b < 256" "c < 256" "d < 256" by (simp_all add: ws)
  then show "n < 2 ^ 32" unfolding n by simp
  show "0 \<le> n" by (simp add: n)
qed

end
