(* ===== verification/Ioc_Normalize.thy ===== *)
theory Ioc_Normalize
  imports Ipv4 Alert_Model
begin

text \<open>
  Validation and normalization of raw indicator text (enrichment/normalize.py), with the parts of
  \<open>urllib.parse\<close> it calls. Two Unicode services of the standard library are parameters: the IDNA
  encoder (\<open>None\<close> where it raises) and whether the compatibility normal form of a non-ASCII
  authority is free of delimiters.
\<close>

record unicode_services =
  us_idna :: "string \<Rightarrow> string option"
  us_netloc_ok :: "string \<Rightarrow> bool"

subsection \<open>Trimming\<close>

definition is_dot :: "char \<Rightarrow> bool" where
  "is_dot c \<longleftrightarrow> c = CHR ''.''"

text \<open>The characters of \<open>strip("<>\"'`")\<close>.\<close>

definition wrapping :: "char \<Rightarrow> bool" where
  "wrapping c \<longleftrightarrow> c \<in> {CHR ''<'', CHR ''>'', CHR 0x22, CHR 0x27, CHR 0x60}"

subsection \<open>Defanging\<close>

definition opening_mark :: pattern where
  "opening_mark = Chr (\<lambda>c. c \<in> set ''[({'')"

definition closing_mark :: pattern where
  "closing_mark = Chr (\<lambda>c. c \<in> set ''])}'')"

definition defang_mark :: "string \<Rightarrow> pattern" where
  "defang_mark s = seqs [opening_mark, lits s, closing_mark]"

definition caseless :: "char \<Rightarrow> pattern" where
  "caseless c = Chr (\<lambda>d. lower_char d = c)"

text \<open>\<open>^hxxp(s?)(?=://)\<close>, ignoring case: the scheme is rewritten, the rest kept.\<close>

definition defang_scheme :: "string \<Rightarrow> string" where
  "defang_scheme s =
     (if lower (take 4 s) = ''hxxp'' \<and>
         (starts_with ''://'' (drop 4 s) \<or> (lower (take 1 (drop 4 s)) = ''s'' \<and> starts_with ''://'' (drop 5 s)))
      then ''http'' @ drop 4 s else s)"

definition defang_to_plain :: "string \<Rightarrow> string" where
  "defang_to_plain value =
     defang_scheme
       (re_sub (defang_mark ''//'') ''//''
       (re_sub (defang_mark ''@'') ''@''
       (re_sub (defang_mark '':'') '':''
       (re_sub (defang_mark ''.'') ''.'' value))))"

text \<open>\<open>defang_to_plain(raw.strip()).strip("<>\"'`").strip()\<close>.\<close>

definition plain_text :: "string \<Rightarrow> string" where
  "plain_text raw = strip (strip_of wrapping (defang_to_plain (strip raw)))"

subsection \<open>IPv4\<close>

definition normalize_ipv4 :: "extraction_policy \<Rightarrow> string \<Rightarrow> string option" where
  "normalize_ipv4 policy raw =
     (let t = strip (rstrip_of is_dot (strip raw)) in
      if t = [] then None
      else (case parse_ipv4 t of
          None \<Rightarrow> None
        | Some a \<Rightarrow> if ipv4_allowed policy a then Some (ipv4_str a) else None))"

subsection \<open>Domains\<close>

definition label_char :: "char \<Rightarrow> bool" where
  "label_char c \<longleftrightarrow> is_small c \<or> is_num c"

definition domain_label :: pattern where
  "domain_label = Seq (Chr label_char)
     (Upto 1 (Seq (Upto 61 (Chr (\<lambda>c. label_char c \<or> c = CHR ''-''))) (Chr label_char)))"

definition domain_pattern :: pattern where
  "domain_pattern = seqs
     [Before (Seq (from_to 1 253 (Chr (\<lambda>c. c \<noteq> CHR 0x0A))) At_end),
      plus (Seq domain_label (lit (CHR ''.''))),
      from_to 2 63 (Chr is_small)]"

definition max_domain_length :: nat where
  "max_domain_length = 253"

definition as_ascii_domain :: "unicode_services \<Rightarrow> string \<Rightarrow> string option" where
  "as_ascii_domain u host = (if is_ascii host then Some host else us_idna u host)"

definition normalize_domain :: "unicode_services \<Rightarrow> string \<Rightarrow> string option" where
  "normalize_domain u raw =
     (let t = rstrip_of is_dot (plain_text raw) in
      if t = [] \<or> CHR ''.'' \<notin> set t then None
      else (case as_ascii_domain u t of
          None \<Rightarrow> None
        | Some candidate \<Rightarrow>
            (let c = lower candidate in
             if max_domain_length < length c \<or> \<not> matches domain_pattern c then None else Some c)))"

subsection \<open>Splitting URLs\<close>

definition scheme_char :: "char \<Rightarrow> bool" where
  "scheme_char c \<longleftrightarrow> is_alnum c \<or> c \<in> set ''+-.''"

definition authority_char :: "char \<Rightarrow> bool" where
  "authority_char c \<longleftrightarrow> c \<notin> set ''/?#''"

definition before_first :: "char \<Rightarrow> string \<Rightarrow> string" where
  "before_first c s = takeWhile (\<lambda>d. d \<noteq> c) s"

definition after_first :: "char \<Rightarrow> string \<Rightarrow> string" where
  "after_first c s = drop 1 (dropWhile (\<lambda>d. d \<noteq> c) s)"

text \<open>\<open>s.rpartition(c)[2]\<close>.\<close>

definition after_last :: "char \<Rightarrow> string \<Rightarrow> string" where
  "after_last c s = rev (takeWhile (\<lambda>d. d \<noteq> c) (rev s))"

record url_parts =
  up_scheme :: string
  up_netloc :: string
  up_path :: string
  up_query :: string

text \<open>The host and the port text of an authority (\<open>_hostinfo\<close>).\<close>

definition host_info :: "string \<Rightarrow> string \<times> string" where
  "host_info netloc =
     (let h = after_last (CHR ''@'') netloc in
      if CHR ''['' \<in> set h then
        (let bracketed = after_first (CHR ''['') h in
         (before_first (CHR '']'') bracketed, after_first (CHR '':'') (after_first (CHR '']'') bracketed)))
      else (before_first (CHR '':'') h, after_first (CHR '':'') h))"

text \<open>
  \<open>_check_bracketed_netloc\<close>. A bracketed host that is not an IPvFuture literal must be an IPv6
  address; it is treated as refused, which makes no difference to \<open>normalize_url\<close>, which accepts
  no IPv6 host.
\<close>

definition ipvfuture :: "string \<Rightarrow> bool" where
  "ipvfuture h \<longleftrightarrow>
     (case h of
        c # cs \<Rightarrow> c = CHR ''v'' \<and> takeWhile is_hex cs \<noteq> [] \<and> starts_with ''.'' (dropWhile is_hex cs)
          \<and> tl (dropWhile is_hex cs) \<noteq> []
      | [] \<Rightarrow> False)"

definition brackets_ok :: "string \<Rightarrow> bool" where
  "brackets_ok netloc \<longleftrightarrow>
     (if CHR ''['' \<in> set netloc \<and> CHR '']'' \<in> set netloc then
        (let h = after_last (CHR ''@'') netloc in
         if CHR ''['' \<in> set h then
           before_first (CHR ''['') h = []
           \<and> (let port = after_first (CHR '']'') (after_first (CHR ''['') h) in port = [] \<or> hd port = CHR '':'')
           \<and> ipvfuture (fst (host_info netloc))
         else ipvfuture (fst (host_info netloc)))
      else CHR ''['' \<notin> set netloc \<and> CHR '']'' \<notin> set netloc)"

definition c0_or_space :: "char \<Rightarrow> bool" where
  "c0_or_space c \<longleftrightarrow> (of_char c :: nat) \<le> 32"

definition url_unsafe :: "char \<Rightarrow> bool" where
  "url_unsafe c \<longleftrightarrow> c \<in> {CHR 0x09, CHR 0x0A, CHR 0x0D}"

definition split_scheme :: "string \<Rightarrow> string \<times> string" where
  "split_scheme url =
     (let s = before_first (CHR '':'') url in
      if CHR '':'' \<in> set url \<and> s \<noteq> [] \<and> is_alpha (hd s) \<and> list_all scheme_char s
      then (lower s, after_first (CHR '':'') url) else ([], url))"

definition split_authority :: "string \<Rightarrow> string \<times> string" where
  "split_authority url =
     (if starts_with ''//'' url
      then (takeWhile authority_char (drop 2 url), dropWhile authority_char (drop 2 url)) else ([], url))"

text \<open>\<open>None\<close> where \<open>urlsplit\<close> raises \<open>ValueError\<close>.\<close>

definition urlsplit :: "unicode_services \<Rightarrow> string \<Rightarrow> url_parts option" where
  "urlsplit u raw =
     (let (scheme, url) = split_scheme (filter (\<lambda>c. \<not> url_unsafe c) (dropWhile c0_or_space raw));
          (netloc, url) = split_authority url;
          url = before_first (CHR ''#'') url in
      if \<not> brackets_ok netloc \<or> (\<not> is_ascii netloc \<and> \<not> us_netloc_ok u netloc) then None
      else Some \<lparr>up_scheme = scheme, up_netloc = netloc, up_path = before_first (CHR ''?'') url,
        up_query = after_first (CHR ''?'') url\<rparr>)"

text \<open>The properties \<open>hostname\<close> (lowercased up to a zone id) and \<open>port\<close> (which may raise).\<close>

definition url_hostname :: "url_parts \<Rightarrow> string" where
  "url_hostname p =
     (let h = fst (host_info (up_netloc p)) in
      lower (takeWhile (\<lambda>c. c \<noteq> CHR ''%'') h) @ dropWhile (\<lambda>c. c \<noteq> CHR ''%'') h)"

definition url_port :: "url_parts \<Rightarrow> nat option option" where
  "url_port p =
     (let t = snd (host_info (up_netloc p)) in
      if t = [] then Some None
      else if list_all is_num t \<and> length t \<le> 4300 \<and> decimal t \<le> 65535 then Some (Some (decimal t))
      else None)"

definition urlunsplit :: "string \<Rightarrow> string \<Rightarrow> string \<Rightarrow> string \<Rightarrow> string" where
  "urlunsplit scheme netloc path query =
     (let url = ''//'' @ netloc @ (if path \<noteq> [] \<and> hd path \<noteq> CHR ''/'' then ''/'' @ path else path);
          url = scheme @ '':'' @ url in
      if query = [] then url else url @ ''?'' @ query)"

subsection \<open>URLs\<close>

definition allowed_schemes :: "string set" where
  "allowed_schemes = {''http'', ''https'', ''ftp''}"

definition default_ports :: "(string, nat) dict" where
  "default_ports = [(''http'', 80), (''https'', 443), (''ftp'', 21)]"

definition normalize_url :: "unicode_services \<Rightarrow> string \<Rightarrow> string option" where
  "normalize_url u raw =
     (let t = plain_text raw in
      if t = [] then None
      else (case urlsplit u t of
          None \<Rightarrow> None
        | Some parts \<Rightarrow>
            (case url_port parts of
               None \<Rightarrow> None
             | Some port \<Rightarrow>
                 (let host = url_hostname parts; scheme = lower (up_scheme parts) in
                  if scheme \<notin> allowed_schemes \<or> host = [] then None
                  else
                    (let candidate = rstrip_of is_dot (lower host);
                         netloc = (if matches domain_pattern candidate then Some candidate
                           else map_option ipv4_str (parse_ipv4 host)) in
                     case netloc of
                       None \<Rightarrow> None
                     | Some n \<Rightarrow>
                         (let n = (case port of
                              None \<Rightarrow> n
                            | Some k \<Rightarrow> if map_of default_ports scheme = Some k then n else n @ '':'' @ nat_str k) in
                          Some (urlunsplit scheme n (if up_path parts = [] then ''/'' else up_path parts)
                            (up_query parts))))))))"

text \<open>
  \<open>strip_url_userinfo\<close>: the authority regex needs the rest of the text to hold no newline (its dot
  matches none); the result keeps everything but the userinfo.
\<close>

definition strip_url_userinfo :: "string \<Rightarrow> string" where
  "strip_url_userinfo raw =
     (let t = plain_text raw;
          scheme = takeWhile scheme_char t; rest = dropWhile scheme_char t;
          authority = takeWhile authority_char (drop 3 rest); suffix = dropWhile authority_char (drop 3 rest) in
      if scheme = [] \<or> \<not> is_alpha (hd scheme) \<or> \<not> starts_with ''://'' rest \<or> CHR 0x0A \<in> set suffix
         \<or> CHR ''@'' \<notin> set authority
      then raw
      else scheme @ ''://'' @ after_last (CHR ''@'') authority @ suffix)"

subsection \<open>Hashes and email addresses\<close>

definition hash_type_for :: "string \<Rightarrow> ioc_type option" where
  "hash_type_for raw =
     (let t = strip raw in
      if t = [] \<or> \<not> list_all is_hex t then None
      else map_of (map (\<lambda>(k, n). (n, k)) hash_lengths) (length t))"

definition normalize_hash :: "ioc_type option \<Rightarrow> string \<Rightarrow> string option" where
  "normalize_hash expected raw =
     (let t = strip raw in
      case hash_type_for t of
        None \<Rightarrow> None
      | Some found \<Rightarrow> if expected \<noteq> None \<and> expected \<noteq> Some found then None else Some (lower t))"

definition email_atom :: "char \<Rightarrow> bool" where
  "email_atom c \<longleftrightarrow> is_alnum c \<or> c \<in> set ''!#$%&*+/=?^_{|}~-'' \<or> c \<in> {CHR 0x27, CHR 0x60}"

definition email_local_pattern :: pattern where
  "email_local_pattern = Seq (plus (Chr email_atom)) (Star (Seq (lit (CHR ''.'')) (plus (Chr email_atom))))"

definition normalize_email :: "unicode_services \<Rightarrow> string \<Rightarrow> string option" where
  "normalize_email u raw =
     (let t = plain_text raw;
          local = before_first (CHR ''@'') t; domain = after_first (CHR ''@'') t in
      if length (filter (\<lambda>c. c = CHR ''@'') t) \<noteq> 1 then None
      else if local = [] \<or> starts_with ''.'' local \<or> starts_with ''.'' (rev local)
        \<or> list_ex (\<lambda>(a, b). is_dot a \<and> is_dot b) (zip local (tl local)) then None
      else if \<not> matches email_local_pattern local then None
      else map_option (\<lambda>d. local @ ''@'' @ d) (normalize_domain u domain))"

end
