(* ===== verification/Ioc_Extractor.thy ===== *)
theory Ioc_Extractor
  imports Ioc_Normalize
begin

text \<open>
  Indicator extraction from canonical alerts (enrichment/extractor.py): typed fields whose whole
  value must be an indicator, and a pattern scan of the other text leaves. Offsets inside a scan
  count bytes; the offset recorded in the provenance counts code points, as Python does. The class
  \<open>\\s\<close> is the ASCII white space.
\<close>

subsection \<open>Patterns\<close>

definition defanged_dot :: pattern where
  "defanged_dot = Alt (lit (CHR ''.'')) (Alt (lits ''[.]'') (Alt (lits ''(.)'') (lits ''{.}'')))"

definition host_label :: pattern where
  "host_label = Seq (Chr is_alnum) (Upto 1 (Seq (Upto 61 (Chr (\<lambda>c. is_alnum c \<or> c = CHR ''-''))) (Chr is_alnum)))"

definition hash_re :: pattern where
  "hash_re = seqs
     [Not_after is_alnum,
      Alt (exactly 64 (Chr is_hex)) (Alt (exactly 40 (Chr is_hex)) (exactly 32 (Chr is_hex))),
      Not_before (Chr is_alnum)]"

definition octet_re :: pattern where
  "octet_re = Alt (seqs [lits ''25'', Chr (between (CHR ''0'') (CHR ''5''))])
     (Alt (seqs [lit (CHR ''2''), Chr (between (CHR ''0'') (CHR ''4'')), Chr is_num])
     (Alt (seqs [lit (CHR ''1''), Chr is_num, Chr is_num])
        (Seq (Upto 1 (Chr (between (CHR ''1'') (CHR ''9'')))) (Chr is_num))))"

definition ipv4_re :: pattern where
  "ipv4_re = seqs
     [Not_after (\<lambda>c. is_alnum c \<or> c \<in> set ''._-''),
      octet_re, defanged_dot, octet_re, defanged_dot, octet_re, defanged_dot, octet_re,
      Not_before (Alt (Chr (\<lambda>c. is_alnum c \<or> c \<in> set ''_-'')) (Seq (lit (CHR ''.'')) (Chr is_alnum)))]"

definition host_re :: pattern where
  "host_re = seqs
     [plus (Seq host_label defanged_dot), from_to 2 63 (Chr is_alpha),
      Not_before (Chr (\<lambda>c. is_alnum c \<or> c = CHR ''_''))]"

definition domain_re :: pattern where
  "domain_re = Seq (Not_after (\<lambda>c. is_alnum c \<or> c \<in> set ''._-'')) host_re"

definition caseless_lits :: "string \<Rightarrow> pattern" where
  "caseless_lits s = seqs (map caseless s)"

definition url_char :: "char \<Rightarrow> bool" where
  "url_char c \<longleftrightarrow> \<not> ascii_ws c \<and> c \<notin> {CHR ''<'', CHR ''>'', CHR 0x22, CHR 0x27}"

definition url_re :: pattern where
  "url_re = seqs
     [Not_after (\<lambda>c. is_alnum c \<or> c \<in> set ''+.-''),
      Alt (Seq (caseless_lits ''http'') (Upto 1 (caseless (CHR ''s''))))
        (Alt (caseless_lits ''ftp'') (Seq (caseless_lits ''hxxp'') (Upto 1 (caseless (CHR ''s''))))),
      lits ''://'',
      plus (Chr url_char)]"

definition email_re :: pattern where
  "email_re = seqs
     [Not_after (\<lambda>c. is_alnum c \<or> c \<in> set ''._%+-''), email_local_pattern, lit (CHR ''@''), host_re]"

definition leading_punctuation :: "char \<Rightarrow> bool" where
  "leading_punctuation c \<longleftrightarrow> c \<in> set ''(<[{'' \<union> {CHR 0x27, CHR 0x22}"

definition trailing_punctuation :: "char \<Rightarrow> bool" where
  "trailing_punctuation c \<longleftrightarrow> c \<in> set ''.,;:!?)]}>'' \<union> {CHR 0x27, CHR 0x22}"

subsection \<open>Fields\<close>

definition typed_fields :: "(string \<times> ioc_type) list" where
  "typed_fields =
     [(''source_event.agent.ip'', IPV4),
      (''source_event.data.srcip'', IPV4),
      (''source_event.data.dstip'', IPV4),
      (''source_event.data.srcuser'', EMAIL),
      (''source_event.data.dstuser'', EMAIL),
      (''source_event.data.hostname'', DOMAIN),
      (''source_event.data.url'', URL),
      (''source_event.data.virustotal.md5'', MD5),
      (''source_event.data.virustotal.sha1'', SHA1),
      (''source_event.data.virustotal.sha256'', SHA256),
      (''source_event.data.virustotal.permalink'', URL),
      (''source_event.syscheck.md5_before'', MD5),
      (''source_event.syscheck.md5_after'', MD5),
      (''source_event.syscheck.sha1_before'', SHA1),
      (''source_event.syscheck.sha1_after'', SHA1),
      (''source_event.syscheck.sha256_before'', SHA256),
      (''source_event.syscheck.sha256_after'', SHA256)]"

definition optional_scan_fields :: "(string \<times> (extraction_policy \<Rightarrow> bool)) list" where
  "optional_scan_fields =
     [(''source_event.full_log'', xp_include_full_log), (''source_event.location'', xp_include_location)]"

definition auto_scan_roots :: "string list" where
  "auto_scan_roots = [''source_event.data'', ''source_event.syscheck'']"

text \<open>The source event as the attribute and key lookups of \<open>_resolve\<close> see it.\<close>

definition opt_str :: "string option \<Rightarrow> json" where
  "opt_str s = (case s of None \<Rightarrow> JNull | Some t \<Rightarrow> JStr t)"

definition alert_view :: "canonical_alert \<Rightarrow> json" where
  "alert_view a =
     (let e = c_source_event a; g = se_agent e in
      JObj [(''source_event'', JObj
        [(''agent'', JObj [(''id'', JStr (agent_id g)), (''name'', JStr (agent_name g)), (''ip'', opt_str (agent_ip g))]),
         (''location'', opt_str (se_location e)),
         (''full_log'', opt_str (se_full_log e)),
         (''data'', JObj (se_data e)),
         (''syscheck'', JObj (se_syscheck e))])])"

fun resolve_in :: "json \<Rightarrow> string list \<Rightarrow> json" where
  "resolve_in node [] = node"
| "resolve_in (JObj kvs) (p # ps) = resolve_in (dict_get kvs p) ps"
| "resolve_in node (p # ps) = JNull"

definition resolve_path :: "canonical_alert \<Rightarrow> string \<Rightarrow> json" where
  "resolve_path alert path = resolve_in (alert_view alert) (split_on (CHR ''.'') path)"

fun string_leaves :: "string \<Rightarrow> json \<Rightarrow> (string \<times> string) list" where
  "string_leaves prefix (JStr s) = [(prefix, s)]"
| "string_leaves prefix (JObj kvs) =
     concat (map (\<lambda>(k, v). string_leaves (prefix @ ''.'' @ k) v) (sort_key fst kvs))"
| "string_leaves prefix _ = []"

subsection \<open>Scanning text\<close>

type_synonym candidate = "ioc_type \<times> string \<times> ioc_provenance"
type_synonym span = "nat \<times> nat"

definition clean_match :: "string \<Rightarrow> string" where
  "clean_match raw = rstrip_of trailing_punctuation (dropWhile leading_punctuation (strip raw))"

text \<open>The authority of each URL, and its part before the last \<open>@\<close>.\<close>

definition authority_span :: "nat \<times> string \<Rightarrow> span" where
  "authority_span = (\<lambda>(start, raw).
     let rest = dropWhile (\<lambda>c. c \<noteq> CHR '':'') raw; first = start + (length raw - length rest) + 3 in
     (first, first + length (takeWhile authority_char (drop 3 rest))))"

definition userinfo_span :: "nat \<times> string \<Rightarrow> span option" where
  "userinfo_span = (\<lambda>(start, raw).
     let rest = dropWhile (\<lambda>c. c \<noteq> CHR '':'') raw; authority = takeWhile authority_char (drop 3 rest);
         first = fst (authority_span (start, raw)) in
     if CHR ''@'' \<in> set authority
     then Some (first, first + (length authority - length (after_last (CHR ''@'') authority) - 1)) else None)"

definition within :: "span list \<Rightarrow> nat \<Rightarrow> bool" where
  "within spans offset = list_ex (\<lambda>(s, e). s \<le> offset \<and> offset < e) spans"

definition overlaps :: "span list \<Rightarrow> nat \<Rightarrow> nat \<Rightarrow> bool" where
  "overlaps spans start stop = list_ex (\<lambda>(s, e). s < stop \<and> start < e) spans"

text \<open>\<open>previous in "/\\"\<close> holds of the empty text at the beginning as well.\<close>

definition domain_boundary_ok :: "string \<Rightarrow> nat \<Rightarrow> nat \<Rightarrow> bool" where
  "domain_boundary_ok text start stop =
     (let previous = (if 0 < start then [text ! (start - 1)] else []);
          following = (if stop < length text then [text ! stop] else []) in
      if previous \<in> {[], ''/'', [CHR 0x5C]} \<and> \<not> (2 \<le> start \<and> text ! (start - 2) = CHR ''/'') then False
      else following \<noteq> [CHR 0x5C])"

definition scanned :: "string \<Rightarrow> string option \<Rightarrow> string \<Rightarrow> ioc_type \<Rightarrow> string \<Rightarrow> string \<Rightarrow> nat \<Rightarrow> candidate" where
  "scanned field location text kind raw value start =
     (kind, value, \<lparr>p_field = field, p_extractor = ''text_scan'', p_raw_value = raw,
        p_offset = Some (utf8_length (take start text)), p_location = location\<rparr>)"

definition scan_urls :: "unicode_services \<Rightarrow> string \<Rightarrow> string option \<Rightarrow> string \<Rightarrow> candidate list" where
  "scan_urls u field location text =
     List.map_filter (\<lambda>(start, raw).
       case normalize_url u (clean_match raw) of
         None \<Rightarrow> None | Some v \<Rightarrow> Some (scanned field location text URL v v start)) (finditer url_re text)"

definition scan_emails :: "unicode_services \<Rightarrow> string \<Rightarrow> string option \<Rightarrow> string \<Rightarrow> candidate list" where
  "scan_emails u field location text =
     (let spans = map authority_span (finditer url_re text) in
      List.map_filter (\<lambda>(start, raw).
        if overlaps spans start (start + length raw) then None
        else (case normalize_email u (clean_match raw) of
            None \<Rightarrow> None | Some v \<Rightarrow> Some (scanned field location text EMAIL raw v start))) (finditer email_re text))"

definition scan_domains :: "unicode_services \<Rightarrow> string \<Rightarrow> string option \<Rightarrow> string \<Rightarrow> candidate list" where
  "scan_domains u field location text =
     (let spans = List.map_filter userinfo_span (finditer url_re text) in
      List.map_filter (\<lambda>(start, raw).
        if within spans start \<or> \<not> domain_boundary_ok text start (start + length raw) then None
        else (case normalize_domain u (clean_match raw) of
            None \<Rightarrow> None | Some v \<Rightarrow> Some (scanned field location text DOMAIN raw v start))) (finditer domain_re text))"

definition scan_ipv4s :: "extraction_policy \<Rightarrow> string \<Rightarrow> string option \<Rightarrow> string \<Rightarrow> candidate list" where
  "scan_ipv4s policy field location text =
     List.map_filter (\<lambda>(start, raw).
       case normalize_ipv4 policy (clean_match raw) of
         None \<Rightarrow> None | Some v \<Rightarrow> Some (scanned field location text IPV4 raw v start)) (finditer ipv4_re text)"

definition scan_hashes :: "string \<Rightarrow> string option \<Rightarrow> string \<Rightarrow> candidate list" where
  "scan_hashes field location text =
     List.map_filter (\<lambda>(start, raw).
       case hash_type_for (clean_match raw) of
         None \<Rightarrow> None
       | Some kind \<Rightarrow>
           (case normalize_hash (Some kind) (clean_match raw) of
              None \<Rightarrow> None | Some v \<Rightarrow> Some (scanned field location text kind raw v start))) (finditer hash_re text)"

definition scan_text :: "unicode_services \<Rightarrow> extraction_policy \<Rightarrow> string \<Rightarrow> string option \<Rightarrow> string \<Rightarrow> candidate list" where
  "scan_text u policy field location text =
     scan_urls u field location text @ scan_emails u field location text @ scan_domains u field location text
     @ scan_ipv4s policy field location text @ scan_hashes field location text"

subsection \<open>Typed fields\<close>

definition scan_typed_field :: "unicode_services \<Rightarrow> extraction_policy \<Rightarrow> ioc_type \<Rightarrow> string \<Rightarrow> string option" where
  "scan_typed_field u policy kind value =
     (let t = strip value in
      if t = [] then None
      else (case kind of
          IPV4 \<Rightarrow> normalize_ipv4 policy t
        | DOMAIN \<Rightarrow> normalize_domain u t
        | URL \<Rightarrow> normalize_url u t
        | EMAIL \<Rightarrow> normalize_email u t
        | _ \<Rightarrow> normalize_hash (Some kind) t))"

definition typed_candidate :: "unicode_services \<Rightarrow> extraction_policy \<Rightarrow> canonical_alert \<Rightarrow> string \<times> ioc_type \<Rightarrow> candidate option" where
  "typed_candidate u policy alert = (\<lambda>(path, kind).
     case resolve_path alert path of
       JStr value \<Rightarrow>
         (case scan_typed_field u policy kind value of
            None \<Rightarrow> None
          | Some v \<Rightarrow> Some (kind, v, \<lparr>p_field = path, p_extractor = ''typed_field'',
              p_raw_value = (if kind = URL then v else value), p_offset = None,
              p_location = se_location (c_source_event alert)\<rparr>))
     | _ \<Rightarrow> None)"

subsection \<open>Merging\<close>

definition provenance_sort_key :: "ioc_provenance \<Rightarrow> string \<times> int \<times> string \<times> string \<times> string" where
  "provenance_sort_key p =
     (p_field p, (case p_offset p of None \<Rightarrow> -1 | Some n \<Rightarrow> int n), p_raw_value p, p_extractor p,
      (case p_location p of None \<Rightarrow> [] | Some l \<Rightarrow> l))"

fun add_candidate :: "candidate \<Rightarrow> (ioc_type \<times> string, ioc_provenance list) dict
    \<Rightarrow> (ioc_type \<times> string, ioc_provenance list) dict" where
  "add_candidate (kind, value, p) merged =
     (let ps = (case map_of merged (kind, value) of None \<Rightarrow> [] | Some ps \<Rightarrow> ps) in
      AList.update (kind, value) (if p \<in> set ps then ps else ps @ [p]) merged)"

definition merged_ioc :: "(ioc_type \<times> string) \<times> ioc_provenance list \<Rightarrow> ioc" where
  "merged_ioc = (\<lambda>((kind, value), ps). \<lparr>i_type = kind, i_value = value,
     i_provenance = sort_key provenance_sort_key ps, i_enrichment = []\<rparr>)"

definition merge_candidates :: "extraction_policy \<Rightarrow> candidate list \<Rightarrow> ioc list" where
  "merge_candidates policy cs =
     take (xp_max_iocs policy) (sort_key ioc_sort_key (map merged_ioc (fold add_candidate cs [])))"

definition extract_iocs_from_text :: "unicode_services \<Rightarrow> extraction_policy \<Rightarrow> string \<Rightarrow> string option \<Rightarrow> string \<Rightarrow> ioc list" where
  "extract_iocs_from_text u policy field location text =
     (if text = [] then [] else merge_candidates policy (scan_text u policy field location text))"

definition auto_candidates :: "unicode_services \<Rightarrow> extraction_policy \<Rightarrow> canonical_alert \<Rightarrow> candidate list" where
  "auto_candidates u policy alert =
     concat (map (\<lambda>root. concat (map (\<lambda>(path, value).
         if path \<in> fst ` set typed_fields then []
         else scan_text u policy path (se_location (c_source_event alert)) value)
       (string_leaves root (resolve_path alert root)))) auto_scan_roots)"

definition optional_candidates :: "unicode_services \<Rightarrow> extraction_policy \<Rightarrow> canonical_alert \<Rightarrow> candidate list" where
  "optional_candidates u policy alert =
     concat (map (\<lambda>(path, flag).
       if \<not> flag policy then []
       else (case resolve_path alert path of
           JStr value \<Rightarrow> scan_text u policy path (se_location (c_source_event alert)) value
         | _ \<Rightarrow> [])) optional_scan_fields)"

definition extract_iocs :: "unicode_services \<Rightarrow> extraction_policy \<Rightarrow> canonical_alert \<Rightarrow> ioc list" where
  "extract_iocs u policy alert =
     merge_candidates policy
       (List.map_filter (typed_candidate u policy alert) typed_fields
        @ (if xp_include_unknown_data_fields policy then auto_candidates u policy alert else [])
        @ optional_candidates u policy alert)"

end
