(* ===== verification/Extraction_Facts.thy ===== *)
theory Extraction_Facts
  imports Ioc_Extractor
begin

text \<open>
  What extraction guarantees: an ordered, bounded, duplicate-free list of well-formed indicators,
  URLs without credentials; and the texts on which it does not do what its comments say.
\<close>

subsection \<open>Merging\<close>

definition candidates_of :: "(ioc_type \<times> string, ioc_provenance list) dict \<Rightarrow> candidate set" where
  "candidates_of merged = {(k, v, p). \<exists>ps. ((k, v), ps) \<in> set merged \<and> p \<in> set ps}"

definition merged_ok :: "(ioc_type \<times> string, ioc_provenance list) dict \<Rightarrow> bool" where
  "merged_ok merged \<longleftrightarrow> distinct (map fst merged) \<and> (\<forall>(k, ps) \<in> set merged. ps \<noteq> [] \<and> distinct ps)"

lemma add_candidate_ok:
  assumes "merged_ok m"
  shows "merged_ok (add_candidate c m) \<and> candidates_of (add_candidate c m) = insert c (candidates_of m)"
proof -
  obtain k v p where c: "c = (k, v, p)" by (cases c)
  define ps where "ps = (case map_of m (k, v) of None \<Rightarrow> [] | Some ps \<Rightarrow> ps)"
  define ps' where "ps' = (if p \<in> set ps then ps else ps @ [p])"
  have step: "add_candidate c m = AList.update (k, v) ps' m"
    unfolding c add_candidate.simps Let_def ps_def ps'_def ..
  have d: "distinct (map fst m)" using assms by (simp add: merged_ok_def)
  have entries: "set (add_candidate c m) = insert ((k, v), ps') {(i, r) \<in> set m. i \<noteq> (k, v)}"
    unfolding step by (rule set_AList_update [OF d])
  have old: "ps = qs" if "((k, v), qs) \<in> set m" for qs
    using that d by (simp add: ps_def)
  have none: "ps = []" if "\<And>qs. ((k, v), qs) \<notin> set m"
    using that by (auto simp: ps_def split: option.split dest: map_of_SomeD)
  have ps: "distinct ps"
    using assms old none unfolding merged_ok_def by (cases "\<exists>qs. ((k, v), qs) \<in> set m") fastforce+
  have "merged_ok (add_candidate c m)"
    using assms ps unfolding merged_ok_def entries
    by (auto simp: step ps'_def distinct_update)
  moreover have mem: "x \<in> set ps \<longleftrightarrow> (k, v, x) \<in> candidates_of m" for x
  proof (cases "\<exists>qs. ((k, v), qs) \<in> set m")
    case True
    then show ?thesis using old unfolding candidates_of_def by blast
  next
    case False
    then show ?thesis using none by (auto simp: candidates_of_def)
  qed
  have new: "(a, b, x) \<in> candidates_of (add_candidate c m) \<longleftrightarrow>
      (if (a, b) = (k, v) then x \<in> set ps' else (a, b, x) \<in> candidates_of m)" for a b x
    unfolding candidates_of_def entries by auto
  have "candidates_of (add_candidate c m) = insert c (candidates_of m)"
  proof (rule set_eqI)
    fix x :: candidate
    obtain a b y where x: "x = (a, b, y)" by (cases x)
    show "x \<in> candidates_of (add_candidate c m) \<longleftrightarrow> x \<in> insert c (candidates_of m)"
      unfolding x new using mem [of y] by (auto simp: c ps'_def)
  qed
  ultimately show ?thesis ..
qed

lemma fold_candidates:
  "merged_ok m \<Longrightarrow> merged_ok (fold add_candidate cs m)
     \<and> candidates_of (fold add_candidate cs m) = candidates_of m \<union> set cs"
proof (induction cs arbitrary: m)
  case (Cons c cs)
  from Cons.IH [of "add_candidate c m"] add_candidate_ok [OF Cons.prems, of c] show ?case by simp
qed simp

lemma merged_start: "merged_ok []" "candidates_of [] = {}"
  by (simp_all add: merged_ok_def candidates_of_def)

lemma merge_candidates_facts:
  fixes policy cs
  defines "iocs \<equiv> merge_candidates policy cs"
  shows "sorted (map ioc_sort_key iocs)" "distinct (map ioc_key iocs)" "length iocs \<le> xp_max_iocs policy"
    and "i \<in> set iocs \<Longrightarrow> i_enrichment i = [] \<and> i_provenance i \<noteq> [] \<and> distinct (i_provenance i)
      \<and> sorted (map provenance_sort_key (i_provenance i))
      \<and> (\<forall>p \<in> set (i_provenance i). (i_type i, i_value i, p) \<in> set cs)"
proof -
  let ?m = "fold add_candidate cs []" and ?all = "map merged_ioc (fold add_candidate cs [])"
  have m: "merged_ok ?m" "candidates_of ?m = set cs"
    using fold_candidates [OF merged_start(1), of cs] by (simp_all add: merged_start(2))
  have iocs: "iocs = take (xp_max_iocs policy) (sort_key ioc_sort_key ?all)"
    by (simp add: iocs_def merge_candidates_def)
  show "length iocs \<le> xp_max_iocs policy" by (simp add: iocs)
  show "sorted (map ioc_sort_key iocs)" by (simp add: iocs take_map [symmetric] sorted_wrt_take)
  have key: "ioc_key (merged_ioc x) = ioc_key (merged_ioc y) \<longleftrightarrow> fst x = fst y" for x y
    by (cases x; cases y) (auto simp: ioc_key_eq_iff merged_ioc_def)
  have "inj_on (ioc_key \<circ> merged_ioc) (set ?m)"
    using m(1) by (auto simp: merged_ok_def inj_on_def key distinct_map)
  then have "distinct (map ioc_key ?all)"
    using m(1) by (simp add: merged_ok_def distinct_map)
  then have "distinct (map ioc_key (sort_key ioc_sort_key ?all))"
    by (metis distinct_map distinct_sort set_sort)
  then show "distinct (map ioc_key iocs)"
    unfolding iocs take_map [symmetric] by (rule distinct_take)
  assume "i \<in> set iocs"
  then obtain k v ps where e: "((k, v), ps) \<in> set ?m" "i = merged_ioc ((k, v), ps)"
    using set_take_subset [of "xp_max_iocs policy" "sort_key ioc_sort_key ?all"] unfolding iocs by fastforce
  have "ps \<noteq> []" "distinct ps" using m(1) e(1) by (auto simp: merged_ok_def)
  moreover have "\<forall>p \<in> set ps. (k, v, p) \<in> set cs" using e(1) m(2) by (auto simp: candidates_of_def)
  ultimately show "i_enrichment i = [] \<and> i_provenance i \<noteq> [] \<and> distinct (i_provenance i)
      \<and> sorted (map provenance_sort_key (i_provenance i))
      \<and> (\<forall>p \<in> set (i_provenance i). (i_type i, i_value i, p) \<in> set cs)"
    by (simp add: e(2) merged_ioc_def) (metis set_empty set_sort)
qed

subsection \<open>Domains and hosts\<close>

lemma over_seqs: "over P (seqs rs) \<longleftrightarrow> list_all (over P) rs"
  by (induction rs) (auto simp: seqs_def)

lemma over_exactly: "over P r \<Longrightarrow> over P (exactly n r)"
  by (simp add: exactly_def over_seqs list_all_iff)

lemma consuming_seqs: "consuming (seqs rs) \<longleftrightarrow> list_ex consuming rs"
  by (induction rs) (auto simp: seqs_def)

lemma matches_in:
  assumes "matches r s" "over P r" "consuming r"
  shows "\<exists>m. (s = m \<or> s = m @ [CHR 0x0A]) \<and> m \<noteq> [] \<and> list_all P m"
proof -
  obtain y where y: "y \<in> set (ends r ([], s))" "snd y = [] \<or> snd y = [CHR 0x0A]"
    using assms(1) unfolding matches_def by (auto split: if_splits)
  obtain m where m: "s = m @ snd y" "list_all P m"
    using ends_in [OF assms(2) y(1)] by (auto simp: steps_in_def steps_over_def)
  moreover have "m \<noteq> []" using consuming_shorter [OF assms(3) y(1)] m(1) by auto
  ultimately show ?thesis using y(2) by auto
qed

definition domain_char :: "char \<Rightarrow> bool" where
  "domain_char c \<longleftrightarrow> label_char c \<or> c \<in> set ''-.''"

lemma domain_pattern_over: "over domain_char domain_pattern" "consuming domain_pattern"
  by (simp_all add: domain_pattern_def over_seqs consuming_seqs domain_label_def plus_def from_to_def
      over_exactly domain_char_def label_char_def lit_def)

text \<open>The \<open>$\<close> of the pattern lets one final newline through.\<close>

lemma normalize_domain_shape:
  assumes "normalize_domain u raw = Some d"
  obtains m where "d = m \<or> d = m @ [CHR 0x0A]" "m \<noteq> []" "list_all domain_char m"
proof -
  have "matches domain_pattern d"
    using assms by (auto simp: normalize_domain_def Let_def split: if_splits option.splits)
  from matches_in [OF this domain_pattern_over] that show ?thesis by blast
qed

definition host_char :: "char \<Rightarrow> bool" where
  "host_char c \<longleftrightarrow> domain_char c \<or> c = CHR 0x0A"

lemma num_is_domain_char: "is_num c \<Longrightarrow> domain_char c"
  by (simp add: domain_char_def label_char_def)

lemma list_all_join: "list_all P sep \<Longrightarrow> list_all (list_all P) xs \<Longrightarrow> list_all P (join sep xs)"
  by (induction sep xs rule: join.induct) auto

lemma ipv4_str_chars: "list_all domain_char (ipv4_str n)"
proof -
  have "list_all domain_char (nat_str k)" for k
    using nat_str_digits(1) [of k] num_is_domain_char by (auto simp: list_all_iff)
  then show ?thesis
    unfolding ipv4_str_def by (intro list_all_join) (simp_all add: domain_char_def)
qed

lemma host_char_authority: "host_char c \<or> c = CHR '':'' \<Longrightarrow> c \<notin> set ''/?#@''"
  by (auto simp: host_char_def domain_char_def label_char_def is_small_def is_num_def between_def)

subsection \<open>URLs\<close>

lemma starts_with_Cons [simp]: "starts_with [c] (d # ds) \<longleftrightarrow> c = d" "\<not> starts_with [c] []"
  by (auto simp: starts_with_def)

text \<open>What is left of a split URL: no fragment, and a path that is empty or begins with a slash.\<close>

lemma urlsplit_path:
  assumes "urlsplit u t = Some parts" "up_netloc parts \<noteq> []"
  shows "(up_path parts = [] \<or> hd (up_path parts) = CHR ''/'') \<and> CHR ''#'' \<notin> set (up_path parts)
    \<and> CHR ''#'' \<notin> set (up_query parts)"
proof -
  define url where "url = snd (split_scheme (filter (\<lambda>c. \<not> url_unsafe c) (dropWhile c0_or_space t)))"
  then have url: "split_authority url = (up_netloc parts, snd (split_authority url))"
    "up_path parts = before_first (CHR ''?'') (before_first (CHR ''#'') (snd (split_authority url)))"
    "up_query parts = after_first (CHR ''?'') (before_first (CHR ''#'') (snd (split_authority url)))"
    using assms(1) by (auto simp: urlsplit_def Let_def split: if_splits prod.splits)
  let ?r = "before_first (CHR ''#'') (dropWhile authority_char (drop 2 url))"
  have path: "up_path parts = before_first (CHR ''?'') ?r" "up_query parts = after_first (CHR ''?'') ?r"
    using url assms(2) by (simp_all add: split_authority_def split: if_splits)
  have no: "CHR ''#'' \<notin> set ?r" unfolding before_first_def by (auto dest: set_takeWhileD)
  have first: "hd (dropWhile authority_char xs) \<in> set ''/?#''" if "dropWhile authority_char xs \<noteq> []" for xs
    using hd_dropWhile [OF that] by (simp add: authority_char_def)
  show ?thesis
  proof (cases "dropWhile authority_char (drop 2 url)")
    case Nil
    show ?thesis unfolding path Nil by (simp add: before_first_def after_first_def)
  next
    case (Cons c cs)
    then have "c \<in> set ''/?#''" using first [of "drop 2 url"] by simp
    then have "up_path parts = [] \<or> hd (up_path parts) = CHR ''/''"
      unfolding path Cons by (auto simp: before_first_def)
    moreover have "set (up_path parts) \<subseteq> set ?r" "set (up_query parts) \<subseteq> set ?r"
      unfolding path before_first_def after_first_def
      by (auto dest: set_takeWhileD in_set_dropD set_dropWhileD)
    ultimately show ?thesis using no by blast
  qed
qed

lemma normalize_url_shape:
  assumes "normalize_url u raw = Some v"
  obtains scheme netloc rest where "v = scheme @ ''://'' @ netloc @ rest" "scheme \<in> allowed_schemes"
    "netloc \<noteq> []" "list_all (\<lambda>c. c \<notin> set ''/?#@'') netloc" "hd rest = CHR ''/''" "rest \<noteq> []" "CHR ''#'' \<notin> set rest"
proof -
  obtain parts port where parts: "urlsplit u (plain_text raw) = Some parts" "url_port parts = Some port"
    using assms by (auto simp: normalize_url_def Let_def split: if_splits option.splits)
  define scheme where "scheme = lower (up_scheme parts)"
  define host where "host = url_hostname parts"
  define netloc where "netloc = (if matches domain_pattern (rstrip_of is_dot (lower host))
      then Some (rstrip_of is_dot (lower host)) else map_option ipv4_str (parse_ipv4 host))"
  note run = assms [unfolded normalize_url_def Let_def, folded scheme_def host_def]
  have s: "scheme \<in> allowed_schemes" "host \<noteq> []"
    using run parts by (auto simp: scheme_def host_def split: if_splits)
  obtain n where n: "netloc = Some n" and v: "v = urlunsplit scheme (case port of None \<Rightarrow> n
      | Some k \<Rightarrow> if map_of default_ports scheme = Some k then n else n @ '':'' @ nat_str k)
      (if up_path parts = [] then ''/'' else up_path parts) (up_query parts)"
    using run parts s unfolding netloc_def scheme_def host_def
    by (auto split: if_splits option.splits)
  have host: "list_all host_char n \<and> n \<noteq> []"
  proof (cases "matches domain_pattern (rstrip_of is_dot (lower host))")
    case True
    then have "n = rstrip_of is_dot (lower host)" using n by (simp add: netloc_def)
    with matches_in [OF True domain_pattern_over] show ?thesis
      by (auto simp: host_char_def list_all_iff)
  next
    case False
    then obtain a where "n = ipv4_str a" using n by (auto simp: netloc_def)
    then show ?thesis using ipv4_str_chars [of a]
      by (auto simp: host_char_def list_all_iff ipv4_str_def nat_str_digits(3))
  qed
  let ?n = "case port of None \<Rightarrow> n | Some k \<Rightarrow> if map_of default_ports scheme = Some k then n else n @ '':'' @ nat_str k"
  have "host_char c \<or> c = CHR '':''" if c: "c \<in> set ?n" for c
  proof -
    consider "c \<in> set n" | "c = CHR '':''" | k where "c \<in> set (nat_str k)"
      using c by (auto split: option.splits if_splits)
    then show ?thesis
      using host nat_str_digits(1) num_is_domain_char by cases (auto simp: list_all_iff host_char_def)
  qed
  then have clean: "list_all (\<lambda>c. c \<notin> set ''/?#@'') ?n"
    using host_char_authority by (simp add: list_all_iff)
  have "?n \<noteq> []" using host by (auto split: option.splits)
  have "up_netloc parts \<noteq> []"
    using s(2) unfolding host_def
    by (auto simp: url_hostname_def host_info_def after_last_def after_first_def before_first_def lower_def)
  note path = urlsplit_path [OF parts(1) this]
  define rest where "rest = (if up_path parts = [] then ''/'' else up_path parts)
      @ (if up_query parts = [] then [] else ''?'' @ up_query parts)"
  have "v = scheme @ ''://'' @ ?n @ rest"
    using path unfolding v urlunsplit_def rest_def Let_def by auto
  moreover have "hd rest = CHR ''/''" "rest \<noteq> []" "CHR ''#'' \<notin> set rest"
    using path by (auto simp: rest_def)
  ultimately show ?thesis using that s(1) \<open>?n \<noteq> []\<close> clean by blast
qed

subsection \<open>Every candidate is well formed\<close>

definition lower_hex :: "char \<Rightarrow> bool" where
  "lower_hex c \<longleftrightarrow> is_num c \<or> between (CHR ''a'') (CHR ''f'') c"

definition well_formed :: "extraction_policy \<Rightarrow> ioc_type \<Rightarrow> string \<Rightarrow> bool" where
  "well_formed policy kind v \<longleftrightarrow>
     (kind = IPV4 \<longrightarrow> (\<exists>a. v = ipv4_str a \<and> 0 \<le> a \<and> a < 2 ^ 32 \<and> ipv4_allowed policy a))
     \<and> (kind = URL \<longrightarrow> (\<exists>scheme netloc rest. v = scheme @ ''://'' @ netloc @ rest \<and> scheme \<in> {''http'', ''https'', ''ftp''}
          \<and> netloc \<noteq> [] \<and> CHR ''@'' \<notin> set netloc \<and> CHR ''/'' \<notin> set netloc \<and> hd rest = CHR ''/''))
     \<and> (kind \<in> {MD5, SHA1, SHA256} \<longrightarrow> map_of hash_lengths kind = Some (length v) \<and> list_all lower_hex v)"

lemma normalize_ipv4_well_formed: "normalize_ipv4 policy raw = Some v \<Longrightarrow> well_formed policy IPV4 v"
  using parse_ipv4_bounded
  by (fastforce simp: well_formed_def normalize_ipv4_def Let_def split: if_splits option.splits)

lemma normalize_url_well_formed:
  assumes "normalize_url u raw = Some v"
  shows "well_formed policy URL v"
proof -
  obtain scheme netloc rest where "v = scheme @ ''://'' @ netloc @ rest" "scheme \<in> allowed_schemes"
    "netloc \<noteq> []" "list_all (\<lambda>c. c \<notin> set ''/?#@'') netloc" "hd rest = CHR ''/''"
    by (rule normalize_url_shape [OF assms])
  then have "v = scheme @ ''://'' @ netloc @ rest \<and> scheme \<in> {''http'', ''https'', ''ftp''}
     \<and> netloc \<noteq> [] \<and> CHR ''@'' \<notin> set netloc \<and> CHR ''/'' \<notin> set netloc \<and> hd rest = CHR ''/''"
    by (auto simp: allowed_schemes_def list_all_iff)
  then show ?thesis unfolding well_formed_def by blast
qed

lemma lower_char_hex: "is_hex c \<Longrightarrow> lower_hex (lower_char c)"
  by (auto simp: is_hex_def lower_hex_def lower_char_def is_num_def between_def Let_def take_bit_eq_mod)

lemma hash_type_for_length: "hash_type_for t = Some k \<Longrightarrow> map_of hash_lengths k = Some (length (strip t)) \<and> list_all is_hex (strip t)"
  by (auto simp: hash_type_for_def hash_lengths_def Let_def split: if_splits)

lemma hash_type_for_kind: "hash_type_for t = Some k \<Longrightarrow> k \<noteq> URL"
  by (auto simp: hash_type_for_def hash_lengths_def Let_def split: if_splits)

lemma normalize_hash_well_formed:
  assumes "normalize_hash (Some k) raw = Some v"
  shows "well_formed policy k v"
proof -
  have v: "v = lower (strip raw)" and k: "hash_type_for (strip raw) = Some k"
    using assms by (auto simp: normalize_hash_def Let_def split: option.splits if_splits)
  from hash_type_for_length [OF k] have h: "map_of hash_lengths k = Some (length (strip raw))" "list_all is_hex (strip raw)"
    by simp_all
  then have "k \<in> {MD5, SHA1, SHA256}" by (auto simp: hash_lengths_def split: if_splits)
  moreover have "list_all lower_hex v" using h(2) lower_char_hex by (auto simp: v lower_def list_all_iff)
  ultimately show ?thesis using h(1) by (auto simp: well_formed_def v lower_def)
qed

lemma well_formed_other: "kind \<in> {DOMAIN, EMAIL} \<Longrightarrow> well_formed policy kind v"
  by (auto simp: well_formed_def)

text \<open>A candidate carries a well-formed value; the raw text kept for a URL is the sanitized one.\<close>

definition sound_candidate :: "extraction_policy \<Rightarrow> candidate \<Rightarrow> bool" where
  "sound_candidate policy = (\<lambda>(k, v, p). well_formed policy k v \<and> (k = URL \<longrightarrow> p_raw_value p = v))"

lemma scan_text_sound: "c \<in> set (scan_text u policy field location text) \<Longrightarrow> sound_candidate policy c"
  using hash_type_for_kind unfolding scan_text_def scan_urls_def scan_emails_def scan_domains_def scan_ipv4s_def scan_hashes_def Let_def
  by (auto simp: set_map_filter sound_candidate_def scanned_def well_formed_other normalize_url_well_formed
      normalize_ipv4_well_formed normalize_hash_well_formed split: option.splits if_splits)

lemma scan_typed_field_sound: "scan_typed_field u policy kind value = Some v \<Longrightarrow> well_formed policy kind v"
  by (cases kind) (auto simp: scan_typed_field_def Let_def well_formed_other normalize_url_well_formed
      normalize_ipv4_well_formed normalize_hash_well_formed split: if_splits)

lemma typed_candidate_sound: "typed_candidate u policy alert pk = Some c \<Longrightarrow> sound_candidate policy c"
  by (auto simp: typed_candidate_def sound_candidate_def scan_typed_field_sound
      split: prod.splits json.splits option.splits)

lemma extract_candidates_sound:
  "c \<in> set (List.map_filter (typed_candidate u policy alert) typed_fields
        @ (if xp_include_unknown_data_fields policy then auto_candidates u policy alert else [])
        @ optional_candidates u policy alert) \<Longrightarrow> sound_candidate policy c"
  by (auto simp: set_map_filter typed_candidate_sound auto_candidates_def optional_candidates_def
      intro: scan_text_sound split: if_splits json.splits)

subsection \<open>Properties\<close>

text \<open>
  The result of extraction is canonical: indicators in key order, no key twice, at most the
  configured number, none enriched yet, each with a non-empty sorted provenance without repetitions.
\<close>

theorem extraction_canonical:
  "sorted (map ioc_sort_key (extract_iocs u policy alert))
   \<and> distinct (map ioc_key (extract_iocs u policy alert))
   \<and> length (extract_iocs u policy alert) \<le> xp_max_iocs policy
   \<and> (\<forall>i \<in> set (extract_iocs u policy alert). i_enrichment i = [] \<and> i_provenance i \<noteq> []
        \<and> distinct (i_provenance i) \<and> sorted (map provenance_sort_key (i_provenance i)))"
  unfolding extract_iocs_def
  by (intro conjI merge_candidates_facts(1-3) ballI) (drule merge_candidates_facts(4), simp)+


definition ascii_only :: unicode_services where
  "ascii_only = \<lparr>us_idna = (\<lambda>h. None), us_netloc_ok = (\<lambda>n. False)\<rparr>"

definition found_in :: "string \<Rightarrow> (ioc_type \<times> string) list" where
  "found_in text = map (\<lambda>i. (i_type i, i_value i))
     (extract_iocs_from_text ascii_only default_ioc_policy ''field'' None text)"


subsection \<open>Witnesses\<close>

definition url_alert :: canonical_alert where
  "url_alert = \<lparr>c_alert_id = 1, c_source = ''wazuh'', c_received_at = 0,
     c_source_event = \<lparr>se_rule = \<lparr>rule_id = ''1'', rule_level = 3, rule_description = [], rule_groups = [], rule_mitre = []\<rparr>,
       se_agent = \<lparr>agent_id = ''1'', agent_name = ''a'', agent_ip = None\<rparr>, se_location = None, se_full_log = None,
       se_data = [(''url'', JStr ''http://u:p@a.io/x'')], se_syscheck = []\<rparr>,
     c_dedupe = None, c_iocs = [], c_asset = None, c_enrichment_status = None, c_risk = None, c_decision = None\<rparr>"

lemma url_alert_iocs: "map (\<lambda>i. (i_type i, i_value i)) (extract_iocs ascii_only default_ioc_policy url_alert) = [(URL, ''http://a.io/x'')]"
  by code_simp

theorem extraction_canonical_witness:
  "\<exists>i. extract_iocs ascii_only default_ioc_policy url_alert = [i] \<and> i_value i = ''http://a.io/x''
     \<and> i_enrichment i = [] \<and> i_provenance i \<noteq> [] \<and> distinct (i_provenance i)"
proof -
  obtain i where i: "extract_iocs ascii_only default_ioc_policy url_alert = [i]" "i_value i = ''http://a.io/x''"
    using url_alert_iocs by auto
  then show ?thesis using extraction_canonical [of ascii_only default_ioc_policy url_alert] by simp
qed


end
