(* ===== verification/Wazuh_Normalizer.thy ===== *)
theory Wazuh_Normalizer
  imports Ioc_Normalize Dedup_Keys
begin

text \<open>
  From a validated Wazuh alert to the canonical alert (ingest/normalizer.py). The identifier and the
  reception time, which the code draws when they are not given, are arguments.
\<close>

definition sanitize_permalink :: "(string, json) dict \<Rightarrow> (string, json) dict" where
  "sanitize_permalink virustotal =
     (case dict_get virustotal ''permalink'' of
        JStr permalink \<Rightarrow> AList.update ''permalink'' (JStr (strip_url_userinfo permalink)) virustotal
      | _ \<Rightarrow> virustotal)"

definition sanitize_data_block :: "(string, json) dict \<Rightarrow> (string, json) dict" where
  "sanitize_data_block data =
     (let data = (case dict_get data ''url'' of
            JStr url \<Rightarrow> AList.update ''url'' (JStr (strip_url_userinfo url)) data
          | _ \<Rightarrow> data) in
      case dict_get data ''virustotal'' of
        JObj virustotal \<Rightarrow> AList.update ''virustotal'' (JObj (sanitize_permalink virustotal)) data
      | _ \<Rightarrow> data)"

definition canonical_rule_of :: "wazuh_rule \<Rightarrow> canonical_rule" where
  "canonical_rule_of r = \<lparr>rule_id = wr_id r, rule_level = int (wr_level r), rule_description = wr_description r,
     rule_groups = wr_groups r, rule_mitre = (case wr_mitre r of None \<Rightarrow> [] | Some m \<Rightarrow> mitre_dump m)\<rparr>"

definition label_text :: "(string, json) dict \<Rightarrow> string \<Rightarrow> string option" where
  "label_text labels k = (case dict_get labels k of JStr s \<Rightarrow> Some s | _ \<Rightarrow> None)"

definition canonical_asset_of :: "wazuh_agent \<Rightarrow> canonical_asset" where
  "canonical_asset_of g =
     (let labels = (case wg_labels g of None \<Rightarrow> [] | Some d \<Rightarrow> d) in
      \<lparr>asset_name = Some (wg_name g), asset_tier = label_text labels ''asset_tier'',
        asset_owner = label_text labels ''owner''\<rparr>)"

definition normalize_wazuh_alert :: "wazuh_alert \<Rightarrow> uuid \<Rightarrow> instant \<Rightarrow> canonical_alert" where
  "normalize_wazuh_alert a alert_id received_at =
     (let g = w_agent a in
      \<lparr>c_alert_id = alert_id, c_source = ''wazuh'', c_received_at = received_at,
        c_source_event = \<lparr>se_rule = canonical_rule_of (w_rule a),
          se_agent = \<lparr>agent_id = wg_id g, agent_name = wg_name g, agent_ip = wg_ip g\<rparr>,
          se_location = w_location a, se_full_log = w_full_log a,
          se_data = sanitize_data_block (case w_data a of None \<Rightarrow> [] | Some d \<Rightarrow> data_dump d),
          se_syscheck = (case w_syscheck a of None \<Rightarrow> [] | Some d \<Rightarrow> d)\<rparr>,
        c_dedupe = None, c_iocs = [], c_asset = Some (canonical_asset_of g),
        c_enrichment_status = None, c_risk = None, c_decision = None\<rparr>)"

end
