(* ===== verification/Asset_Inventory.thy ===== *)
theory Asset_Inventory
  imports Ipv4 Alert_Model
begin

text \<open>
  The static asset inventory (enrichment/asset\_inventory.py): validation of the configuration
  mapping (a YAML mapping with text keys, as a JSON value; the file access around it is left out),
  the indexes, and the filling of missing asset fields. \<open>casefold\<close> acts on the ASCII range, and the
  texts of the error messages are left out.
\<close>

subsection \<open>Data\<close>

record asset_record =
  ar_name :: string
  ar_tier :: string
  ar_owner :: "string option"
  ar_agent_ids :: "string list"
  ar_ips :: "string list"

record asset_inventory =
  av_assets :: "asset_record list"
  av_duplicates_collapsed :: nat

definition max_assets :: nat where
  "max_assets = 10000"

definition asset_config_error :: "py_exn + 'a" where
  "asset_config_error = Inl (OtherError ''AssetInventoryConfigError'')"

subsection \<open>Lookup\<close>

definition by_agent_id :: "asset_inventory \<Rightarrow> (string, asset_record) dict" where
  "by_agent_id v = fold (\<lambda>r. fold (\<lambda>a. AList.update a r) (ar_agent_ids r)) (av_assets v) []"

definition by_ip :: "asset_inventory \<Rightarrow> (string, asset_record) dict" where
  "by_ip v = fold (\<lambda>r. fold (\<lambda>a. AList.update a r) (ar_ips r)) (av_assets v) []"

definition by_name :: "asset_inventory \<Rightarrow> (string, asset_record) dict" where
  "by_name v = fold (\<lambda>r. AList.update (lower (ar_name r)) r) (av_assets v) []"

text \<open>\<open>if key:\<close> on an optional text.\<close>

definition given :: "string option \<Rightarrow> bool" where
  "given s \<longleftrightarrow> s \<noteq> None \<and> s \<noteq> Some []"

definition orelse :: "'a option \<Rightarrow> 'a option \<Rightarrow> 'a option" where
  "orelse x y = (case x of None \<Rightarrow> y | Some v \<Rightarrow> Some v)"

definition lookup_asset :: "asset_inventory \<Rightarrow> string option \<Rightarrow> string option \<Rightarrow> string option \<Rightarrow> asset_record option" where
  "lookup_asset v agent ip name =
     orelse (if given agent then map_of (by_agent_id v) (strip (the agent)) else None)
     (orelse (if given ip then
          (case parse_ipv4 (strip (the ip)) of None \<Rightarrow> None | Some a \<Rightarrow> map_of (by_ip v) (ipv4_str a)) else None)
       (if given name then map_of (by_name v) (lower (strip (the name))) else None))"

subsection \<open>Validation\<close>

definition bounded_text :: "nat \<Rightarrow> json \<Rightarrow> py_exn + string" where
  "bounded_text limit v =
     (case v of
        JStr s \<Rightarrow> (let t = strip s in if t = [] \<or> limit < utf8_length t then asset_config_error else Inr t)
      | _ \<Rightarrow> asset_config_error)"

definition normalize_owner :: "json \<Rightarrow> py_exn + string option" where
  "normalize_owner v =
     (case v of
        JNull \<Rightarrow> Inr None
      | JStr s \<Rightarrow> (let t = strip s in if 128 < utf8_length t then asset_config_error
          else Inr (if t = [] then None else Some t))
      | _ \<Rightarrow> asset_config_error)"

text \<open>A list of distinct texts, each read by \<open>one\<close>.\<close>

fun distinct_texts :: "(string \<Rightarrow> py_exn + string) \<Rightarrow> json list \<Rightarrow> string list \<Rightarrow> py_exn + string list" where
  "distinct_texts one [] seen = Inr seen"
| "distinct_texts one (JStr s # vs) seen =
     then_ok (one s) (\<lambda>t. if t \<in> set seen then asset_config_error else distinct_texts one vs (seen @ [t]))"
| "distinct_texts one (_ # vs) seen = asset_config_error"

definition text_list :: "(string \<Rightarrow> py_exn + string) \<Rightarrow> json \<Rightarrow> py_exn + string list" where
  "text_list one v =
     (case v of JNull \<Rightarrow> Inr [] | JList vs \<Rightarrow> distinct_texts one vs [] | _ \<Rightarrow> asset_config_error)"

definition normalize_agent_ids :: "json \<Rightarrow> py_exn + string list" where
  "normalize_agent_ids = text_list (\<lambda>s. let t = strip s in if t = [] then asset_config_error else Inr t)"

definition normalize_ips :: "json \<Rightarrow> py_exn + string list" where
  "normalize_ips = text_list (\<lambda>s. case parse_ipv4 (strip s) of None \<Rightarrow> asset_config_error | Some a \<Rightarrow> Inr (ipv4_str a))"

definition parse_asset :: "json \<Rightarrow> py_exn + asset_record" where
  "parse_asset raw =
     (case raw of
        JObj kvs \<Rightarrow>
          if \<not> fst ` set kvs \<subseteq> {''name'', ''tier'', ''owner'', ''agent_ids'', ''ips''} then asset_config_error
          else
            then_ok (bounded_text 253 (dict_get kvs ''name'')) (\<lambda>name.
            then_ok (bounded_text 64 (dict_get kvs ''tier'')) (\<lambda>tier.
            then_ok (normalize_owner (dict_get kvs ''owner'')) (\<lambda>owner.
            then_ok (normalize_agent_ids (dict_get kvs ''agent_ids'')) (\<lambda>agents.
            then_ok (normalize_ips (dict_get kvs ''ips'')) (\<lambda>ips.
              Inr \<lparr>ar_name = name, ar_tier = tier, ar_owner = owner, ar_agent_ids = agents, ar_ips = ips\<rparr>)))))
      | _ \<Rightarrow> asset_config_error)"

record asset_load =
  ld_parsed :: "asset_record list"
  ld_duplicates :: nat
  ld_names :: "(string, asset_record) dict"
  ld_agents :: "(string, string) dict"
  ld_ips :: "(string, string) dict"

definition same_content :: "asset_record \<Rightarrow> asset_record \<Rightarrow> bool" where
  "same_content r q \<longleftrightarrow> ar_tier r = ar_tier q \<and> ar_owner r = ar_owner q
     \<and> ar_agent_ids r = ar_agent_ids q \<and> ar_ips r = ar_ips q"

definition claimed :: "(string, string) dict \<Rightarrow> string list \<Rightarrow> bool" where
  "claimed owners keys \<longleftrightarrow> list_ex (\<lambda>k. map_of owners k \<noteq> None) keys"

definition load_asset :: "asset_record \<Rightarrow> asset_load \<Rightarrow> py_exn + asset_load" where
  "load_asset r l =
     (case map_of (ld_names l) (lower (ar_name r)) of
        Some q \<Rightarrow>
          if same_content q r then Inr (l\<lparr>ld_duplicates := ld_duplicates l + 1\<rparr>) else asset_config_error
      | None \<Rightarrow>
          if claimed (ld_agents l) (ar_agent_ids r) \<or> claimed (ld_ips l) (ar_ips r) then asset_config_error
          else Inr \<lparr>ld_parsed = ld_parsed l @ [r], ld_duplicates = ld_duplicates l,
            ld_names = AList.update (lower (ar_name r)) r (ld_names l),
            ld_agents = fold (\<lambda>a. AList.update a (ar_name r)) (ar_agent_ids r) (ld_agents l),
            ld_ips = fold (\<lambda>a. AList.update a (ar_name r)) (ar_ips r) (ld_ips l)\<rparr>)"

fun load_assets :: "json list \<Rightarrow> asset_load \<Rightarrow> py_exn + asset_load" where
  "load_assets [] l = Inr l"
| "load_assets (raw # raws) l = then_ok (parse_asset raw) (\<lambda>r. then_ok (load_asset r l) (load_assets raws))"

definition empty_load :: asset_load where
  "empty_load = \<lparr>ld_parsed = [], ld_duplicates = 0, ld_names = [], ld_agents = [], ld_ips = []\<rparr>"

definition loaded_inventory :: "json \<Rightarrow> py_exn + asset_inventory" where
  "loaded_inventory raw =
     (case raw of
        JList raws \<Rightarrow>
          if max_assets < length raws then asset_config_error
          else map_sum id (\<lambda>l. \<lparr>av_assets = ld_parsed l, av_duplicates_collapsed = ld_duplicates l\<rparr>)
            (load_assets raws empty_load)
      | _ \<Rightarrow> asset_config_error)"

definition asset_inventory_from_mapping :: "json \<Rightarrow> py_exn + asset_inventory" where
  "asset_inventory_from_mapping raw =
     (case raw of
        JObj kvs \<Rightarrow>
          if fst ` set kvs \<noteq> {''version'', ''assets''} then asset_config_error
          else if dict_get kvs ''version'' \<noteq> JStr ''asset_inventory.v1'' then asset_config_error
          else loaded_inventory (dict_get kvs ''assets'')
      | _ \<Rightarrow> asset_config_error)"

subsection \<open>Application\<close>

definition fill_text :: "string option \<Rightarrow> string option \<Rightarrow> string option" where
  "fill_text present offered = (if \<not> given present \<and> given offered then offered else present)"

definition apply_asset_inventory :: "canonical_alert \<Rightarrow> asset_inventory option \<Rightarrow> canonical_alert" where
  "apply_asset_inventory alert inventory =
     (case (inventory, c_asset alert) of
        (Some v, Some asset) \<Rightarrow>
          (let g = se_agent (c_source_event alert) in
           case lookup_asset v (Some (agent_id g)) (agent_ip g) (asset_name asset) of
             None \<Rightarrow> alert
           | Some r \<Rightarrow> alert\<lparr>c_asset := Some
               \<lparr>asset_name = fill_text (asset_name asset) (Some (ar_name r)),
                asset_tier = fill_text (asset_tier asset) (Some (ar_tier r)),
                asset_owner = fill_text (asset_owner asset) (ar_owner r)\<rparr>\<rparr>)
      | _ \<Rightarrow> alert)"

subsection \<open>Facts\<close>

lemma map_of_fold_update: "map_of (fold (\<lambda>a. AList.update a r) ks al) k = (if k \<in> set ks then Some r else map_of al k)"
  by (induction ks arbitrary: al) (auto simp: update_conv)

lemma orelse_None [simp]: "orelse x None = x"
  by (simp add: orelse_def split: option.split)

text \<open>An index over records whose key lists are disjoint is a linear search.\<close>

lemma index_is_search:
  assumes "\<forall>r \<in> set rs. \<forall>q \<in> set rs. r \<noteq> q \<longrightarrow> set (keys r) \<inter> set (keys q) = {}"
  shows "map_of (fold (\<lambda>r. fold (\<lambda>a. AList.update a r) (keys r)) rs al) k =
    orelse (find (\<lambda>r. k \<in> set (keys r)) rs) (map_of al k)"
  using assms
proof (induction rs arbitrary: al)
  case (Cons r rs)
  have search: "find (\<lambda>r. k \<in> set (keys r)) rs \<in> {None, Some r}" if "k \<in> set (keys r)"
  proof (cases "find (\<lambda>r. k \<in> set (keys r)) rs")
    case (Some q)
    then have "q \<in> set rs" "k \<in> set (keys q)" by (auto simp: find_Some_iff)
    with Cons.prems that Some show ?thesis by auto
  qed simp
  from Cons show ?case using search by (auto simp: orelse_def map_of_fold_update split: option.splits)
qed (simp add: orelse_def)

definition unambiguous :: "asset_record list \<Rightarrow> bool" where
  "unambiguous rs \<longleftrightarrow> (\<forall>r \<in> set rs. \<forall>q \<in> set rs. r \<noteq> q \<longrightarrow>
     set (ar_agent_ids r) \<inter> set (ar_agent_ids q) = {} \<and> set (ar_ips r) \<inter> set (ar_ips q) = {}
     \<and> lower (ar_name r) \<noteq> lower (ar_name q))"

definition load_ok :: "asset_load \<Rightarrow> bool" where
  "load_ok l \<longleftrightarrow> unambiguous (ld_parsed l)
     \<and> (\<forall>k. map_of (ld_names l) k \<noteq> None \<longleftrightarrow> k \<in> (\<lambda>r. lower (ar_name r)) ` set (ld_parsed l))
     \<and> (\<forall>k. map_of (ld_agents l) k \<noteq> None \<longleftrightarrow> (\<exists>r \<in> set (ld_parsed l). k \<in> set (ar_agent_ids r)))
     \<and> (\<forall>k. map_of (ld_ips l) k \<noteq> None \<longleftrightarrow> (\<exists>r \<in> set (ld_parsed l). k \<in> set (ar_ips r)))"

lemma load_asset_ok:
  assumes "load_ok l" "load_asset r l = Inr l'"
  shows "load_ok l'"
proof (cases "map_of (ld_names l) (lower (ar_name r))")
  case (Some q)
  then have "l' = l\<lparr>ld_duplicates := ld_duplicates l + 1\<rparr>"
    using assms(2) by (simp add: load_asset_def asset_config_error_def split: if_splits)
  with assms(1) show ?thesis by (simp add: load_ok_def)
next
  case None
  note ok = assms(1) [unfolded load_ok_def]
  have free: "\<not> claimed (ld_agents l) (ar_agent_ids r)" "\<not> claimed (ld_ips l) (ar_ips r)"
    and l': "l' = \<lparr>ld_parsed = ld_parsed l @ [r], ld_duplicates = ld_duplicates l,
            ld_names = AList.update (lower (ar_name r)) r (ld_names l),
            ld_agents = fold (\<lambda>a. AList.update a (ar_name r)) (ar_agent_ids r) (ld_agents l),
            ld_ips = fold (\<lambda>a. AList.update a (ar_name r)) (ar_ips r) (ld_ips l)\<rparr>"
    using assms(2) None by (auto simp: load_asset_def asset_config_error_def split: if_splits)
  have new: "lower (ar_name q) \<noteq> lower (ar_name r)" "set (ar_agent_ids q) \<inter> set (ar_agent_ids r) = {}"
      "set (ar_ips q) \<inter> set (ar_ips r) = {}" if q: "q \<in> set (ld_parsed l)" for q
  proof -
    have "map_of (ld_names l) (lower (ar_name q)) \<noteq> None" using ok q by blast
    then show "lower (ar_name q) \<noteq> lower (ar_name r)" using None by metis
    have "map_of (ld_agents l) k \<noteq> None" if "k \<in> set (ar_agent_ids q)" for k using ok q that by blast
    then show "set (ar_agent_ids q) \<inter> set (ar_agent_ids r) = {}"
      using free(1) by (fastforce simp: claimed_def list_ex_iff)
    have "map_of (ld_ips l) k \<noteq> None" if "k \<in> set (ar_ips q)" for k using ok q that by blast
    then show "set (ar_ips q) \<inter> set (ar_ips r) = {}"
      using free(2) by (fastforce simp: claimed_def list_ex_iff)
  qed
  have "unambiguous (ld_parsed l')"
    unfolding unambiguous_def l' using ok new
    by (simp add: unambiguous_def) (metis Int_commute)
  then show ?thesis
    unfolding load_ok_def using ok by (simp add: l' map_of_fold_update update_conv)
qed

lemma load_assets_ok: "load_ok l \<Longrightarrow> load_assets raws l = Inr l' \<Longrightarrow> load_ok l'"
  by (induction raws arbitrary: l) (auto dest: load_asset_ok)

text \<open>Of the entries that share a name, the first in the file is kept.\<close>

definition named :: "string \<Rightarrow> asset_record list \<Rightarrow> asset_record option" where
  "named k rs = find (\<lambda>r. lower (ar_name r) = k) rs"

lemma named_append: "named k (xs @ ys) = orelse (named k xs) (named k ys)"
  by (induction xs) (simp_all add: named_def orelse_def)

lemma named_Cons: "named k (r # rs) = (if lower (ar_name r) = k then Some r else named k rs)"
  by (simp add: named_def)

lemma named_iff: "named k rs \<noteq> None \<longleftrightarrow> k \<in> (\<lambda>r. lower (ar_name r)) ` set rs"
  by (induction rs) (auto simp: named_def)

lemma orelse_simps [simp]: "orelse None y = y" "orelse (Some v) y = Some v" "orelse (orelse x y) z = orelse x (orelse y z)"
  by (simp_all add: orelse_def split: option.split)

lemma load_asset_keeps_first:
  assumes "load_ok l" "load_asset r l = Inr l'"
  shows "named k (ld_parsed l') = orelse (named k (ld_parsed l)) (if lower (ar_name r) = k then Some r else None)
    \<and> set (ld_parsed l') \<subseteq> insert r (set (ld_parsed l))
    \<and> length (ld_parsed l') + ld_duplicates l' = Suc (length (ld_parsed l) + ld_duplicates l)"
proof (cases "map_of (ld_names l) (lower (ar_name r))")
  case (Some q)
  then have l': "l' = l\<lparr>ld_duplicates := ld_duplicates l + 1\<rparr>"
    using assms(2) by (simp add: load_asset_def asset_config_error_def split: if_splits)
  have "named (lower (ar_name r)) (ld_parsed l) \<noteq> None"
    using Some assms(1) unfolding named_iff load_ok_def by fastforce
  then show ?thesis by (auto simp: l')
next
  case None
  then have "ld_parsed l' = ld_parsed l @ [r]" "ld_duplicates l' = ld_duplicates l"
    using assms(2) by (auto simp: load_asset_def asset_config_error_def split: if_splits)
  then show ?thesis by (simp add: named_append) (simp add: named_def)
qed

lemma load_assets_keep_first:
  "load_ok l \<Longrightarrow> load_assets raws l = Inr l' \<Longrightarrow> \<exists>rs. map parse_asset raws = map Inr rs
     \<and> (\<forall>k. named k (ld_parsed l') = orelse (named k (ld_parsed l)) (named k rs))
     \<and> set (ld_parsed l') \<subseteq> set (ld_parsed l) \<union> set rs
     \<and> length (ld_parsed l') + ld_duplicates l' = length (ld_parsed l) + ld_duplicates l + length rs"
proof (induction raws arbitrary: l)
  case (Cons raw raws)
  obtain r l1 where step: "parse_asset raw = Inr r" "load_asset r l = Inr l1" "load_assets raws l1 = Inr l'"
    using Cons.prems(2) by auto
  from Cons.IH [OF load_asset_ok [OF Cons.prems(1) step(2)] step(3)] obtain rs where rs:
    "map parse_asset raws = map Inr rs" "\<forall>k. named k (ld_parsed l') = orelse (named k (ld_parsed l1)) (named k rs)"
    "set (ld_parsed l') \<subseteq> set (ld_parsed l1) \<union> set rs"
    "length (ld_parsed l') + ld_duplicates l' = length (ld_parsed l1) + ld_duplicates l1 + length rs" by blast
  note first = load_asset_keeps_first [OF Cons.prems(1) step(2)]
  have "named k (ld_parsed l') = orelse (named k (ld_parsed l)) (named k (r # rs))" for k
    using rs(2) first [of k] by (simp add: named_Cons)
  moreover have "set (ld_parsed l') \<subseteq> set (ld_parsed l) \<union> set (r # rs)" using rs(3) first by auto
  moreover have "length (ld_parsed l') + ld_duplicates l' = length (ld_parsed l) + ld_duplicates l + length (r # rs)"
    using rs(4) first by simp
  moreover have "map parse_asset (raw # raws) = map Inr (r # rs)" using rs(1) step(1) by simp
  ultimately show ?case by blast
qed (auto simp: named_def intro: exI [of _ "[]"])

lemma loaded_entries:
  assumes "asset_inventory_from_mapping raw = Inr v"
  obtains kvs raws l where "raw = JObj kvs" "dict_get kvs ''assets'' = JList raws" "load_assets raws empty_load = Inr l"
    "av_assets v = ld_parsed l" "av_duplicates_collapsed v = ld_duplicates l"
proof -
  have guarded: "x = Inr v" if "(if A then asset_config_error else x) = Inr v" for A and x :: "py_exn + asset_inventory"
    using that by (cases A) (simp_all add: asset_config_error_def)
  obtain kvs where raw: "raw = JObj kvs"
  proof (cases raw)
    case (JObj kvs)
    then show ?thesis by (rule that)
  qed (use assms in \<open>simp_all add: asset_inventory_from_mapping_def asset_config_error_def\<close>)
  note run = guarded [OF guarded [OF assms [unfolded asset_inventory_from_mapping_def raw json.case]]]
  then obtain raws where raws: "dict_get kvs ''assets'' = JList raws"
    unfolding loaded_inventory_def asset_config_error_def by (cases "dict_get kvs ''assets''") simp_all
  then obtain l where "load_assets raws empty_load = Inr l" "av_assets v = ld_parsed l" "av_duplicates_collapsed v = ld_duplicates l"
    using run unfolding loaded_inventory_def
    by (cases "load_assets raws empty_load") (auto simp: asset_config_error_def split: if_splits)
  then show thesis using that raw raws by blast
qed

lemma empty_load_ok: "load_ok empty_load"
  by (simp add: load_ok_def empty_load_def unambiguous_def)

lemma inventory_unambiguous:
  assumes "asset_inventory_from_mapping raw = Inr v"
  shows "unambiguous (av_assets v)"
proof -
  obtain kvs raws l where "load_assets raws empty_load = Inr l" "av_assets v = ld_parsed l"
    by (rule loaded_entries [OF assms])
  then show ?thesis using load_assets_ok [OF empty_load_ok] by (metis load_ok_def)
qed

lemma inventory_entries:
  assumes "asset_inventory_from_mapping raw = Inr v"
  shows "\<exists>kvs raws rs. raw = JObj kvs \<and> dict_get kvs ''assets'' = JList raws \<and> map parse_asset raws = map Inr rs
    \<and> set (av_assets v) \<subseteq> set rs \<and> (\<forall>k. named k (av_assets v) = named k rs)
    \<and> length (av_assets v) + av_duplicates_collapsed v = length rs"
proof -
  obtain kvs raws l where raw: "raw = JObj kvs" "dict_get kvs ''assets'' = JList raws"
    and l: "load_assets raws empty_load = Inr l" "av_assets v = ld_parsed l" "av_duplicates_collapsed v = ld_duplicates l"
    by (rule loaded_entries [OF assms])
  have "named k (ld_parsed empty_load) = None" "ld_parsed empty_load = []" "ld_duplicates empty_load = 0" for k
    by (simp_all add: named_def empty_load_def)
  with load_assets_keep_first [OF empty_load_ok l(1)] show ?thesis using raw l(2,3) by auto
qed

text \<open>Filling changes nothing but blank asset fields.\<close>

lemma apply_fills_blanks:
  "(apply_asset_inventory alert inventory)\<lparr>c_asset := c_asset alert\<rparr> = alert"
  "c_asset alert = Some x \<Longrightarrow> \<exists>y. c_asset (apply_asset_inventory alert inventory) = Some y
     \<and> (given (asset_name x) \<longrightarrow> asset_name y = asset_name x) \<and> (given (asset_tier x) \<longrightarrow> asset_tier y = asset_tier x)
     \<and> (given (asset_owner x) \<longrightarrow> asset_owner y = asset_owner x)"
  by (auto simp: apply_asset_inventory_def Let_def fill_text_def split: option.splits)

subsection \<open>Properties\<close>


definition sample_inventory :: json where
  "sample_inventory = JObj [(''version'', JStr ''asset_inventory.v1''), (''assets'', JList
     [JObj [(''name'', JStr ''web''), (''tier'', JStr ''high''), (''agent_ids'', JList [JStr ''7''])],
      JObj [(''name'', JStr ''db''), (''tier'', JStr ''low''), (''ips'', JList [JStr ''10.0.0.1''])]])]"

definition spelled :: "string list \<Rightarrow> json" where
  "spelled names = JObj [(''version'', JStr ''asset_inventory.v1''),
     (''assets'', JList (map (\<lambda>n. JObj [(''name'', JStr n), (''tier'', JStr ''high'')]) names))]"

text \<open>Two files that differ in the order of their entries only, and what each makes of the same name.\<close>

lemma file_order_shows:
  "map_sum id (\<lambda>v. map_option ar_name (lookup_asset v None None (Some ''WEB''))) (asset_inventory_from_mapping (spelled [''Web'', ''web'']))
     = Inr (Some ''Web'')"
  "map_sum id (\<lambda>v. map_option ar_name (lookup_asset v None None (Some ''WEB''))) (asset_inventory_from_mapping (spelled [''web'', ''Web'']))
     = Inr (Some ''web'')"
  by code_simp+


end
