(* ===== verification/Allowlist.thy ===== *)
theory Allowlist
  imports Ioc_Normalize Enrichment_Chain
begin

text \<open>
  The static allowlist (enrichment/allowlist.py): validation of the configuration mapping (a YAML
  mapping with text keys, as a JSON value), the lookup of an indicator, and the local enrichment
  provider. The file access and the texts of the error messages are left out.
\<close>

subsection \<open>Entries\<close>

record allowlist_entry =
  ae_id :: string
  ae_type :: ioc_type
  ae_value :: string
  ae_reason :: string
  ae_network :: "ipv4_network option"

record allowlist =
  aw_entries :: "allowlist_entry list"
  aw_duplicates_collapsed :: nat

definition max_allowlist_entries :: nat where
  "max_allowlist_entries = 10000"

definition allowlist_error :: "py_exn + 'a" where
  "allowlist_error = Inl (OtherError ''AllowlistConfigError'')"

definition entry_key :: "allowlist_entry \<Rightarrow> string" where
  "entry_key e = ioc_type_value (ae_type e) @ '':'' @ ae_value e"

subsection \<open>Lookup\<close>

definition exact_index :: "allowlist_entry list \<Rightarrow> (string, allowlist_entry) dict" where
  "exact_index es = fold (\<lambda>e. AList.update (entry_key e) e) (filter (\<lambda>e. ae_network e = None) es) []"

definition network_index :: "allowlist_entry list \<Rightarrow> (ipv4_network \<times> allowlist_entry) list" where
  "network_index es =
     sort_key (\<lambda>(w, e). (nw_address w, nw_prefixlen w, ae_id e))
       (List.map_filter (\<lambda>e. map_option (\<lambda>w. (w, e)) (ae_network e)) es)"

definition allowlist_match :: "allowlist \<Rightarrow> ioc \<Rightarrow> allowlist_entry option" where
  "allowlist_match a i =
     (case map_of (exact_index (aw_entries a)) (ioc_key i) of
        Some e \<Rightarrow> Some e
      | None \<Rightarrow>
          if i_type i \<noteq> IPV4 then None
          else (case parse_ipv4 (i_value i) of
              None \<Rightarrow> None
            | Some ip \<Rightarrow> map_option snd (find (\<lambda>(w, e). in_network ip w) (network_index (aw_entries a)))))"

subsection \<open>IPv4 networks\<close>

definition prefix_of_mask :: "int \<Rightarrow> nat option" where
  "prefix_of_mask m = find (\<lambda>p. m = 2 ^ 32 - netmask_bits p) [0..<33]"

text \<open>A prefix length, or a netmask or hostmask in dotted form.\<close>

definition parse_prefix :: "string \<Rightarrow> nat option" where
  "parse_prefix s =
     (if s \<noteq> [] \<and> list_all is_num s \<and> length s \<le> 4300 \<and> decimal s \<le> 32 then Some (decimal s)
      else (case parse_ipv4 s of
          None \<Rightarrow> None
        | Some m \<Rightarrow> (case prefix_of_mask m of
            Some p \<Rightarrow> Some p
          | None \<Rightarrow> prefix_of_mask (2 ^ 32 - 1 - m))))"

definition parse_network :: "string \<Rightarrow> ipv4_network option" where
  "parse_network s =
     (case split_on (CHR ''/'') s of
        [ip, prefix] \<Rightarrow>
          (case (parse_ipv4 ip, parse_prefix prefix) of
             (Some a, Some p) \<Rightarrow> Some \<lparr>nw_address = a div netmask_bits p * netmask_bits p, nw_prefixlen = p\<rparr>
           | _ \<Rightarrow> None)
      | _ \<Rightarrow> None)"

definition network_str :: "ipv4_network \<Rightarrow> string" where
  "network_str w = ipv4_str (nw_address w) @ ''/'' @ nat_str (nw_prefixlen w)"

subsection \<open>Validation\<close>

definition normalize_ipv4_value :: "string \<Rightarrow> py_exn + string \<times> ipv4_network option" where
  "normalize_ipv4_value raw =
     (if CHR ''/'' \<in> set raw then
        (case parse_network raw of
           None \<Rightarrow> allowlist_error
         | Some w \<Rightarrow> if nw_prefixlen w = 0 then allowlist_error else Inr (network_str w, Some w))
      else
        (case parse_ipv4 raw of None \<Rightarrow> allowlist_error | Some a \<Rightarrow> Inr (ipv4_str a, None)))"

definition normalize_value :: "unicode_services \<Rightarrow> string \<Rightarrow> ioc_type \<Rightarrow> py_exn + string \<times> ipv4_network option" where
  "normalize_value u value kind =
     (let raw = strip value in
      if raw = [] then allowlist_error
      else if kind = IPV4 then normalize_ipv4_value raw
      else
        (case (case kind of DOMAIN \<Rightarrow> normalize_domain u raw | URL \<Rightarrow> normalize_url u raw
             | EMAIL \<Rightarrow> normalize_email u raw | _ \<Rightarrow> normalize_hash (Some kind) raw) of
           None \<Rightarrow> allowlist_error
         | Some v \<Rightarrow> Inr (v, None)))"

definition valid_id :: "string \<Rightarrow> bool" where
  "valid_id s \<longleftrightarrow> s \<noteq> [] \<and> length s \<le> 64 \<and> label_char (hd s)
     \<and> list_all (\<lambda>c. label_char c \<or> c \<in> set ''_-'') s"

definition ioc_type_of :: "string \<Rightarrow> ioc_type option" where
  "ioc_type_of s = find (\<lambda>t. ioc_type_value t = s) all_ioc_types"

definition entry_reason :: "(string, json) dict \<Rightarrow> py_exn + string" where
  "entry_reason kvs =
     (case map_of kvs ''reason'' of
        None \<Rightarrow> Inr []
      | Some (JStr r) \<Rightarrow> if 200 < utf8_length r then allowlist_error else Inr r
      | Some _ \<Rightarrow> allowlist_error)"

definition parse_entry :: "unicode_services \<Rightarrow> json \<Rightarrow> py_exn + allowlist_entry" where
  "parse_entry u raw =
     (case raw of
        JObj kvs \<Rightarrow>
          (case (dict_get kvs ''id'', dict_get kvs ''type'', dict_get kvs ''value'') of
             (JStr i, JStr t, JStr v) \<Rightarrow>
               if \<not> valid_id i then allowlist_error
               else (case ioc_type_of t of
                   None \<Rightarrow> allowlist_error
                 | Some kind \<Rightarrow>
                     then_ok (entry_reason kvs) (\<lambda>reason.
                     then_ok (normalize_value u v kind) (\<lambda>(value, w).
                       Inr \<lparr>ae_id = i, ae_type = kind, ae_value = value, ae_reason = reason, ae_network = w\<rparr>)))
           | _ \<Rightarrow> allowlist_error)
      | _ \<Rightarrow> allowlist_error)"

record entry_load =
  el_parsed :: "allowlist_entry list"
  el_duplicates :: nat
  el_ids :: "(string, allowlist_entry) dict"
  el_keys :: "(string, allowlist_entry) dict"

definition load_entry :: "allowlist_entry \<Rightarrow> entry_load \<Rightarrow> py_exn + entry_load" where
  "load_entry e l =
     (case map_of (el_ids l) (ae_id e) of
        Some x \<Rightarrow> if x = e then Inr (l\<lparr>el_duplicates := el_duplicates l + 1\<rparr>) else allowlist_error
      | None \<Rightarrow>
          (case map_of (el_keys l) (entry_key e) of
             Some x \<Rightarrow>
               if x = e then Inr (l\<lparr>el_duplicates := el_duplicates l + 1, el_ids := AList.update (ae_id e) x (el_ids l)\<rparr>)
               else allowlist_error
           | None \<Rightarrow>
               Inr \<lparr>el_parsed = el_parsed l @ [e], el_duplicates = el_duplicates l,
                 el_ids = AList.update (ae_id e) e (el_ids l), el_keys = AList.update (entry_key e) e (el_keys l)\<rparr>))"

fun load_entries :: "unicode_services \<Rightarrow> json list \<Rightarrow> entry_load \<Rightarrow> py_exn + entry_load" where
  "load_entries u [] l = Inr l"
| "load_entries u (raw # raws) l = then_ok (parse_entry u raw) (\<lambda>e. then_ok (load_entry e l) (load_entries u raws))"

definition no_entries :: entry_load where
  "no_entries = \<lparr>el_parsed = [], el_duplicates = 0, el_ids = [], el_keys = []\<rparr>"

definition loaded_allowlist :: "unicode_services \<Rightarrow> json \<Rightarrow> py_exn + allowlist" where
  "loaded_allowlist u raw =
     (case raw of
        JList raws \<Rightarrow>
          if max_allowlist_entries < length raws then allowlist_error
          else map_sum id (\<lambda>l. \<lparr>aw_entries = el_parsed l, aw_duplicates_collapsed = el_duplicates l\<rparr>)
            (load_entries u raws no_entries)
      | _ \<Rightarrow> allowlist_error)"

definition allowlist_from_mapping :: "unicode_services \<Rightarrow> json \<Rightarrow> py_exn + allowlist" where
  "allowlist_from_mapping u raw =
     (case raw of
        JObj kvs \<Rightarrow>
          if fst ` set kvs \<noteq> {''version'', ''entries''} then allowlist_error
          else if dict_get kvs ''version'' \<noteq> JStr ''allowlist.v1'' then allowlist_error
          else loaded_allowlist u (dict_get kvs ''entries'')
      | _ \<Rightarrow> allowlist_error)"

subsection \<open>The provider\<close>

definition match_payload :: "allowlist_entry option \<Rightarrow> (string, json) dict" where
  "match_payload m =
     (case m of
        None \<Rightarrow> [(''matched'', JBool False)]
      | Some e \<Rightarrow> [(''matched'', JBool True), (''entry_id'', JStr (ae_id e)), (''reason'', JStr (ae_reason e))])"

definition allowlist_provider :: "allowlist \<Rightarrow> 'w provider" where
  "allowlist_provider a =
     \<lparr>pv_name = ''allowlist'', pv_enabled = (aw_entries a \<noteq> []),
      pv_enrich = (\<lambda>iocs context w.
        (Inr \<lparr>pe_provider = ''allowlist'', pe_status = SKIPPED,
           pe_results = fold (\<lambda>i. AList.update (ioc_key i) (match_payload (allowlist_match a i))) iocs [],
           pe_notes = [''allowlist: local policy lookup, ''
             @ nat_str (length (filter (\<lambda>i. allowlist_match a i \<noteq> None) iocs)) @ '' matched of ''
             @ nat_str (length iocs) @ '' indicator(s); not an external intel source'']\<rparr>, w))\<rparr>"

subsection \<open>What a match means\<close>

definition covers :: "allowlist_entry \<Rightarrow> ioc \<Rightarrow> bool" where
  "covers e i \<longleftrightarrow>
     (case ae_network e of
        None \<Rightarrow> ae_type e = i_type i \<and> ae_value e = i_value i
      | Some w \<Rightarrow> i_type i = IPV4 \<and> (\<exists>ip. parse_ipv4 (i_value i) = Some ip \<and> in_network ip w))"

lemma entry_key_eq: "entry_key e = ioc_key i \<longleftrightarrow> ae_type e = i_type i \<and> ae_value e = i_value i"
  by (simp add: entry_key_def ioc_key_def append_sep_inject ioc_type_value_no_colon)

lemma network_index_set: "set (network_index es) = {(w, e). e \<in> set es \<and> ae_network e = Some w}"
  by (auto simp: network_index_def set_map_filter)

lemma match_iff_covered: "allowlist_match a i \<noteq> None \<longleftrightarrow> (\<exists>e \<in> set (aw_entries a). covers e i)"
proof -
  have exact: "map_of (exact_index (aw_entries a)) (ioc_key i) \<noteq> None \<longleftrightarrow>
      (\<exists>e \<in> set (aw_entries a). ae_network e = None \<and> covers e i)"
    unfolding exact_index_def dom_fold_update by (force simp: covers_def entry_key_eq [symmetric])
  have nets: "i_type i = IPV4 \<and> (\<exists>ip. parse_ipv4 (i_value i) = Some ip
        \<and> find (\<lambda>(w, e). in_network ip w) (network_index (aw_entries a)) \<noteq> None) \<longleftrightarrow>
      (\<exists>e \<in> set (aw_entries a). ae_network e \<noteq> None \<and> covers e i)"
    unfolding find_not_None network_index_set by (fastforce simp: covers_def)
  have "allowlist_match a i \<noteq> None \<longleftrightarrow> map_of (exact_index (aw_entries a)) (ioc_key i) \<noteq> None
      \<or> (i_type i = IPV4 \<and> (\<exists>ip. parse_ipv4 (i_value i) = Some ip
        \<and> find (\<lambda>(w, e). in_network ip w) (network_index (aw_entries a)) \<noteq> None))"
    by (auto simp: allowlist_match_def split: option.splits)
  then show ?thesis unfolding exact nets by blast
qed

lemma match_key:
  assumes "ioc_key i = ioc_key j"
  shows "allowlist_match a i = allowlist_match a j"
proof -
  have "i_type i = i_type j" "i_value i = i_value j" using assms by (simp_all add: ioc_key_eq_iff)
  then show ?thesis unfolding allowlist_match_def assms by (simp only:)
qed

subsection \<open>The provider in a chain\<close>

lemma apply_results_untouched:
  "key \<notin> fst ` set results \<Longrightarrow> map_of (fst (apply_results name results en)) key = map_of en key"
  by (induction name results en rule: apply_results.induct)
     (auto simp: Let_def update_conv split: option.splits prod.splits)

lemma apply_results_payload:
  "distinct (map fst results) \<Longrightarrow> map_of results key = Some pl \<Longrightarrow> map_of en key \<noteq> None \<Longrightarrow>
     payload_of (fst (apply_results name results en)) key name = Some (JObj pl)"
proof (induction name results en rule: apply_results.induct)
  case (2 name k payload results en)
  show ?case
  proof (cases "k = key")
    case True
    then obtain i where i: "map_of en key = Some i" using 2(5) by blast
    have "key \<notin> fst ` set results" using 2(3) True by simp
    from apply_results_untouched [OF this, of name "AList.update key (with_payload name payload i) en"]
    show ?thesis using i True 2(4)
      by (simp add: payload_of_def update_conv with_payload_def Let_def case_prod_beta)
  next
    case False
    show ?thesis
    proof (cases "map_of en k")
      case None
      with 2 False show ?thesis by simp
    next
      case (Some i)
      with 2(2) [OF Some] 2(3-5) False show ?thesis
        by (simp add: update_conv Let_def case_prod_beta)
    qed
  qed
qed simp

lemma chain_step_other:
  assumes "chain_step ordered context p (c, w) = (c', w')"
  shows "map fst (cs_enriched c') = map fst (cs_enriched c)
    \<and> (pv_name p \<noteq> name \<longrightarrow> payload_of (cs_enriched c') key name = payload_of (cs_enriched c) key name)"
proof -
  consider "cs_enriched c' = cs_enriched c"
    | r where "cs_enriched c' = fst (apply_results (pv_name p) r (cs_enriched c))"
    using assms by (auto simp: chain_step_def Let_def case_prod_beta split: if_splits sum.splits)
  then show ?thesis by cases (simp_all add: apply_results_keys apply_results_other)
qed

lemma chain_fold_other:
  "fold (chain_step ordered context) ps (c, w) = (c', w') \<Longrightarrow>
     map fst (cs_enriched c') = map fst (cs_enriched c)
     \<and> (name \<notin> pv_name ` set ps \<longrightarrow> payload_of (cs_enriched c') key name = payload_of (cs_enriched c) key name)"
proof (induction ps arbitrary: c w)
  case (Cons p ps)
  obtain c1 w1 where step: "chain_step ordered context p (c, w) = (c1, w1)"
    by (cases "chain_step ordered context p (c, w)")
  have "fold (chain_step ordered context) ps (c1, w1) = (c', w')" using Cons.prems by (simp add: step)
  from Cons.IH [OF this] chain_step_other [OF step, of name key] show ?case by auto
qed simp

lemma keyed_enriched:
  assumes "chain_enrich ps iocs context w = (out, w')" "distinct (map ioc_key iocs)" "iocs \<noteq> []"
  obtains c ordered ctx where "fold (chain_step ordered ctx) ps
      (\<lparr>cs_enriched = map (\<lambda>i. (ioc_key i, i)) ordered, cs_outcomes = [], cs_statuses = []\<rparr>, w) = (c, w')"
    "ordered = sort_key ioc_sort_key iocs" "distinct (map ioc_key ordered)"
    "set (eo_iocs out) = snd ` set (cs_enriched c)"
proof -
  define ordered where "ordered = sort_key ioc_sort_key iocs"
  have d: "distinct (map ioc_key ordered)" using assms(2) by (simp add: ordered_def distinct_map)
  have ne: "ordered \<noteq> []" using assms(3) by (metis ordered_def set_empty set_sort)
  let ?ctx = "case context of None \<Rightarrow> empty_context | Some x \<Rightarrow> x"
  let ?c0 = "\<lparr>cs_enriched = keyed ordered, cs_outcomes = [], cs_statuses = []\<rparr>"
  obtain c w1 where fold: "fold (chain_step ordered ?ctx) ps (?c0, w) = (c, w1)"
    by (cases "fold (chain_step ordered ?ctx) ps (?c0, w)")
  with assms(1) ne have out: "out = \<lparr>eo_status = aggregate (cs_statuses c),
        eo_iocs = sort_key ioc_sort_key (map snd (cs_enriched c)), eo_providers = cs_outcomes c\<rparr>" "w1 = w'"
    by (simp_all add: chain_enrich_def Let_def ordered_def)
  have "set (eo_iocs out) = snd ` set (cs_enriched c)" unfolding out by simp
  from that [OF _ ordered_def d this] show ?thesis using fold unfolding out(2) keyed_distinct_keys [OF d] by blast
qed

lemma chain_entries:
  assumes "fold (chain_step ordered ctx) ps
      (\<lparr>cs_enriched = map (\<lambda>i. (ioc_key i, i)) ordered, cs_outcomes = [], cs_statuses = []\<rparr>, w) = (c, w')"
    and d: "distinct (map ioc_key ordered)" and j: "(k, j) \<in> set (cs_enriched c)"
  shows "k = ioc_key j" "map_of (cs_enriched c) k = Some j" "\<exists>i \<in> set ordered. ioc_key i = ioc_key j"
proof -
  let ?en = "map (\<lambda>i. (ioc_key i, i)) ordered"
  have dk: "distinct (map fst ?en)" using d by (simp add: comp_def)
  have "chain_inv ?en [] \<lparr>cs_enriched = ?en, cs_outcomes = [], cs_statuses = []\<rparr>" by (simp add: chain_inv_def)
  from chain_fold_inv [OF this dk assms(1)] have inv: "map fst (cs_enriched c) = map fst ?en"
      "map (bare \<circ> snd) (cs_enriched c) = map bare ordered" by (simp_all add: chain_inv_def comp_def)
  then have keys: "map fst (cs_enriched c) = map (ioc_key \<circ> snd) (cs_enriched c)"
    using bare_same_keys(2) [OF inv(2)] by (simp add: comp_def)
  then show k: "k = ioc_key j" using j by (auto simp: map_eq_conv)
  show "map_of (cs_enriched c) k = Some j" using j dk inv(1) by (metis map_of_is_SomeI)
  have "fst ` set (cs_enriched c) = fst ` set ?en" using inv(1) by (metis set_map)
  moreover have "k \<in> fst ` set (cs_enriched c)" using j by force
  ultimately have "k \<in> fst ` set ?en" by simp
  then show "\<exists>i \<in> set ordered. ioc_key i = ioc_key j" using k by auto
qed

lemma covers_spelt:
  "covers e i \<longleftrightarrow>
     (ae_network e = None \<and> ae_type e = i_type i \<and> ae_value e = i_value i)
     \<or> (\<exists>n ip. ae_network e = Some n \<and> i_type i = IPV4 \<and> parse_ipv4 (i_value i) = Some ip \<and> in_network ip n)"
  by (cases "ae_network e") (auto simp: covers_def split: option.splits)

lemma allowlisted_payload:
  "map_of en k = Some j \<Longrightarrow> ioc_is_allowlisted j \<longleftrightarrow>
     (case payload_of en k ''allowlist'' of Some (JObj kvs) \<Rightarrow> json_truthy (dict_get kvs ''matched'') | _ \<Rightarrow> False)"
  by (auto simp: ioc_is_allowlisted_def payload_of_def dict_get_def split: option.split json.split)

lemma allowlist_step:
  assumes "chain_step ordered ctx (allowlist_provider a) (c, w) = (c', w')" "aw_entries a \<noteq> []"
    and "distinct (map ioc_key ordered)" "i \<in> set ordered" "map_of (cs_enriched c) (ioc_key i) \<noteq> None"
  shows "payload_of (cs_enriched c') (ioc_key i) ''allowlist'' = Some (JObj (match_payload (allowlist_match a i)))"
proof -
  let ?r = "fold (\<lambda>i. AList.update (ioc_key i) (match_payload (allowlist_match a i))) ordered []"
  have r: "cs_enriched c' = fst (apply_results ''allowlist'' ?r (cs_enriched c))"
    using assms(1,2) by (auto simp: chain_step_def allowlist_provider_def Let_def case_prod_beta)
  have d: "distinct (map fst ?r)"
    by (rule fold_invariant [where P = "\<lambda>al. distinct (map fst al)" and Q = "\<lambda>_. True"]) (simp_all add: distinct_update)
  have m: "map_of (fold (\<lambda>i. AList.update (ioc_key i) (match_payload (allowlist_match a i))) xs al) (ioc_key i) =
      (if ioc_key i \<in> ioc_key ` set xs then Some (match_payload (allowlist_match a i)) else map_of al (ioc_key i))" for xs al
    by (induction xs arbitrary: al) (auto simp: update_conv dest: match_key [of _ _ a])
  have "map_of ?r (ioc_key i) = Some (match_payload (allowlist_match a i))" using m [of ordered "[]"] assms(4) by simp
  from apply_results_payload [OF d this assms(5)] show ?thesis unfolding r .
qed

subsection \<open>Property\<close>


definition lab_allowlist :: json where
  "lab_allowlist = JObj [(''version'', JStr ''allowlist.v1''), (''entries'', JList
     [JObj [(''id'', JStr ''lab''), (''type'', JStr ''ipv4''), (''value'', JStr ''203.0.113.9/255.255.255.0'')]])]"


end
