(* ===== verification/Notification_Payload.thy ===== *)
theory Notification_Payload
  imports Alert_Model Calendar Ioc_Normalize Intel_Providers
begin

text \<open>
  notifications/payload.py: the payload of a notification, the second sanitising of provider
  payloads, the builder and its final check. The text of a float (\<open>repr\<close>) is the parameter
  \<open>float_text\<close>; \<open>model_dump\<close> is \<open>payload_dump\<close>.
\<close>

subsection \<open>The payload\<close>

record rule_info =
  ri_id :: string
  ri_level :: int
  ri_description :: string
  ri_groups :: "string list"
  ri_mitre :: "(string, json) dict"

record agent_info =
  ai_id :: string
  ai_name :: string
  ai_ip :: "string option"

record recurrence_info =
  rc_group_key :: string
  rc_occurrences :: nat
  rc_generation :: nat
  rc_first_seen :: "string option"
  rc_last_seen :: "string option"
  rc_duplicate_deliveries :: nat
  rc_dedupe_status :: string
  rc_event_identity :: "string option"

record ioc_summary =
  is_type :: string
  is_value :: string
  is_enrichment :: "(string, json) dict"

record enrichment_summary =
  es_status :: string
  es_providers :: "json list"
  es_ioc_count :: nat

record decision_info =
  di_action :: string
  di_severity :: "string option"
  di_reasons :: "string list"
  di_runbook :: "string option"
  di_decided_at :: "string option"

record risk_info =
  rk_score :: int
  rk_tier :: string
  rk_engine_version :: string
  rk_factors :: "json list"
  rk_summary :: string
  rk_degraded :: bool

record investigation_links =
  il_alert_api :: string
  il_alert_console :: "string option"
  il_runbook :: "string option"
  il_feedback_url :: "string option"

record n8n_payload =
  np_alert_id :: string
  np_received_at :: string
  np_source :: string
  np_risk :: risk_info
  np_decision :: decision_info
  np_rule :: rule_info
  np_agent :: agent_info
  np_asset :: "(string, json) dict option"
  np_recurrence :: recurrence_info
  np_iocs :: "ioc_summary list"
  np_enrichment :: enrichment_summary
  np_investigation_links :: investigation_links
  np_severity :: string
  np_score :: int
  np_dedupe_status :: string

subsection \<open>Its dump\<close>

definition jstrs :: "string list \<Rightarrow> json" where
  "jstrs ss = JList (map JStr ss)"

definition rule_info_dump :: "rule_info \<Rightarrow> json" where
  "rule_info_dump r = JObj [(''id'', JStr (ri_id r)), (''level'', JInt (ri_level r)),
     (''description'', JStr (ri_description r)), (''groups'', jstrs (ri_groups r)), (''mitre'', JObj (ri_mitre r))]"

definition agent_info_dump :: "agent_info \<Rightarrow> json" where
  "agent_info_dump g = JObj [(''id'', JStr (ai_id g)), (''name'', JStr (ai_name g)), (''ip'', str_or_null (ai_ip g))]"

definition recurrence_dump :: "recurrence_info \<Rightarrow> json" where
  "recurrence_dump r = JObj [(''group_key'', JStr (rc_group_key r)), (''occurrences'', jnat (rc_occurrences r)),
     (''generation'', jnat (rc_generation r)), (''first_seen'', str_or_null (rc_first_seen r)),
     (''last_seen'', str_or_null (rc_last_seen r)), (''duplicate_deliveries'', jnat (rc_duplicate_deliveries r)),
     (''dedupe_status'', JStr (rc_dedupe_status r)), (''event_identity'', str_or_null (rc_event_identity r))]"

definition ioc_summary_dump :: "ioc_summary \<Rightarrow> json" where
  "ioc_summary_dump i = JObj [(''type'', JStr (is_type i)), (''value'', JStr (is_value i)),
     (''enrichment'', JObj (is_enrichment i))]"

definition enrichment_dump :: "enrichment_summary \<Rightarrow> json" where
  "enrichment_dump e = JObj [(''status'', JStr (es_status e)), (''providers'', JList (es_providers e)),
     (''ioc_count'', jnat (es_ioc_count e))]"

definition decision_info_dump :: "decision_info \<Rightarrow> json" where
  "decision_info_dump d = JObj [(''action'', JStr (di_action d)), (''severity'', str_or_null (di_severity d)),
     (''reasons'', jstrs (di_reasons d)), (''runbook'', str_or_null (di_runbook d)),
     (''decided_at'', str_or_null (di_decided_at d))]"

definition risk_info_dump :: "risk_info \<Rightarrow> json" where
  "risk_info_dump r = JObj [(''score'', JInt (rk_score r)), (''tier'', JStr (rk_tier r)),
     (''engine_version'', JStr (rk_engine_version r)), (''factors'', JList (rk_factors r)),
     (''summary'', JStr (rk_summary r)), (''degraded'', JBool (rk_degraded r))]"

definition links_dump :: "investigation_links \<Rightarrow> json" where
  "links_dump l = JObj [(''alert_api'', JStr (il_alert_api l)), (''alert_console'', str_or_null (il_alert_console l)),
     (''runbook'', str_or_null (il_runbook l)), (''feedback_url'', str_or_null (il_feedback_url l)),
     (''ioc_links'', JObj [])]"

definition payload_dump :: "n8n_payload \<Rightarrow> json" where
  "payload_dump p = JObj
     [(''alert_id'', JStr (np_alert_id p)), (''received_at'', JStr (np_received_at p)), (''source'', JStr (np_source p)),
      (''risk'', risk_info_dump (np_risk p)), (''decision'', decision_info_dump (np_decision p)),
      (''rule'', rule_info_dump (np_rule p)), (''agent'', agent_info_dump (np_agent p)),
      (''asset'', obj_or_null (np_asset p)), (''recurrence'', recurrence_dump (np_recurrence p)),
      (''iocs'', JList (map ioc_summary_dump (np_iocs p))), (''enrichment'', enrichment_dump (np_enrichment p)),
      (''investigation_links'', links_dump (np_investigation_links p)), (''severity'', JStr (np_severity p)),
      (''score'', JInt (np_score p)), (''dedupe_status'', JStr (np_dedupe_status p))]"

subsection \<open>The final check\<close>

definition mentions_full_log :: "(json \<Rightarrow> string) \<Rightarrow> json \<Rightarrow> bool" where
  "mentions_full_log float_text data \<longleftrightarrow> occurs ''full_log'' (lower (json_repr float_text data))"

definition model_dump_sanitized :: "(json \<Rightarrow> string) \<Rightarrow> n8n_payload \<Rightarrow> py_exn + json" where
  "model_dump_sanitized float_text p =
     (if mentions_full_log float_text (payload_dump p) then Inl (OtherError ''AssertionError'')
      else Inr (payload_dump p))"

subsection \<open>Sanitising provider payloads\<close>

definition payload_allowed_keys :: "string list" where
  "payload_allowed_keys = [''provider'', ''indicator_type'', ''lookup_status'', ''timestamp'', ''result'', ''reputation'',
     ''malicious'', ''suspicious'', ''harmless'', ''undetected'', ''matched'', ''matched_event_ids'', ''tags'',
     ''threat_level'', ''classification'']"

definition truncated :: "json \<Rightarrow> json" where
  "truncated v =
     (case v of
        JStr s \<Rightarrow> if 500 < utf8_length s then JStr (utf8_take 500 s @ ''...[truncated]'') else v
      | _ \<Rightarrow> v)"

definition nested_allowed :: "(string, json) dict \<Rightarrow> (string, json) dict" where
  "nested_allowed kvs = map (\<lambda>(k, v). (k, truncated v)) (filter (\<lambda>(k, v). k \<in> set payload_allowed_keys) kvs)"

definition sanitize_inner :: "string \<times> json \<Rightarrow> (string \<times> json) option" where
  "sanitize_inner = (\<lambda>(k, v).
     if k \<in> set payload_allowed_keys then Some (k, truncated v)
     else (case v of
         JObj kvs \<Rightarrow> if nested_allowed kvs = [] then None else Some (k, JObj (nested_allowed kvs))
       | _ \<Rightarrow> None))"

definition sanitize_entry :: "string \<times> json \<Rightarrow> (string \<times> json) option" where
  "sanitize_entry = (\<lambda>(k, v).
     case v of
       JObj kvs \<Rightarrow>
         (let inner = List.map_filter sanitize_inner kvs in if inner = [] then None else Some (k, JObj inner))
     | JBool _ \<Rightarrow> Some (k, v)
     | JInt _ \<Rightarrow> Some (k, v)
     | JFloat _ _ \<Rightarrow> Some (k, v)
     | JInf _ \<Rightarrow> Some (k, v)
     | JNaN \<Rightarrow> Some (k, v)
     | JStr s \<Rightarrow> if utf8_length s \<le> 200 then Some (k, v) else None
     | _ \<Rightarrow> None)"

definition sanitize_enrichment :: "(string, json) dict \<Rightarrow> (string, json) dict" where
  "sanitize_enrichment enrichment = List.map_filter sanitize_entry enrichment"

subsection \<open>The builder\<close>

definition build_ioc_summary :: "ioc \<Rightarrow> ioc_summary" where
  "build_ioc_summary i = \<lparr>is_type = ioc_type_value (i_type i), is_value = i_value i,
     is_enrichment = sanitize_enrichment (i_enrichment i)\<rparr>"

definition recurrence_of :: "canonical_dedupe option \<Rightarrow> string \<Rightarrow> recurrence_info" where
  "recurrence_of dedupe status =
     (case dedupe of
        None \<Rightarrow> \<lparr>rc_group_key = [], rc_occurrences = 1, rc_generation = 1, rc_first_seen = None, rc_last_seen = None,
          rc_duplicate_deliveries = 0, rc_dedupe_status = status, rc_event_identity = None\<rparr>
      | Some d \<Rightarrow> \<lparr>rc_group_key = cd_group_key d, rc_occurrences = cd_occurrences d, rc_generation = cd_generation d,
          rc_first_seen = Some (isoformat (cd_first_seen d)), rc_last_seen = Some (isoformat (cd_last_seen d)),
          rc_duplicate_deliveries = 0, rc_dedupe_status = status, rc_event_identity = cd_event_identity d\<rparr>)"

definition factor_entry :: "score_factor \<Rightarrow> json" where
  "factor_entry f = JObj [(''name'', JStr (f_name f)), (''points'', JInt (f_points f)), (''max'', JInt (f_max f)),
     (''detail'', JStr (f_detail f))]"

text \<open>The runbook link: a relative path is made absolute when there is a base.\<close>

definition runbook_link :: "string \<Rightarrow> string option \<Rightarrow> string option" where
  "runbook_link base runbook =
     (case runbook of
        None \<Rightarrow> None
      | Some r \<Rightarrow>
          if r \<noteq> [] \<and> base \<noteq> [] \<and> \<not> starts_with ''http'' r
          then Some (base @ ''/'' @ dropWhile (\<lambda>c. c = CHR ''/'') r) else Some r)"

definition links_of :: "string \<Rightarrow> uuid \<Rightarrow> string option \<Rightarrow> investigation_links" where
  "links_of base alert_id runbook =
     \<lparr>il_alert_api = base @ ''/api/v1/alerts/'' @ uuid_str alert_id,
      il_alert_console = (if base = [] then None else Some (base @ ''/alerts/'' @ uuid_str alert_id)),
      il_runbook = runbook_link base runbook,
      il_feedback_url = Some (base @ ''/api/v1/alerts/'' @ uuid_str alert_id @ ''/feedback'')\<rparr>"

definition assembled_payload ::
  "canonical_alert \<Rightarrow> risk_assessment \<Rightarrow> decision \<Rightarrow> string \<Rightarrow> string \<Rightarrow> n8n_payload" where
  "assembled_payload alert risk d dedupe_status base =
     (let se = c_source_event alert in
      \<lparr>np_alert_id = uuid_str (c_alert_id alert), np_received_at = isoformat (c_received_at alert),
       np_source = c_source alert,
       np_risk = \<lparr>rk_score = r_score risk, rk_tier = risk_tier_value (r_tier risk),
         rk_engine_version = r_engine_version risk, rk_factors = map factor_entry (r_factors risk),
         rk_summary = r_summary risk, rk_degraded = r_degraded risk\<rparr>,
       np_decision = \<lparr>di_action = decision_action_value (d_action d),
         di_severity = map_option decision_severity_value (d_severity d), di_reasons = d_reasons d,
         di_runbook = d_runbook d, di_decided_at = Some (isoformat (d_decided_at d))\<rparr>,
       np_rule = \<lparr>ri_id = rule_id (se_rule se), ri_level = rule_level (se_rule se),
         ri_description = rule_description (se_rule se), ri_groups = rule_groups (se_rule se),
         ri_mitre = rule_mitre (se_rule se)\<rparr>,
       np_agent = \<lparr>ai_id = agent_id (se_agent se), ai_name = agent_name (se_agent se), ai_ip = agent_ip (se_agent se)\<rparr>,
       np_asset = map_option (\<lambda>a. [(''name'', str_or_null (asset_name a)), (''tier'', str_or_null (asset_tier a)),
         (''owner'', str_or_null (asset_owner a))]) (c_asset alert),
       np_recurrence = recurrence_of (c_dedupe alert) dedupe_status,
       np_iocs = map build_ioc_summary (c_iocs alert),
       np_enrichment = \<lparr>es_status = (case c_enrichment_status alert of None \<Rightarrow> ''skipped''
           | Some s \<Rightarrow> if s = [] then ''skipped'' else s), es_providers = [], es_ioc_count = length (c_iocs alert)\<rparr>,
       np_investigation_links = links_of base (c_alert_id alert) (d_runbook d),
       np_severity = risk_tier_value (r_tier risk), np_score = r_score risk, np_dedupe_status = dedupe_status\<rparr>)"

definition build_n8n_payload ::
  "(json \<Rightarrow> string) \<Rightarrow> canonical_alert \<Rightarrow> string \<Rightarrow> string option \<Rightarrow> py_exn + n8n_payload" where
  "build_n8n_payload float_text alert dedupe_status base_url =
     (case (c_risk alert, c_decision alert) of
        (Some risk, Some d) \<Rightarrow>
          (let base = rstrip_of (\<lambda>c. c = CHR ''/'') (case base_url of None \<Rightarrow> [] | Some b \<Rightarrow> b);
               p = assembled_payload alert risk d dedupe_status base in
           then_ok (model_dump_sanitized float_text p) (\<lambda>_. Inr p))
      | _ \<Rightarrow> Inl ValueError)"

subsection \<open>Facts\<close>

lemma occurs_lower_within: "occurs needle (lower s) \<Longrightarrow> occurs needle (lower (a @ s @ b))"
  using occurs_within [of needle "lower s" "lower a" "lower b"] by simp

lemma occurs_in_list:
  assumes "v \<in> set vs" "occurs needle (lower (json_repr ft v))"
  shows "occurs needle (lower (json_repr ft (JList vs)))"
proof -
  from assms(1) have "json_repr ft v \<in> set (map (json_repr ft) vs)" by simp
  from in_join [OF this, of "'', ''"] obtain a b where
    "join '', '' (map (json_repr ft) vs) = a @ json_repr ft v @ b" by blast
  then have "json_repr ft (JList vs) = (''['' @ a) @ json_repr ft v @ (b @ '']'')" by simp
  with assms(2) show ?thesis by (metis occurs_lower_within)
qed

lemma occurs_in_object:
  assumes "(k, v) \<in> set kvs" "occurs needle (lower (json_repr ft v))"
  shows "occurs needle (lower (json_repr ft (JObj kvs)))"
proof -
  let ?f = "\<lambda>(k, v). py_repr k @ '': '' @ json_repr ft v"
  have "py_repr k @ '': '' @ json_repr ft v \<in> set (map ?f kvs)" using assms(1) by force
  from in_join [OF this, of "'', ''"] obtain a b where
    "join '', '' (map ?f kvs) = a @ (py_repr k @ '': '' @ json_repr ft v) @ b" by blast
  then have "json_repr ft (JObj kvs) = (''{'' @ a @ py_repr k @ '': '') @ json_repr ft v @ (b @ ''}'')" by simp
  with assms(2) show ?thesis by (metis occurs_lower_within)
qed

text \<open>Letters and underscores are not escaped by \<open>repr\<close>.\<close>

lemma lower_char_code:
  "of_char (lower_char c) = (let n = of_char c :: nat in if 65 \<le> n \<and> n \<le> 90 then n + 32 else n)"
  by (simp add: lower_char_def Let_def take_bit_eq_mod)

lemma repr_plain:
  assumes "lower_char c \<in> set ''full_log''" "q = CHR 0x27 \<or> q = CHR 0x22"
  shows "repr_char q c = [c]"
proof -
  define n :: nat where "n = of_char c"
  have "(of_char (lower_char c) :: nat) \<in> {102, 117, 108, 95, 111, 103}" using assms(1) by auto
  then have n: "65 \<le> n" "n \<noteq> 92" "n < 127"
    unfolding lower_char_code n_def [symmetric] Let_def by (auto split: if_splits)
  have "(of_char (CHR 0x27) :: nat) = 39" "(of_char (CHR 0x22) :: nat) = 34" by simp_all
  then have "c \<noteq> q" using assms(2) n(1) unfolding n_def by auto
  then show ?thesis using n unfolding repr_char_def n_def [symmetric] Let_def by simp
qed

lemma occurs_escaped:
  assumes "occurs p (lower s)" "\<And>c q. lower_char c \<in> set p \<Longrightarrow> q = CHR 0x27 \<or> q = CHR 0x22 \<Longrightarrow> repr_char q c = [c]"
  shows "occurs p (lower (py_repr s))"
proof -
  from assms(1) obtain x y where xy: "map lower_char s = x @ (p @ y)" unfolding occurs_iff lower_def by blast
  obtain a r where ar: "s = a @ r" "map lower_char r = p @ y" by (metis xy map_eq_append_conv)
  obtain m b where mb: "r = m @ b" "map lower_char m = p" by (metis ar(2) map_eq_append_conv)
  have s: "s = a @ m @ b" and m: "lower m = p" unfolding lower_def using ar(1) mb by simp_all
  define q where "q = (if CHR 0x27 \<in> set s \<and> CHR 0x22 \<notin> set s then CHR 0x22 else CHR 0x27)"
  have codes: "char_of (39::nat) = CHR 0x27" "char_of (34::nat) = CHR 0x22" by code_simp+
  have repr: "py_repr s = q # concat (map (repr_char q) s) @ [q]"
    unfolding py_repr_def Let_def codes q_def by (rule refl)
  have "q = CHR 0x27 \<or> q = CHR 0x22" by (simp add: q_def)
  then have "\<forall>c \<in> set m. repr_char q c = [c]" using assms(2) [of _ q] by (simp add: mb(2) [symmetric])
  then have "concat (map (repr_char q) m) = m" by (induction m) auto
  then have "py_repr s = (q # concat (map (repr_char q) a)) @ m @ (concat (map (repr_char q) b) @ [q])"
    unfolding repr by (simp add: s)
  moreover have "occurs p (lower m)" unfolding m occurs_iff by (metis append_Nil append_Nil2)
  ultimately show ?thesis using occurs_lower_within by metis
qed

lemma occurs_in_repr: "occurs ''full_log'' (lower s) \<Longrightarrow> occurs ''full_log'' (lower (py_repr s))"
  by (rule occurs_escaped) (simp_all add: repr_plain)

lemma occurs_in_text: "occurs ''full_log'' (lower s) \<Longrightarrow> occurs ''full_log'' (lower (json_repr ft (JStr s)))"
  by (simp add: occurs_in_repr)

lemma description_occurs:
  assumes "occurs ''full_log'' (lower (ri_description (np_rule p)))"
  shows "mentions_full_log ft (payload_dump p)"
  unfolding mentions_full_log_def payload_dump_def
proof (rule occurs_in_object [where k = "''rule''"])
  show "occurs ''full_log'' (lower (json_repr ft (rule_info_dump (np_rule p))))"
    unfolding rule_info_dump_def by (rule occurs_in_object [where k = "''description''", OF _ occurs_in_text [OF assms]]) simp
qed simp

lemma indicator_occurs:
  assumes "i \<in> set (np_iocs p)" "occurs ''full_log'' (lower (is_value i))"
  shows "mentions_full_log ft (payload_dump p)"
  unfolding mentions_full_log_def payload_dump_def
proof (rule occurs_in_object [where k = "''iocs''"])
  have "occurs ''full_log'' (lower (json_repr ft (ioc_summary_dump i)))"
    unfolding ioc_summary_dump_def by (rule occurs_in_object [where k = "''value''", OF _ occurs_in_text [OF assms(2)]]) simp
  then show "occurs ''full_log'' (lower (json_repr ft (JList (map ioc_summary_dump (np_iocs p)))))"
    using assms(1) by (intro occurs_in_list [of "ioc_summary_dump i"]) auto
qed simp

text \<open>What is forwarded of a provider's payload, two levels down, has an allow-listed key.\<close>

lemma sanitized_keys:
  assumes "(name, JObj inner) \<in> set (sanitize_enrichment enrichment)" "(k, v) \<in> set inner"
  shows "k \<in> set payload_allowed_keys \<or> (\<exists>kvs. v = JObj kvs \<and> fst ` set kvs \<subseteq> set payload_allowed_keys)"
proof -
  obtain kvs where "inner = List.map_filter sanitize_inner kvs"
    using assms(1) by (auto simp: sanitize_enrichment_def set_map_filter sanitize_entry_def Let_def
      split: json.splits if_splits)
  with assms(2) obtain x where "sanitize_inner x = Some (k, v)" by (auto simp: set_map_filter)
  then obtain k' w where "sanitize_inner (k', w) = Some (k, v)" by (metis prod.collapse)
  then show ?thesis by (auto simp: sanitize_inner_def nested_allowed_def split: json.splits if_splits)
qed

lemma assembled_payload_raw:
  "assembled_payload
     (alert\<lparr>c_source_event := (c_source_event alert)\<lparr>se_full_log := l, se_location := place, se_data := data,
         se_syscheck := syscheck\<rparr>,
       c_iocs := map (\<lambda>i. i\<lparr>i_provenance := evidence i\<rparr>) (c_iocs alert)\<rparr>) risk d dedupe_status base
   = assembled_payload alert risk d dedupe_status base"
  unfolding assembled_payload_def Let_def by (simp add: build_ioc_summary_def comp_def)

subsection \<open>Properties\<close>

text \<open>
  C33. Nothing of the raw event reaches n8n: the payload, and whether it can be built, do not depend on
  the alert's full log, location, data block, syscheck block or on where its indicators were found.
\<close>

theorem payload_hides_raw_event:
  "build_n8n_payload float_text
     (alert\<lparr>c_source_event := (c_source_event alert)\<lparr>se_full_log := l, se_location := place, se_data := data,
         se_syscheck := syscheck\<rparr>,
       c_iocs := map (\<lambda>i. i\<lparr>i_provenance := evidence i\<rparr>) (c_iocs alert)\<rparr>) dedupe_status base
   = build_n8n_payload float_text alert dedupe_status base"
  unfolding build_n8n_payload_def assembled_payload_raw by simp

text \<open>
  C37. The final check looks for the text \<open>full_log\<close> anywhere in the payload, so an alert that merely
  mentions it, in its rule's description or in an indicator's value, cannot be notified at all:
  the builder raises whatever the risk and the decision.
\<close>

theorem full_log_mention_blocks:
  assumes "c_risk alert = Some risk" "c_decision alert = Some d" "occurs ''full_log'' (lower t)"
    and "t = rule_description (se_rule (c_source_event alert)) \<or> t \<in> i_value ` set (c_iocs alert)"
  shows "build_n8n_payload float_text alert dedupe_status base = Inl (OtherError ''AssertionError'')"
proof -
  let ?p = "\<lambda>b. assembled_payload alert risk d dedupe_status b"
  have "mentions_full_log float_text (payload_dump (?p b))" for b
  proof (cases "t = rule_description (se_rule (c_source_event alert))")
    case True
    then show ?thesis using assms(3) by (intro description_occurs) (simp add: assembled_payload_def Let_def)
  next
    case False
    then obtain i where "i \<in> set (c_iocs alert)" "t = i_value i" using assms(4) by auto
    then have "build_ioc_summary i \<in> set (np_iocs (?p b))" "occurs ''full_log'' (lower (is_value (build_ioc_summary i)))"
      using assms(3) by (simp_all add: assembled_payload_def build_ioc_summary_def Let_def)
    then show ?thesis by (rule indicator_occurs)
  qed
  then show ?thesis using assms(1,2) by (simp add: build_n8n_payload_def model_dump_sanitized_def Let_def)
qed

definition mentioning_alert :: canonical_alert where
  "mentioning_alert = \<lparr>c_alert_id = 1, c_source = ''wazuh'', c_received_at = 0,
     c_source_event = \<lparr>se_rule = \<lparr>rule_id = ''1'', rule_level = 12, rule_description = ''Field full_log missing'',
         rule_groups = [], rule_mitre = []\<rparr>,
       se_agent = \<lparr>agent_id = ''1'', agent_name = ''a'', agent_ip = None\<rparr>, se_location = None, se_full_log = None,
       se_data = [], se_syscheck = []\<rparr>,
     c_dedupe = None, c_iocs = [], c_asset = None, c_enrichment_status = None,
     c_risk = Some \<lparr>r_score = 90, r_tier = CRITICAL, r_engine_version = ''v1'', r_factors = [], r_summary = [],
       r_degraded = False\<rparr>,
     c_decision = Some \<lparr>d_action = OPEN_INCIDENT, d_severity = Some SEV1, d_reasons = [], d_runbook = None,
       d_decided_at = 0\<rparr>\<rparr>"

theorem full_log_mention_blocks_witness:
  "build_n8n_payload (\<lambda>_. []) mentioning_alert ''new_generation'' None = Inl (OtherError ''AssertionError'')"
proof (rule full_log_mention_blocks)
  show "occurs ''full_log'' (lower ''Field full_log missing'')" by code_simp
qed (simp_all add: mentioning_alert_def)

end
