(* ===== verification/Notification_Client.thy ===== *)
theory Notification_Client
  imports Notification_Payload
begin

text \<open>
  notifications/client.py: the webhook client with its retries. What the endpoint answers to each
  post and what the monotonic clock reads are lists of the world; posts and pauses are logged in it.
  A pause is logged at its full length, the code waits a random part of it from half to all. Times are
  microseconds. The hash of a payload's dump is the parameter \<open>digest\<close>.
\<close>

subsection \<open>The world of the client\<close>

text \<open>
  A response with its status and \<open>Retry-After\<close> header; an exception of \<open>_RETRYABLE_EXCEPTIONS\<close>,
  another \<open>httpx.HTTPError\<close>, or an exception of no such class, each by its class name.
\<close>

datatype post_answer =
    Answered nat "string option"
  | Network_error string
  | Http_exception string
  | Foreign_exception string

type_synonym n8n_request = "string \<times> (string, string) dict \<times> json"

record n8n_world =
  nw_answers :: "post_answer list"
  nw_clock :: "int list"
  nw_posts :: "n8n_request list"
  nw_pauses :: "int list"

definition monotonic :: "n8n_world \<Rightarrow> int \<times> n8n_world" where
  "monotonic w = (next_or 0 (nw_clock w), w\<lparr>nw_clock := tl (nw_clock w)\<rparr>)"

definition post :: "n8n_request \<Rightarrow> n8n_world \<Rightarrow> post_answer \<times> n8n_world" where
  "post req w = (next_or (Network_error ''ConnectTimeout'') (nw_answers w),
     w\<lparr>nw_answers := tl (nw_answers w), nw_posts := nw_posts w @ [req]\<rparr>)"

text \<open>\<open>time.sleep\<close> refuses a negative pause.\<close>

definition sleep_for :: "int \<Rightarrow> n8n_world \<Rightarrow> (string + unit) \<times> n8n_world" where
  "sleep_for delay w =
     (if delay < 0 then (Inl ''ValueError'', w) else (Inr (), w\<lparr>nw_pauses := nw_pauses w @ [delay]\<rparr>))"

subsection \<open>The client\<close>

record n8n_client =
  nc_webhook_url :: string
  nc_token :: string
  nc_max_retries :: nat
  nc_backoff :: int
  nc_enabled :: bool

definition make_n8n_client :: "string \<Rightarrow> string \<Rightarrow> nat \<Rightarrow> int \<Rightarrow> bool option \<Rightarrow> n8n_client" where
  "make_n8n_client webhook_url token max_retries backoff enabled =
     (let url = strip webhook_url in
      \<lparr>nc_webhook_url = url, nc_token = strip token, nc_max_retries = max 1 max_retries, nc_backoff = backoff,
       nc_enabled = (case enabled of None \<Rightarrow> url \<noteq> [] | Some b \<Rightarrow> b \<and> url \<noteq> [])\<rparr>)"

definition n8n_headers :: "n8n_client \<Rightarrow> (string, string) dict" where
  "n8n_headers c =
     (''Content-Type'', ''application/json'')
     # (if nc_token c = [] then []
        else [(''X-N8N-Token'', nc_token c), (''Authorization'', ''Bearer '' @ nc_token c),
              (''X-Callback-Token'', nc_token c)])"

record notification_result =
  nr_alert_id :: string
  nr_attempted :: bool
  nr_delivered :: bool
  nr_skipped :: bool
  nr_status_code :: "nat option"
  nr_error_type :: "string option"
  nr_attempts :: nat
  nr_duration_ms :: int
  nr_webhook_host :: "string option"
  nr_payload_hash :: string

definition payload_hash :: "(json \<Rightarrow> string) \<Rightarrow> n8n_payload \<Rightarrow> string" where
  "payload_hash digest p = take 16 (digest (sort_keys (payload_dump p)))"

definition webhook_host :: "unicode_services \<Rightarrow> string \<Rightarrow> string option" where
  "webhook_host u url =
     (case urlsplit u url of
        None \<Rightarrow> None
      | Some parts \<Rightarrow> if url_hostname parts = [] then None else Some (url_hostname parts))"

subsection \<open>Posting with retries\<close>

definition n8n_retryable_status :: "nat set" where
  "n8n_retryable_status = {429, 500, 502, 503, 504}"

definition max_pause :: int where
  "max_pause = seconds 8"

text \<open>The delay once the header is honoured; \<open>float(int(header))\<close> overflows on a huge number.\<close>

definition honoured :: "string option \<Rightarrow> int \<Rightarrow> string + int" where
  "honoured retry_after delay =
     (case retry_after of
        None \<Rightarrow> Inr delay
      | Some raw \<Rightarrow>
          (case int_of_text raw of
             Inl _ \<Rightarrow> Inr delay
           | Inr n \<Rightarrow> if float_overflow \<le> \<bar>n\<bar> then Inl ''OverflowError'' else Inr (min (seconds n) max_pause)))"

text \<open>
  The loop over the attempts. The first argument counts those left, this one included; the result is
  whether the payload was delivered, the status, the error type and the number of attempts.
\<close>

fun post_loop :: "nat \<Rightarrow> n8n_request \<Rightarrow> nat \<Rightarrow> int \<Rightarrow> nat option \<Rightarrow> string option \<Rightarrow> n8n_world
    \<Rightarrow> (string + bool \<times> nat option \<times> string option \<times> nat) \<times> n8n_world" where
  "post_loop 0 req attempt delay last_status last_error w =
     (Inr (False, last_status, Some (case last_error of None \<Rightarrow> ''max_retries_exceeded'' | Some e \<Rightarrow> e), attempt - 1), w)"
| "post_loop (Suc n) req attempt delay last_status last_error w =
     (let (answer, w) = post req w in
      case answer of
        Answered status retry_after \<Rightarrow>
          if 200 \<le> status \<and> status < 300 then (Inr (True, Some status, None, attempt), w)
          else if status \<in> n8n_retryable_status \<and> 0 < n then
            (case honoured retry_after delay of
               Inl e \<Rightarrow> (Inl e, w)
             | Inr delay \<Rightarrow>
                 (case sleep_for delay w of
                    (Inl e, w) \<Rightarrow> (Inl e, w)
                  | (Inr _, w) \<Rightarrow> post_loop n req (attempt + 1) (min (delay * 2) max_pause) (Some status) last_error w))
          else (Inr (False, Some status, Some (''http_'' @ nat_str status), attempt), w)
      | Network_error e \<Rightarrow>
          if 0 < n then
            (case sleep_for delay w of
               (Inl e, w) \<Rightarrow> (Inl e, w)
             | (Inr _, w) \<Rightarrow> post_loop n req (attempt + 1) (min (delay * 2) max_pause) last_status (Some e) w)
          else (Inr (False, last_status, Some e, attempt), w)
      | Http_exception e \<Rightarrow> (Inr (False, last_status, Some e, attempt), w)
      | Foreign_exception e \<Rightarrow> (Inl e, w))"

definition skipped_result :: "string \<Rightarrow> string option \<Rightarrow> string \<Rightarrow> notification_result" where
  "skipped_result alert_id host hash =
     \<lparr>nr_alert_id = alert_id, nr_attempted = False, nr_delivered = False, nr_skipped = True, nr_status_code = None,
      nr_error_type = None, nr_attempts = 0, nr_duration_ms = 0, nr_webhook_host = host, nr_payload_hash = hash\<rparr>"

definition n8n_send :: "unicode_services \<Rightarrow> (json \<Rightarrow> string) \<Rightarrow> n8n_client \<Rightarrow> n8n_payload \<Rightarrow> n8n_world
    \<Rightarrow> (string + notification_result) \<times> n8n_world" where
  "n8n_send u digest c p w =
     (let hash = payload_hash digest p; host = webhook_host u (nc_webhook_url c); (start, w) = monotonic w in
      if \<not> nc_enabled c \<or> nc_webhook_url c = [] then (Inr (skipped_result (np_alert_id p) host hash), w)
      else
        (case post_loop (nc_max_retries c) (nc_webhook_url c, n8n_headers c, payload_dump p) 1 (nc_backoff c) None None w of
           (Inl e, w) \<Rightarrow> (Inl e, w)
         | (Inr (delivered, status, error, attempts), w) \<Rightarrow>
             (let (now, w) = monotonic w in
              (Inr \<lparr>nr_alert_id = np_alert_id p, nr_attempted = True, nr_delivered = delivered, nr_skipped = False,
                 nr_status_code = status, nr_error_type = error, nr_attempts = attempts,
                 nr_duration_ms = (now - start) div 1000, nr_webhook_host = host, nr_payload_hash = hash\<rparr>, w))))"

subsection \<open>Facts\<close>

definition harmless :: "post_answer \<Rightarrow> bool" where
  "harmless answer \<longleftrightarrow>
     (case answer of Answered _ retry_after \<Rightarrow> retry_pause retry_after = Inr () | Foreign_exception _ \<Rightarrow> False | _ \<Rightarrow> True)"

definition success :: "post_answer \<Rightarrow> bool" where
  "success answer \<longleftrightarrow> (case answer of Answered status _ \<Rightarrow> 200 \<le> status \<and> status < 300 | _ \<Rightarrow> False)"

definition retryable :: "post_answer \<Rightarrow> bool" where
  "retryable answer \<longleftrightarrow>
     (case answer of Answered status _ \<Rightarrow> status \<in> n8n_retryable_status | Network_error _ \<Rightarrow> True | _ \<Rightarrow> False)"

lemma success_not_retryable: "success a \<Longrightarrow> \<not> retryable a"
  by (auto simp: success_def retryable_def n8n_retryable_status_def split: post_answer.splits)

lemma post_simps [simp]:
  "post req w = (a, w') \<longleftrightarrow> a = next_or (Network_error ''ConnectTimeout'') (nw_answers w)
     \<and> w' = w\<lparr>nw_answers := tl (nw_answers w), nw_posts := nw_posts w @ [req]\<rparr>"
  by (auto simp: post_def)

lemma honoured_harmless: "retry_pause ra = Inr () \<Longrightarrow> 0 \<le> d \<Longrightarrow>
    \<exists>d'. honoured ra d = Inr d' \<and> 0 \<le> d' \<and> d' \<le> max d max_pause"
  by (auto simp: retry_pause_def honoured_def max_pause_def split: option.splits sum.splits if_splits)

lemma sleep_nonneg: "0 \<le> d \<Longrightarrow> sleep_for d w = (Inr (), w\<lparr>nw_pauses := nw_pauses w @ [d]\<rparr>)"
  by (simp add: sleep_for_def)

definition tried :: "n8n_request \<Rightarrow> nat \<Rightarrow> int \<Rightarrow> n8n_world \<Rightarrow> n8n_world \<Rightarrow> bool" where
  "tried req k bound w w' \<longleftrightarrow> nw_posts w' = nw_posts w @ replicate (Suc k) req
     \<and> (\<exists>ps. nw_pauses w' = nw_pauses w @ ps \<and> length ps = k \<and> (\<forall>p \<in> set ps. 0 \<le> p \<and> p \<le> bound))"

lemma tried_once: "tried req 0 b w (w\<lparr>nw_answers := as, nw_posts := nw_posts w @ [req]\<rparr>)"
  by (simp add: tried_def)

lemma tried_again:
  assumes "tried req k b (w\<lparr>nw_answers := as, nw_posts := nw_posts w @ [req], nw_pauses := nw_pauses w @ [d]\<rparr>) w'"
    and "0 \<le> d" "d \<le> b"
  shows "tried req (Suc k) b w w'"
proof -
  from assms(1) obtain ps where ps: "nw_pauses w' = nw_pauses w @ (d # ps)" "length (d # ps) = Suc k"
      "\<forall>p \<in> set (d # ps). 0 \<le> p \<and> p \<le> b"
    using assms(2,3) unfolding tried_def by auto
  moreover have "nw_posts w' = nw_posts w @ replicate (Suc (Suc k)) req" using assms(1) by (simp add: tried_def)
  ultimately show ?thesis unfolding tried_def by blast
qed

definition answer_at :: "nat \<Rightarrow> n8n_world \<Rightarrow> post_answer" where
  "answer_at k w = next_or (Network_error ''ConnectTimeout'') (drop k (nw_answers w))"

text \<open>A run of the loop that makes \<open>k + 1\<close> posts and reports how the last one went.\<close>

definition run_ok :: "n8n_request \<Rightarrow> nat \<Rightarrow> int \<Rightarrow> nat \<Rightarrow> n8n_world
    \<Rightarrow> (string + bool \<times> nat option \<times> string option \<times> nat) \<times> n8n_world \<Rightarrow> bool" where
  "run_ok req n b attempt w r \<longleftrightarrow>
     (\<exists>d status err k w'. r = (Inr (d, status, err, attempt + k), w') \<and> k \<le> n \<and> tried req k b w w'
        \<and> d = success (answer_at k w) \<and> (\<forall>j < k. retryable (answer_at j w))
        \<and> (k < n \<longrightarrow> \<not> retryable (answer_at k w)) \<and> (d \<longleftrightarrow> err = None))"

lemma run_ok_stop:
  assumes "w' = w\<lparr>nw_answers := tl (nw_answers w), nw_posts := nw_posts w @ [req]\<rparr>"
    and "d = success (answer_at 0 w)" "d \<longleftrightarrow> err = None" "n = 0 \<or> \<not> retryable (answer_at 0 w)"
  shows "run_ok req n b attempt w (Inr (d, status, err, attempt), w')"
  unfolding run_ok_def using assms(2-4) tried_once [of req b w "tl (nw_answers w)"]
  by (intro exI [of _ d] exI [of _ status] exI [of _ err] exI [of _ 0] exI [of _ w']) (auto simp: assms(1))

lemma run_ok_again:
  assumes "run_ok req n b (attempt + 1)
      (w\<lparr>nw_answers := tl (nw_answers w), nw_posts := nw_posts w @ [req], nw_pauses := nw_pauses w @ [d]\<rparr>) r"
    and "retryable (answer_at 0 w)" "0 \<le> d" "d \<le> b"
  shows "run_ok req (Suc n) b attempt w r"
proof -
  let ?w = "w\<lparr>nw_answers := tl (nw_answers w), nw_posts := nw_posts w @ [req], nw_pauses := nw_pauses w @ [d]\<rparr>"
  have at: "answer_at j ?w = answer_at (Suc j) w" for j by (simp add: answer_at_def drop_Suc)
  obtain e status err k w' where r: "r = (Inr (e, status, err, attempt + 1 + k), w')" "k \<le> n" "tried req k b ?w w'"
      "e = success (answer_at (Suc k) w)" "\<forall>j < k. retryable (answer_at (Suc j) w)"
      "k < n \<longrightarrow> \<not> retryable (answer_at (Suc k) w)" "e \<longleftrightarrow> err = None"
    using assms(1) unfolding run_ok_def at by blast
  have "\<forall>j < Suc k. retryable (answer_at j w)" using r(5) assms(2) by (simp add: All_less_Suc2)
  with r tried_again [OF r(3) assms(3,4)] show ?thesis unfolding run_ok_def
    by (intro exI [of _ e] exI [of _ status] exI [of _ err] exI [of _ "Suc k"] exI [of _ w']) simp
qed

lemma answer_harmless: "list_all harmless (nw_answers w) \<Longrightarrow> harmless (answer_at 0 w)"
  by (cases "nw_answers w") (simp_all add: answer_at_def harmless_def)

lemma post_loop_run:
  assumes "list_all harmless (nw_answers w)" "0 \<le> delay" "delay \<le> b" "max_pause \<le> b"
  shows "run_ok req n b attempt w (post_loop (Suc n) req attempt delay last_status last_error w)"
  using assms
proof (induction n arbitrary: attempt delay last_status last_error w)
  case (0)
  then show ?case using answer_harmless [OF 0(1)]
    by (cases "answer_at 0 w") (auto simp: post_def answer_at_def success_def retryable_def harmless_def Let_def intro!: run_ok_stop)
next
  case (Suc n)
  let ?w = "\<lambda>d. w\<lparr>nw_answers := tl (nw_answers w), nw_posts := nw_posts w @ [req], nw_pauses := nw_pauses w @ [d]\<rparr>"
  have tl: "list_all harmless (nw_answers (?w d))" for d using Suc.prems(1) by (cases "nw_answers w") simp_all
  have IH: "run_ok req n b (attempt + 1) (?w d) (post_loop (Suc n) req (attempt + 1) (min (d * 2) max_pause) ls le (?w d))"
    if "0 \<le> d" for d ls le
    using that Suc.prems(4) by (intro Suc.IH [OF tl]) (auto simp: max_pause_def)
  have again: "run_ok req (Suc n) b attempt w (post_loop (Suc n) req (attempt + 1) (min (d * 2) max_pause) ls le (?w d))"
    if "0 \<le> d" "d \<le> b" "retryable (answer_at 0 w)" for d ls le
    using run_ok_again [OF IH that(3,1,2)] that(1) .
  note step = post_loop.simps(2) [of "Suc n"]
  show ?case
  proof (cases "answer_at 0 w")
    case (Answered status retry_after)
    then have h: "retry_pause retry_after = Inr ()" using answer_harmless [OF Suc.prems(1)] by (simp add: harmless_def)
    obtain d where d: "honoured retry_after delay = Inr d" "0 \<le> d" "d \<le> max delay max_pause"
      using honoured_harmless [OF h Suc.prems(2)] by blast
    then have "d \<le> b" using Suc.prems(3,4) by simp
    moreover have "status \<in> n8n_retryable_status \<Longrightarrow> \<not> (200 \<le> status \<and> status < 300)"
      by (auto simp: n8n_retryable_status_def)
    ultimately show ?thesis using Answered d again [of d]
      by (auto simp del: post_loop.simps simp: step post_def answer_at_def success_def retryable_def sleep_nonneg Let_def intro!: run_ok_stop)
  next
    case (Network_error e)
    with Suc.prems again [of delay] show ?thesis
      by (auto simp del: post_loop.simps simp: step post_def answer_at_def success_def retryable_def sleep_nonneg Let_def)
  qed (use answer_harmless [OF Suc.prems(1)] in
      \<open>auto simp del: post_loop.simps simp: step post_def answer_at_def success_def retryable_def harmless_def Let_def intro!: run_ok_stop\<close>)
qed

subsection \<open>The contract a notifier relies on\<close>

locale notifier =
  fixes send :: "n8n_payload \<Rightarrow> 'w \<Rightarrow> (string + notification_result) \<times> 'w"
  assumes names_alert: "send p w = (Inr r, w') \<Longrightarrow> nr_alert_id r = np_alert_id p"
    and one_outcome: "send p w = (Inr r, w') \<Longrightarrow> nr_skipped r \<longleftrightarrow> \<not> nr_attempted r"
    and delivered_attempted: "send p w = (Inr r, w') \<Longrightarrow> nr_delivered r \<Longrightarrow> nr_attempted r"
begin

definition outcome_status :: "notification_result \<Rightarrow> string" where
  "outcome_status r = (if nr_delivered r then ''delivered'' else if nr_skipped r then ''skipped'' else ''failed'')"

lemma outcome_cases:
  "send p w = (Inr r, w') \<Longrightarrow>
     (nr_delivered r \<and> nr_attempted r \<and> \<not> nr_skipped r)
     \<or> (\<not> nr_delivered r \<and> nr_skipped r \<and> \<not> nr_attempted r)
     \<or> (\<not> nr_delivered r \<and> \<not> nr_skipped r \<and> nr_attempted r)"
  using one_outcome delivered_attempted by blast

end

interpretation n8n: notifier "n8n_send u digest c" for u digest c
proof
  fix p w r w' assume run: "n8n_send u digest c p w = (Inr r, w')"
  show "nr_alert_id r = np_alert_id p" "nr_skipped r \<longleftrightarrow> \<not> nr_attempted r" "nr_delivered r \<Longrightarrow> nr_attempted r"
    using run by (auto simp: n8n_send_def monotonic_def skipped_result_def Let_def split: if_splits sum.splits prod.splits)
qed

subsection \<open>Properties\<close>

text \<open>
  C22. A send always ends, with a result that tells what happened: a disabled client posts nothing and
  reports a skip; otherwise the same request is posted until an answer is not retryable, at
  most \<open>max_retries\<close> times; the result says delivered exactly if the last answer was one, carries an
  error type exactly if not, and no pause is longer than eight seconds or the configured backoff. This
  needs an endpoint whose \<open>Retry-After\<close> headers are not negative and no exception from outside httpx.
\<close>

theorem send_contract:
  assumes "list_all harmless (nw_answers w)" "0 \<le> nc_backoff c" "0 < nc_max_retries c"
  obtains r w' k where "n8n_send u digest c p w = (Inr r, w')"
    and "nr_alert_id r = np_alert_id p" "nr_payload_hash r = payload_hash digest p"
    and "if nc_enabled c \<and> nc_webhook_url c \<noteq> [] then
        nr_attempted r \<and> \<not> nr_skipped r \<and> nr_attempts r = Suc k \<and> Suc k \<le> nc_max_retries c
        \<and> tried (nc_webhook_url c, n8n_headers c, payload_dump p) k (max (nc_backoff c) max_pause) w w'
        \<and> nr_delivered r = success (answer_at k w) \<and> (\<forall>j < k. retryable (answer_at j w))
        \<and> (Suc k < nc_max_retries c \<longrightarrow> \<not> retryable (answer_at k w))
        \<and> (nr_delivered r \<longleftrightarrow> nr_error_type r = None)
      else nr_skipped r \<and> \<not> nr_delivered r \<and> nw_posts w' = nw_posts w \<and> nw_pauses w' = nw_pauses w"
proof (cases "nc_enabled c \<and> nc_webhook_url c \<noteq> []")
  case False
  show ?thesis
    by (rule that [where r = "skipped_result (np_alert_id p) (webhook_host u (nc_webhook_url c)) (payload_hash digest p)"
          and w' = "snd (monotonic w)" and k = 0])
      (use False in \<open>auto simp: n8n_send_def monotonic_def skipped_result_def Let_def\<close>)
next
  case True
  let ?req = "(nc_webhook_url c, n8n_headers c, payload_dump p)"
  define w0 where "w0 = snd (monotonic w)"
  obtain n where n: "nc_max_retries c = Suc n" using assms(3) by (cases "nc_max_retries c") auto
  have w0: "nw_answers w0 = nw_answers w" "nw_posts w0 = nw_posts w" "nw_pauses w0 = nw_pauses w"
    by (simp_all add: w0_def monotonic_def)
  then have at: "answer_at k w0 = answer_at k w" for k by (simp add: answer_at_def)
  have "run_ok ?req n (max (nc_backoff c) max_pause) 1 w0 (post_loop (Suc n) ?req 1 (nc_backoff c) None None w0)"
    using assms(1,2) by (intro post_loop_run) (simp_all add: w0)
  then obtain d status err k w1 where r: "post_loop (Suc n) ?req 1 (nc_backoff c) None None w0 = (Inr (d, status, err, 1 + k), w1)"
      "k \<le> n" "tried ?req k (max (nc_backoff c) max_pause) w0 w1" "d = success (answer_at k w)"
      "\<forall>j < k. retryable (answer_at j w)" "k < n \<longrightarrow> \<not> retryable (answer_at k w)" "d \<longleftrightarrow> err = None"
    unfolding run_ok_def at by blast
  let ?r = "\<lparr>nr_alert_id = np_alert_id p, nr_attempted = True, nr_delivered = d, nr_skipped = False,
                 nr_status_code = status, nr_error_type = err, nr_attempts = 1 + k,
                 nr_duration_ms = (fst (monotonic w1) - fst (monotonic w)) div 1000,
                 nr_webhook_host = webhook_host u (nc_webhook_url c), nr_payload_hash = payload_hash digest p\<rparr>"
  have run: "n8n_send u digest c p w = (Inr ?r, snd (monotonic w1))"
    using True r(1) by (simp add: n8n_send_def n w0_def Let_def case_prod_beta)
  have "tried ?req k (max (nc_backoff c) max_pause) w (snd (monotonic w1))"
    using r(3) by (simp add: tried_def w0 monotonic_def)
  then show ?thesis using r True n by (intro that [OF run, of k]) simp_all
qed

text \<open>
  The client promises never to raise, yet a \<open>Retry-After\<close> header that is negative or too large for
  a float makes it raise, and a negative header does so after the alert was posted.
\<close>

theorem send_raises_on_retry_after:
  "\<exists>u c p. nc_enabled c \<and>
     fst (n8n_send u (\<lambda>_. []) c p \<lparr>nw_answers = [Answered 503 (Some ''-1'')], nw_clock = [], nw_posts = [], nw_pauses = []\<rparr>)
       = Inl ''ValueError''"
proof -
  define u where "u = \<lparr>us_idna = (\<lambda>h. None), us_netloc_ok = (\<lambda>n. True)\<rparr>"
  define c where "c = make_n8n_client ''http://n8n/x'' [] 3 500000 None"
  have c: "nc_enabled c \<and> nc_webhook_url c \<noteq> [] \<and> nc_max_retries c = 3 \<and> nc_backoff c = 500000"
    unfolding c_def by code_simp
  have "honoured (Some ''-1'') 500000 = Inr (-1000000)" by code_simp
  then have "fst (n8n_send u (\<lambda>_. []) c p \<lparr>nw_answers = [Answered 503 (Some ''-1'')], nw_clock = [], nw_posts = [], nw_pauses = []\<rparr>)
       = Inl ''ValueError''" for p
    using c by (simp add: n8n_send_def monotonic_def post_def numeral_3_eq_3 n8n_retryable_status_def sleep_for_def Let_def)
  with c show ?thesis by blast
qed

theorem send_contract_witness:
  "\<exists>u c p w r w'. n8n_send u (\<lambda>_. []) c p w = (Inr r, w') \<and> nr_delivered r \<and> nr_attempts r = 2
     \<and> length (nw_pauses w') = 1"
proof -
  obtain p :: n8n_payload where "p = p" by simp
  define c where "c = make_n8n_client ''http://n8n/x'' [] 3 500000 None"
  have c: "nc_enabled c" "nc_webhook_url c \<noteq> []" "nc_max_retries c = 3" "nc_backoff c = 500000"
    unfolding c_def by code_simp+
  define w where "w = \<lparr>nw_answers = [Answered 503 None, Answered 204 None], nw_clock = [0, 5000], nw_posts = [], nw_pauses = []\<rparr>"
  have at: "answer_at 0 w = Answered 503 None" "answer_at 1 w = Answered 204 None"
    by (simp_all add: answer_at_def w_def)
  have harmless: "list_all harmless (nw_answers w)" by (simp add: w_def harmless_def retry_pause_def)
  define u where "u = \<lparr>us_idna = (\<lambda>h. None), us_netloc_ok = (\<lambda>n. True)\<rparr>"
  have backoff: "0 \<le> nc_backoff c" "0 < nc_max_retries c" by (simp_all add: c)
  obtain r w' k where run: "n8n_send u (\<lambda>_. []) c p w = (Inr r, w')"
    and out: "if nc_enabled c \<and> nc_webhook_url c \<noteq> [] then
        nr_attempted r \<and> \<not> nr_skipped r \<and> nr_attempts r = Suc k \<and> Suc k \<le> nc_max_retries c
        \<and> tried (nc_webhook_url c, n8n_headers c, payload_dump p) k (max (nc_backoff c) max_pause) w w'
        \<and> nr_delivered r = success (answer_at k w) \<and> (\<forall>j < k. retryable (answer_at j w))
        \<and> (Suc k < nc_max_retries c \<longrightarrow> \<not> retryable (answer_at k w))
        \<and> (nr_delivered r \<longleftrightarrow> nr_error_type r = None)
      else nr_skipped r \<and> \<not> nr_delivered r \<and> nw_posts w' = nw_posts w \<and> nw_pauses w' = nw_pauses w"
    by (rule send_contract [OF harmless backoff, of u "\<lambda>_. []" p])
  from out c have "tried (nc_webhook_url c, n8n_headers c, payload_dump p) k (max (nc_backoff c) max_pause) w w'"
    by simp
  then have pauses: "length (nw_pauses w') = k" by (auto simp: tried_def w_def)
  from out c have r: "nr_attempts r = Suc k" "nr_delivered r = success (answer_at k w)"
      "\<forall>j < k. retryable (answer_at j w)" "Suc k < 3 \<longrightarrow> \<not> retryable (answer_at k w)" by simp_all
  have "k \<noteq> 0" using r(4) at(1) by (cases k) (auto simp: retryable_def n8n_retryable_status_def)
  moreover have "\<not> 1 < k" using r(3) at(2) by (auto simp: retryable_def n8n_retryable_status_def)
  ultimately have "k = 1" by simp
  with r(1,2) at pauses have "nr_delivered r \<and> nr_attempts r = 2 \<and> length (nw_pauses w') = 1"
    by (simp add: success_def)
  with run show ?thesis by blast
qed

end
