(* ===== verification/Alert_Notifier.thy ===== *)
theory Alert_Notifier
  imports Notification_Client Alert_Repository Sequence_Ids
begin

text \<open>
  Notifying n8n of an alert: \<open>NotificationRepository\<close> (models/repositories.py) and
  \<open>_notify_n8n\<close> (api/alerts.py) with its two units of work around the client. The client is a
  parameter with the contract of the locale \<open>notifier\<close>.
\<close>

subsection \<open>Reading a UUID\<close>

definition hex_digit :: "char \<Rightarrow> nat option" where
  "hex_digit c =
     (let n = of_char c :: nat in
      if 48 \<le> n \<and> n \<le> 57 then Some (n - 48)
      else if 97 \<le> n \<and> n \<le> 102 then Some (n - 87)
      else if 65 \<le> n \<and> n \<le> 70 then Some (n - 55)
      else None)"

text \<open>\<open>UUID(text)\<close> on text of the form \<open>str\<close> gives: dashes are dropped, 32 digits must remain.\<close>

definition uuid_of :: "string \<Rightarrow> uuid option" where
  "uuid_of s =
     (let h = filter (\<lambda>c. c \<noteq> CHR ''-'') s in
      if length h \<noteq> 32 \<or> list_ex (\<lambda>c. hex_digit c = None) h then None
      else Some (digits_value 16 (map (\<lambda>c. the (hex_digit c)) h)))"

subsection \<open>The repository\<close>

definition attempt_status :: "notification_result \<Rightarrow> string" where
  "attempt_status r =
     (let status = (if nr_delivered r then ''delivered'' else if nr_skipped r then ''skipped'' else ''failed'') in
      if nr_attempted r \<and> \<not> nr_delivered r \<and> \<not> nr_skipped r then ''failed''
      else if \<not> nr_attempted r \<and> nr_skipped r then ''skipped'' else status)"

definition record_notification :: "notification_result \<Rightarrow> instant \<Rightarrow> unit db" where
  "record_notification r occurred_at =
     (case uuid_of (nr_alert_id r) of
        None \<Rightarrow> db_raise ValueError
      | Some alert_id \<Rightarrow>
          db_bind (db_require (\<lambda>s. map_of (st_alerts s) alert_id \<noteq> None)) (\<lambda>_.
          db_write (\<lambda>s. s\<lparr>st_notifications := st_notifications s @
            [\<lparr>nt_id = next_rowid (map nt_id (st_notifications s)), nt_alert_id = alert_id, nt_attempted_at = occurred_at,
              nt_status = attempt_status r, nt_http_status = map_option int (nr_status_code r),
              nt_error_type = nr_error_type r, nt_retry_count = int (nr_attempts r), nt_payload_hash = nr_payload_hash r,
              nt_webhook_host = nr_webhook_host r, nt_duration_ms = nr_duration_ms r\<rparr>]\<rparr>)))"

definition has_delivered :: "uuid \<Rightarrow> store \<Rightarrow> bool" where
  "has_delivered alert_id s \<longleftrightarrow>
     list_ex (\<lambda>n. nt_alert_id n = alert_id \<and> nt_status n = ''delivered'') (st_notifications s)"

definition attempts_for :: "uuid \<Rightarrow> store \<Rightarrow> notification_row list" where
  "attempts_for alert_id s = sort_key nt_attempted_at (filter (\<lambda>n. nt_alert_id n = alert_id) (st_notifications s))"

definition all_attempts :: "nat option \<Rightarrow> store \<Rightarrow> notification_row list" where
  "all_attempts limit s =
     (let ns = sort_key nt_attempted_at (st_notifications s) in case limit of None \<Rightarrow> ns | Some n \<Rightarrow> take n ns)"

subsection \<open>Notifying\<close>

text \<open>The first unit of work: an alert already delivered is audited as suppressed.\<close>

definition suppress_delivered :: "uuid \<Rightarrow> instant \<Rightarrow> notification_result option db" where
  "suppress_delivered alert_id received_at =
     db_bind (db_read (has_delivered alert_id)) (\<lambda>delivered.
       if \<not> delivered then db_return None
       else db_bind (audit_append (audit_entries_for_notification alert_id ''skipped'' None None 0 (Some ''duplicate'')
                None 0 True) received_at)
              (\<lambda>_. db_return (Some (skipped_result (uuid_str alert_id) None ''duplicate''))))"

text \<open>The second unit of work: the attempt and its audit entries.\<close>

definition record_attempt :: "uuid \<Rightarrow> notification_result \<Rightarrow> instant \<Rightarrow> unit db" where
  "record_attempt alert_id r received_at =
     db_bind (record_notification r received_at) (\<lambda>_.
       audit_append (audit_entries_for_notification alert_id
           (if nr_delivered r then ''delivered'' else if nr_skipped r then ''skipped'' else ''failed'')
           (map_option int (nr_status_code r)) (nr_error_type r) (int (nr_attempts r)) (Some (nr_payload_hash r))
           (nr_webhook_host r) (nr_duration_ms r) False) received_at)"

text \<open>
  \<open>_notify_n8n\<close>. The two flags say whether the database accepts the two units; a failing check
  does not stop the notification, a failing record does not undo it, and an exception of the client
  goes to the caller.
\<close>

definition notify_n8n ::
  "(json \<Rightarrow> string) \<Rightarrow> (n8n_payload \<Rightarrow> 'w \<Rightarrow> (string + notification_result) \<times> 'w) \<Rightarrow> bool \<times> bool
    \<Rightarrow> canonical_alert \<Rightarrow> string \<Rightarrow> instant \<Rightarrow> string option \<Rightarrow> store \<times> 'w
    \<Rightarrow> (string + notification_result option) \<times> store \<times> 'w" where
  "notify_n8n float_text deliver accepted alert dedupe_status received_at base_url = (\<lambda>(s, w).
     (let (check, s) = session_scope (fst accepted) (suppress_delivered (c_alert_id alert) received_at) s in
      case check of
        Inr (Some r) \<Rightarrow> (Inr (Some r), s, w)
      | _ \<Rightarrow>
          (case build_n8n_payload float_text alert dedupe_status base_url of
             Inl _ \<Rightarrow> (Inr None, s, w)
           | Inr p \<Rightarrow>
               (let (sent, w) = deliver p w in
                case sent of
                  Inl e \<Rightarrow> (Inl e, s, w)
                | Inr r \<Rightarrow>
                    (Inr (Some r), snd (session_scope (snd accepted) (record_attempt (c_alert_id alert) r received_at) s), w)))))"

subsection \<open>Text of a UUID and back\<close>

lemma base_digits_length: "2 \<le> b \<Longrightarrow> n < b ^ k \<Longrightarrow> 0 < k \<Longrightarrow> length (base_digits b n) \<le> k"
proof (induction k arbitrary: n)
  case (Suc k)
  show ?case
  proof (cases "n < b")
    case True
    then show ?thesis by (subst base_digits.simps) simp
  next
    case False
    with Suc.prems have "0 < k" by (cases k) auto
    moreover have "n div b < b ^ k" using Suc.prems by (simp add: less_mult_imp_div_less mult.commute)
    ultimately have "length (base_digits b (n div b)) \<le> k" using Suc by blast
    then show ?thesis using False Suc.prems by (subst base_digits.simps) simp
  qed
qed simp

lemma digits_value_zeros: "digits_value b (replicate k 0) = 0"
  by (induction k) simp_all

lemma hex_digit_char: "d < 16 \<Longrightarrow> hex_digit (digit_char d) = Some d \<and> digit_char d \<noteq> CHR ''-''"
proof -
  assume d: "d < 16"
  have code: "(of_char (digit_char d) :: nat) = (if d < 10 then 48 + d else 87 + d)"
    using d by (simp add: digit_char_def)
  have "(of_char (CHR ''-'') :: nat) = 45" by simp
  then have "digit_char d \<noteq> CHR ''-''" using code by (auto split: if_splits)
  with d show ?thesis unfolding hex_digit_def code Let_def by auto
qed

lemma grouped: "take 8 h @ take 4 (drop 8 h) @ take 4 (drop 12 h) @ take 4 (drop 16 h) @ drop 20 h = h"
proof -
  have "take 8 h @ take 4 (drop 8 h) = take 12 h" using take_add [of 8 4 h] by simp
  moreover have "take 12 h @ take 4 (drop 12 h) = take 16 h" using take_add [of 12 4 h] by simp
  moreover have "take 16 h @ take 4 (drop 16 h) = take 20 h" using take_add [of 16 4 h] by simp
  ultimately show ?thesis by (metis append.assoc append_take_drop_id)
qed

theorem uuid_roundtrip:
  assumes "u < 2 ^ 128"
  shows "uuid_of (uuid_str u) = Some u"
proof -
  define ds where "ds = replicate (32 - length (base_digits 16 u)) 0 @ base_digits 16 u"
  define h where "h = map digit_char ds"
  have "u < 16 ^ 32" using assms by simp
  then have len: "length ds = 32" using base_digits_length [of 16 u 32] by (simp add: ds_def)
  have small: "\<forall>d \<in> set ds. d < 16" by (auto simp: ds_def dest: base_digits_less [rotated])
  have digit0: "digit_char 0 = CHR ''0''" by code_simp
  have written: "zero_pad 32 (map digit_char (base_digits 16 u)) = h" by (simp add: h_def ds_def zero_pad_def digit0)
  have h: "length h = 32" "\<forall>c \<in> set h. c \<noteq> CHR ''-'' \<and> hex_digit c \<noteq> None"
    using len small hex_digit_char by (auto simp: h_def)
  then have id: "filter (\<lambda>c. c \<noteq> CHR ''-'') g = g" if "set g \<subseteq> set h" for g
    using that by (auto simp: filter_id_conv)
  have "filter (\<lambda>c. c \<noteq> CHR ''-'') (uuid_str u) = take 8 h @ take 4 (drop 8 h) @ take 4 (drop 12 h) @ take 4 (drop 16 h) @ drop 20 h"
    unfolding uuid_str_def written Let_def
    by (simp add: id set_take_subset set_drop_subset order_trans [OF set_take_subset set_drop_subset])
  then have "filter (\<lambda>c. c \<noteq> CHR ''-'') (uuid_str u) = h" using grouped [of h] by simp
  moreover have "map (\<lambda>c. the (hex_digit c)) h = ds"
    using small hex_digit_char by (simp add: h_def map_idI)
  moreover have "digits_value 16 ds = u"
    by (simp add: ds_def digits_value_append digits_value_zeros digits_value_base_digits)
  ultimately show ?thesis using h by (simp add: uuid_of_def list_ex_iff)
qed

subsection \<open>What notifying leaves in the store\<close>

text \<open>At most one attempt and some audit entries are added to the store.\<close>

definition only_notified :: "store \<Rightarrow> store \<Rightarrow> bool" where
  "only_notified s s' \<longleftrightarrow>
     (\<exists>ns es. s' = s\<lparr>st_notifications := st_notifications s @ ns, st_audit := st_audit s @ es\<rparr> \<and> length ns \<le> 1)"

lemma fold_audit_grows: "\<exists>es. fold (audit_append_one t) entries s = s\<lparr>st_audit := st_audit s @ es\<rparr>"
proof (induction entries arbitrary: s)
  case Nil
  have "fold (audit_append_one t) [] s = s\<lparr>st_audit := st_audit s @ []\<rparr>" by simp
  then show ?case by blast
next
  case (Cons e entries)
  obtain es where es: "fold (audit_append_one t) entries (audit_append_one t e s)
      = (audit_append_one t e s)\<lparr>st_audit := st_audit (audit_append_one t e s) @ es\<rparr>" using Cons by blast
  obtain row where "audit_append_one t e s = s\<lparr>st_audit := st_audit s @ [row]\<rparr>" by (simp add: audit_append_one_def)
  with es have "fold (audit_append_one t) (e # entries) s = s\<lparr>st_audit := st_audit s @ (row # es)\<rparr>" by simp
  then show ?case by blast
qed

lemma audit_only_notified: "only_notified s (fold (audit_append_one t) entries s)"
proof -
  obtain es where "fold (audit_append_one t) entries s = s\<lparr>st_audit := st_audit s @ es\<rparr>"
    using fold_audit_grows by blast
  then have "fold (audit_append_one t) entries s = s\<lparr>st_notifications := st_notifications s @ [], st_audit := st_audit s @ es\<rparr>"
    by simp
  then show ?thesis unfolding only_notified_def by (metis list.size(3) zero_le)
qed

lemma only_notified_refl: "only_notified s s"
  using audit_only_notified [of s 0 "[]"] by simp

lemma suppress_delivered_eq:
  "suppress_delivered alert_id t s = Inr (r, s') \<longleftrightarrow>
     (if has_delivered alert_id s
      then r = Some (skipped_result (uuid_str alert_id) None ''duplicate'')
        \<and> s' = fold (audit_append_one t) (audit_entries_for_notification alert_id ''skipped'' None None 0
              (Some ''duplicate'') None 0 True) s
      else r = None \<and> s' = s)"
  by (auto simp: suppress_delivered_def audit_append_def)

lemma record_attempt_only: "record_attempt alert_id r t s = Inr (x, s') \<Longrightarrow> only_notified s s'"
proof -
  assume run: "record_attempt alert_id r t s = Inr (x, s')"
  obtain row entries where "s' = fold (audit_append_one t) entries (s\<lparr>st_notifications := st_notifications s @ [row]\<rparr>)"
    using run by (auto simp: record_attempt_def record_notification_def audit_append_def split: option.splits)
  then obtain es where "s' = s\<lparr>st_notifications := st_notifications s @ [row], st_audit := st_audit s @ es\<rparr>"
    using fold_audit_grows [of t entries "s\<lparr>st_notifications := st_notifications s @ [row]\<rparr>"] by auto
  then show ?thesis unfolding only_notified_def by (intro exI [of _ "[row]"] exI [of _ es]) simp
qed

lemma notify_cases:
  assumes "notify_n8n ft deliver accepted alert status t base (s, w) = (r, s', w')"
  obtains (suppressed) "fst accepted" "has_delivered (c_alert_id alert) s" "w' = w" "st_notifications s' = st_notifications s"
      "only_notified s s'" "r = Inr (Some (skipped_result (uuid_str (c_alert_id alert)) None ''duplicate''))"
    | (unbuilt) "r = Inr None" "s' = s" "w' = w"
    | (raised) p e where "build_n8n_payload ft alert status base = Inr p" "deliver p w = (Inl e, w')" "r = Inl e" "s' = s"
    | (sent) p x where "build_n8n_payload ft alert status base = Inr p" "deliver p w = (Inr x, w')" "r = Inr (Some x)"
      "s' = snd (session_scope (snd accepted) (record_attempt (c_alert_id alert) x t) s)"
      "fst accepted \<Longrightarrow> \<not> has_delivered (c_alert_id alert) s"
proof -
  obtain check s1 where check: "session_scope (fst accepted) (suppress_delivered (c_alert_id alert) t) s = (check, s1)"
    by (metis prod.collapse)
  show thesis
  proof (cases "\<exists>x. check = Inr (Some x)")
    case True
    then obtain x where x: "check = Inr (Some x)" by blast
    then have "fst accepted" "suppress_delivered (c_alert_id alert) t s = Inr (Some x, s1)"
      using check by (simp_all add: session_scope_eq_Inr)
    moreover have "r = Inr (Some x)" "s' = s1" "w' = w" using assms check x by (simp_all add: notify_n8n_def)
    ultimately show thesis
      using suppressed audit_only_notified by (auto simp: suppress_delivered_eq split: if_splits)
  next
    case False
    then have s1: "s1 = s"
      using check by (cases check) (auto simp: session_scope_eq_Inr session_scope_eq_Inl suppress_delivered_eq split: if_splits)
    have fresh: "fst accepted \<Longrightarrow> \<not> has_delivered (c_alert_id alert) s"
      using False check by (auto simp: session_scope_def suppress_delivered_def db_bind_def db_read_def audit_append_def db_write_def
          db_return_def split: if_splits sum.splits)
    have r: "(r, s', w') = (case build_n8n_payload ft alert status base of
             Inl _ \<Rightarrow> (Inr None, s, w)
           | Inr p \<Rightarrow> (case deliver p w of
                  (Inl e, w) \<Rightarrow> (Inl e, s, w)
                | (Inr x, w) \<Rightarrow> (Inr (Some x), snd (session_scope (snd accepted) (record_attempt (c_alert_id alert) x t) s), w)))"
      using assms False check s1
      by (auto simp: notify_n8n_def Let_def case_prod_beta split: sum.splits option.splits)
    show thesis
    proof (cases "build_n8n_payload ft alert status base")
      case (Inl e)
      with r unbuilt show thesis by simp
    next
      case (Inr p)
      with r raised sent fresh show thesis by (cases "deliver p w"; cases "fst (deliver p w)") auto
    qed
  qed
qed

lemma notify_only_notified:
  assumes "notify_n8n ft deliver accepted alert status t base (s, w) = (r, s', w')"
  shows "only_notified s s'"
  using assms
proof (cases rule: notify_cases)
  case (sent p x)
  then show ?thesis
    using session_invariant [of "record_attempt (c_alert_id alert) x t" s "only_notified s" "snd accepted"]
      record_attempt_only only_notified_refl by blast
qed (use only_notified_refl [of s] in simp_all)

subsection \<open>Properties\<close>

text \<open>
  Notification is confined: whatever the client does, whichever units of work the database
  accepts and whether the payload can be built, notifying adds at most one attempt and some audit
  entries, and leaves alerts, incidents, deduplication, correlation and feedback as they were.
\<close>

theorem notification_confined:
  assumes "notify_n8n ft deliver accepted alert status t base (s, w) = (r, s', w')"
  shows "\<exists>ns es. s' = s\<lparr>st_notifications := st_notifications s @ ns, st_audit := st_audit s @ es\<rparr> \<and> length ns \<le> 1"
  using notify_only_notified [OF assms] unfolding only_notified_def .

lemma delivered_row:
  assumes "record_attempt alert_id r t s = Inr (x, s')" "nr_delivered r" "nr_attempted r" "uuid_of (nr_alert_id r) = Some alert_id"
  shows "has_delivered alert_id s'"
  using assms by (auto simp: record_attempt_def record_notification_def audit_append_def attempt_status_def has_delivered_def Let_def)

text \<open>
  C21. An alert is delivered once: after a notification that n8n accepted and that was recorded, every
  later one for the same alert whose check the database answers posts nothing, adds no attempt and
  reports itself suppressed, whatever was stored in between.
\<close>

theorem delivered_once:
  assumes "c_alert_id alert < 2 ^ 128" "map_of (st_alerts s) (c_alert_id alert) \<noteq> None"
    and first: "notify_n8n ft (n8n_send u digest c) (ok, True) alert status t base (s, w) = (Inr (Some r), s1, w1)"
      "nr_delivered r"
    and kept: "set (st_notifications s1) \<subseteq> set (st_notifications s2)"
    and again: "notify_n8n ft (n8n_send u digest c) (True, ok') alert' status' t' base' (s2, w2) = (r', s3, w3)"
      "c_alert_id alert' = c_alert_id alert"
  shows "w3 = w2 \<and> st_notifications s3 = st_notifications s2
    \<and> r' = Inr (Some (skipped_result (uuid_str (c_alert_id alert)) None ''duplicate''))"
proof -
  have "has_delivered (c_alert_id alert) s1"
    using first(1)
  proof (cases rule: notify_cases)
    case suppressed
    then show ?thesis using first(2) by (simp add: skipped_result_def)
  next
    case (sent p x)
    have "np_alert_id p = uuid_str (c_alert_id alert)"
      using sent(1) by (auto simp: build_n8n_payload_def assembled_payload_def Let_def split: option.splits)
    then have "uuid_of (nr_alert_id r) = Some (c_alert_id alert)"
      using n8n.names_alert [OF sent(2)] uuid_roundtrip [OF assms(1)] sent(3) by simp
    moreover from this have "\<exists>y s'. record_attempt (c_alert_id alert) r t s = Inr (y, s')"
      using assms(2) by (auto simp: record_attempt_def record_notification_def audit_append_def)
    ultimately show ?thesis
      using sent(3,4) delivered_row [OF _ first(2)] n8n.delivered_attempted [OF sent(2)] first(2) by (auto simp: session_scope_def)
  qed simp_all
  then have delivered: "has_delivered (c_alert_id alert') s2"
    using kept again(2) by (auto simp: has_delivered_def list_ex_iff)
  obtain s4 where "suppress_delivered (c_alert_id alert') t' s2
      = Inr (Some (skipped_result (uuid_str (c_alert_id alert')) None ''duplicate''), s4)"
      "st_notifications s4 = st_notifications s2"
    using delivered suppress_delivered_eq [of "c_alert_id alert'" t' s2] by fastforce
  then show ?thesis using again by (auto simp: notify_n8n_def session_scope_def)
qed

subsection \<open>Witnesses\<close>

definition quiet_alert :: canonical_alert where
  "quiet_alert = mentioning_alert\<lparr>c_source_event := (c_source_event mentioning_alert)
     \<lparr>se_rule := \<lparr>rule_id = ''1'', rule_level = 12, rule_description = ''sshd'', rule_groups = [], rule_mitre = []\<rparr>\<rparr>\<rparr>"

end
