(* ===== verification/Notification_Examples.thy ===== *)
theory Notification_Examples
  imports Alert_Notifier "HOL-Library.Code_Target_Nat"
begin

text \<open>
  A run of the notifier on a concrete alert: the payload is built, posted, accepted and recorded, and a
  second notification of the same alert is suppressed.
\<close>

lemma occurs_filter: "occurs needle hay \<Longrightarrow> occurs (filter P needle) (filter P hay)"
  unfolding occurs_iff by (metis filter_append)

lemma quiet_payload: "\<exists>p. build_n8n_payload (\<lambda>_. []) quiet_alert ''new_generation'' None = Inr p"
proof -
  define p where "p = assembled_payload quiet_alert (the (c_risk quiet_alert)) (the (c_decision quiet_alert)) ''new_generation'' []"
  have "\<not> occurs (filter (\<lambda>c. c \<in> set ''fl_'') ''full_log'')
      (filter (\<lambda>c. c \<in> set ''fl_'') (lower (json_repr (\<lambda>_. []) (payload_dump p))))" unfolding p_def by code_simp
  then have "\<not> mentions_full_log (\<lambda>_. []) (payload_dump p)"
    unfolding mentions_full_log_def by (rule contrapos_nn [OF _ occurs_filter])
  then show ?thesis
    by (auto simp: build_n8n_payload_def model_dump_sanitized_def p_def quiet_alert_def mentioning_alert_def rstrip_of_def Let_def)
qed

definition quiet_store :: store where
  "quiet_store = empty_store\<lparr>st_alerts := [(1, \<lparr>al_id = 1, al_source = ''wazuh'', al_received_at = 0, al_group_key = ''g'',
     al_event_identity = ''e'', al_rule_id = ''1'', al_rule_level = 12, al_agent_id = ''1'', al_agent_name = ''a'',
     al_payload = quiet_alert, al_incident_id = None, al_created_at = 0\<rparr>)]\<rparr>"

definition willing_world :: n8n_world where
  "willing_world = \<lparr>nw_answers = [Answered 200 None], nw_clock = [], nw_posts = [], nw_pauses = []\<rparr>"

definition plain_services :: unicode_services where
  "plain_services = \<lparr>us_idna = (\<lambda>h. None), us_netloc_ok = (\<lambda>n. True)\<rparr>"

definition plain_client :: n8n_client where
  "plain_client = \<lparr>nc_webhook_url = ''http://n8n/x'', nc_token = [], nc_max_retries = 1, nc_backoff = 0, nc_enabled = True\<rparr>"

lemma willing_send: "\<exists>r w'. n8n_send plain_services (\<lambda>_. []) plain_client p willing_world = (Inr r, w') \<and> nr_delivered r"
  by (simp add: n8n_send_def plain_client_def willing_world_def monotonic_def post_def Let_def)

theorem delivered_once_witness:
  "\<exists>r s1 w1 s3. nr_delivered r
     \<and> notify_n8n (\<lambda>_. []) (n8n_send plain_services (\<lambda>_. []) plain_client) (True, True) quiet_alert ''new_generation'' 0 None
         (quiet_store, willing_world) = (Inr (Some r), s1, w1)
     \<and> notify_n8n (\<lambda>_. []) (n8n_send plain_services (\<lambda>_. []) plain_client) (True, True) quiet_alert ''new_generation'' 5 None
         (s1, willing_world) = (Inr (Some (skipped_result (uuid_str 1) None ''duplicate'')), s3, willing_world)"
proof -
  have id: "c_alert_id quiet_alert = 1" by (simp add: quiet_alert_def mentioning_alert_def)
  obtain p where p: "build_n8n_payload (\<lambda>_. []) quiet_alert ''new_generation'' None = Inr p" using quiet_payload ..
  obtain r w1 where sent: "n8n_send plain_services (\<lambda>_. []) plain_client p willing_world = (Inr r, w1)" "nr_delivered r"
    using willing_send [of p] by blast
  have "\<not> has_delivered 1 quiet_store" by (simp add: has_delivered_def quiet_store_def empty_store_def)
  then have "suppress_delivered 1 0 quiet_store = Inr (None, quiet_store)" by (simp add: suppress_delivered_eq)
  then obtain s1 where run: "notify_n8n (\<lambda>_. []) (n8n_send plain_services (\<lambda>_. []) plain_client) (True, True) quiet_alert
      ''new_generation'' 0 None (quiet_store, willing_world) = (Inr (Some r), s1, w1)"
    using p sent(1) by (simp add: notify_n8n_def session_scope_def id)
  obtain r' s3 w3 where again: "notify_n8n (\<lambda>_. []) (n8n_send plain_services (\<lambda>_. []) plain_client) (True, True) quiet_alert
      ''new_generation'' 5 None (s1, willing_world) = (r', s3, w3)" by (metis prod.collapse)
  have "map_of (st_alerts quiet_store) (c_alert_id quiet_alert) \<noteq> None" "c_alert_id quiet_alert < 2 ^ 128"
    by (simp_all add: quiet_store_def id)
  from delivered_once [OF this(2,1) run sent(2) subset_refl again refl] run again sent(2)
  show ?thesis unfolding id by blast
qed

theorem notification_confined_witness:
  "\<exists>r s1 w1 ns es. notify_n8n (\<lambda>_. []) (n8n_send plain_services (\<lambda>_. []) plain_client) (True, True) quiet_alert
       ''new_generation'' 0 None (quiet_store, willing_world) = (r, s1, w1)
     \<and> s1 = quiet_store\<lparr>st_notifications := ns, st_audit := es\<rparr> \<and> length ns \<le> 1"
proof -
  obtain r s1 w1 where run: "notify_n8n (\<lambda>_. []) (n8n_send plain_services (\<lambda>_. []) plain_client) (True, True) quiet_alert
       ''new_generation'' 0 None (quiet_store, willing_world) = (r, s1, w1)" by (metis prod.collapse)
  from notification_confined [OF this] show ?thesis
    using run by (auto simp: quiet_store_def empty_store_def)
qed

end
