(* ===== verification/Alert_Ingest.thy ===== *)
theory Alert_Ingest
  imports Alert_Notifier Assessment Correlation_Facts Persistent_Dedup Enrichment_Chain Decision_Router
    Wazuh_Normalizer Asset_Inventory Ioc_Extractor
begin

text \<open>
  The intake of an alert: \<open>ingest_alert\<close> of api/alerts.py, which runs every stage of the
  pipeline on one request. The stages are the models of the other theories; \<open>json.loads\<close>, the
  validation of the payload by pydantic and what the request meets outside the program (the fresh
  UUID, the clock, the fate of each unit of work) are inputs.
\<close>

subsection \<open>The application and the request\<close>

record ('e, 'w) application =
  ap_loads :: "string \<Rightarrow> json option"
  ap_validate :: "json \<Rightarrow> wazuh_alert option"
  ap_unicode :: unicode_services
  ap_digest :: "json \<Rightarrow> string"
  ap_float_text :: "json \<Rightarrow> string"
  ap_inventory :: "asset_inventory option"
  ap_providers :: "'e provider list"
  ap_dedupe_window :: int
  ap_scoring :: scoring_policy
  ap_decisions :: decision_policy
  ap_correlation_window :: int
  ap_deliver :: "n8n_payload \<Rightarrow> 'w \<Rightarrow> (string + notification_result) \<times> 'w"
  ap_host :: string
  ap_port :: nat

record surroundings =
  su_alert_id :: uuid
  su_received_at :: instant
  su_dedupe :: db_env
  su_incident_lookup :: bool
  su_context_lookup :: bool
  su_assess :: bool
  su_correlate :: bool
  su_notify :: "bool \<times> bool"

record request =
  rq_content_length :: "string option"
  rq_chunks :: "string list"

datatype rejection = Payload_too_large | Malformed_json | Schema_invalid | Identity_invalid | Storage_unavailable

fun rejection_status :: "rejection \<Rightarrow> nat" where
  "rejection_status Payload_too_large = 413"
| "rejection_status Malformed_json = 422"
| "rejection_status Schema_invalid = 422"
| "rejection_status Identity_invalid = 422"
| "rejection_status Storage_unavailable = 503"

record acceptance =
  ac_duplicate :: bool
  ac_dedupe_status :: dedupe_status
  ac_alert_id :: uuid
  ac_received_at :: instant
  ac_dedupe :: canonical_dedupe
  ac_iocs :: "ioc list"
  ac_enrichment_status :: enrichment_status
  ac_incident_id :: "string option"
  ac_correlation_context_id :: "string option"
  ac_normalized :: canonical_alert
  ac_notification :: "notification_result option"

datatype ingest_reply = Rejected rejection | Accepted acceptance

definition reply_status :: "ingest_reply \<Rightarrow> nat" where
  "reply_status r =
     (case r of Rejected x \<Rightarrow> rejection_status x | Accepted a \<Rightarrow> if ac_duplicate a then 200 else 202)"

subsection \<open>The body\<close>

definition max_body_size :: nat where
  "max_body_size = 256 * 1024"

fun read_chunks :: "nat \<Rightarrow> string list \<Rightarrow> string option" where
  "read_chunks received [] = Some []"
| "read_chunks received (chunk # chunks) =
     (let received = received + length chunk in
      if max_body_size < received then None else map_option ((@) chunk) (read_chunks received chunks))"

definition read_body_with_limit :: "string list \<Rightarrow> string option" where
  "read_body_with_limit chunks = read_chunks 0 chunks"

definition declared_too_large :: "string option \<Rightarrow> bool" where
  "declared_too_large content_length =
     (case content_length of
        None \<Rightarrow> False
      | Some text \<Rightarrow> (case int_of_text text of Inl _ \<Rightarrow> False | Inr n \<Rightarrow> int max_body_size < n))"

definition read_alert :: "('e, 'w) application \<Rightarrow> request \<Rightarrow> rejection + wazuh_alert" where
  "read_alert app req =
     (if declared_too_large (rq_content_length req) then Inl Payload_too_large
      else (case read_body_with_limit (rq_chunks req) of
          None \<Rightarrow> Inl Payload_too_large
        | Some body \<Rightarrow>
            (case ap_loads app body of
               None \<Rightarrow> Inl Malformed_json
             | Some raw \<Rightarrow> (case ap_validate app raw of None \<Rightarrow> Inl Schema_invalid | Some a \<Rightarrow> Inr a))))"

subsection \<open>The stages\<close>

text \<open>Normalize, apply the inventory, extract, enrich.\<close>

definition enriched_alert :: "('e, 'w) application \<Rightarrow> surroundings \<Rightarrow> wazuh_alert \<Rightarrow> 'e
    \<Rightarrow> canonical_alert \<times> enrichment_status \<times> 'e" where
  "enriched_alert app su alert e =
     (let canonical = apply_asset_inventory
            (normalize_wazuh_alert alert (su_alert_id su) (su_received_at su)) (ap_inventory app);
          iocs = extract_iocs (ap_unicode app) default_ioc_policy canonical;
          (outcome, e) = chain_enrich (ap_providers app) iocs
            (Some \<lparr>ec_alert_id = Some (c_alert_id canonical), ec_source = c_source canonical,
               ec_received_at = Some (su_received_at su), ec_dedupe_group = None\<rparr>) e in
      (canonical\<lparr>c_iocs := eo_iocs outcome, c_enrichment_status := Some (enrichment_status_value (eo_status outcome))\<rparr>,
       eo_status outcome, e))"

definition incident_echo :: "bool \<Rightarrow> uuid \<Rightarrow> store \<Rightarrow> string option" where
  "incident_echo db_ok alert_id s =
     (case fst (session_scope db_ok (db_read (incident_for_alert alert_id)) s) of
        Inr (Some i) \<Rightarrow> Some (inc_id i) | _ \<Rightarrow> None)"

definition context_echo :: "bool \<Rightarrow> uuid \<Rightarrow> store \<Rightarrow> string option" where
  "context_echo db_ok alert_id s =
     (case fst (session_scope db_ok (db_read (context_for_alert alert_id)) s) of
        Inr (Some (c, _)) \<Rightarrow> Some (cx_id c) | _ \<Rightarrow> None)"

text \<open>A correlation failure is swallowed.\<close>

definition correlate_alert :: "('e, 'w) application \<Rightarrow> bool \<Rightarrow> uuid \<Rightarrow> instant \<Rightarrow> store \<Rightarrow> string option \<times> store" where
  "correlate_alert app db_ok alert_id received_at s =
     (case correlate db_ok (ap_correlation_window app) alert_id (Aware received_at 0) s of
        (Inr (Some r), s) \<Rightarrow> (Some (cr_context_id r), s)
      | (_, s) \<Rightarrow> (None, s))"

text \<open>Score, decide, persist, correlate: what a new or recurring alert goes through.\<close>

definition assess_alert :: "('e, 'w) application \<Rightarrow> surroundings \<Rightarrow> dedupe_outcome \<Rightarrow> store
    \<Rightarrow> (py_exn + canonical_alert \<times> string option \<times> string option) \<times> store" where
  "assess_alert app su out s =
     (let risk = risk_scorer_score (ap_scoring app) (do_canonical out) in
      case decide risk (do_canonical out) (ap_decisions app) (Some (su_received_at su)) (su_received_at su) of
        Inl e \<Rightarrow> (Inl e, s)
      | Inr d \<Rightarrow>
          (let assessed = (do_canonical out)\<lparr>c_risk := Some risk, c_decision := Some d\<rparr> in
           case persist_assessment (su_assess su) (do_alert_id out) assessed risk d (do_group_key out)
                  (su_received_at su) None None s of
             (Inl e, s) \<Rightarrow> (Inl e, s)
           | (Inr (incident_id, persisted), s) \<Rightarrow>
               (let (context_id, s) = correlate_alert app (su_correlate su) (do_alert_id out) (su_received_at su) s in
                (Inr (assessed, incident_id, context_id), s))))"

definition base_url :: "('e, 'w) application \<Rightarrow> string" where
  "base_url app =
     ''http://'' @ (if ap_host app = ''0.0.0.0'' then ''localhost'' else ap_host app) @ '':'' @ nat_str (ap_port app)"

text \<open>An exception of the notifier is swallowed.\<close>

definition notify_alert :: "('e, 'w) application \<Rightarrow> surroundings \<Rightarrow> canonical_alert \<Rightarrow> dedupe_status \<Rightarrow> store \<times> 'w
    \<Rightarrow> notification_result option \<times> store \<times> 'w" where
  "notify_alert app su assessed status sw =
     (case notify_n8n (ap_float_text app) (ap_deliver app) (su_notify su) assessed (dedupe_status_value status)
             (su_received_at su) (Some (base_url app)) sw of
        (Inl e, sw) \<Rightarrow> (None, sw)
      | (Inr r, sw) \<Rightarrow> (r, sw))"

subsection \<open>The handler\<close>

definition accepted_reply :: "surroundings \<Rightarrow> dedupe_outcome \<Rightarrow> enrichment_status \<Rightarrow> canonical_alert
    \<Rightarrow> string option \<Rightarrow> string option \<Rightarrow> notification_result option \<Rightarrow> ingest_reply" where
  "accepted_reply su out status assessed incident_id context_id notification =
     Accepted \<lparr>ac_duplicate = (do_status out = EXACT_DUPLICATE), ac_dedupe_status = do_status out,
       ac_alert_id = do_alert_id out, ac_received_at = su_received_at su, ac_dedupe = do_dedupe out,
       ac_iocs = c_iocs (do_canonical out), ac_enrichment_status = status, ac_incident_id = incident_id,
       ac_correlation_context_id = context_id, ac_normalized = assessed, ac_notification = notification\<rparr>"

text \<open>After deduplication: an exact duplicate is echoed, anything else assessed and notified.\<close>

definition finish_alert :: "('e, 'w) application \<Rightarrow> surroundings \<Rightarrow> dedupe_outcome \<Rightarrow> enrichment_status
    \<Rightarrow> store \<times> 'w \<Rightarrow> (py_exn + ingest_reply) \<times> store \<times> 'w" where
  "finish_alert app su out status = (\<lambda>(s, w).
     if do_status out = EXACT_DUPLICATE then
       (Inr (accepted_reply su out status (do_canonical out)
          (incident_echo (su_incident_lookup su) (do_alert_id out) s)
          (context_echo (su_context_lookup su) (do_alert_id out) s) None), s, w)
     else
       (case assess_alert app su out s of
          (Inl e, s) \<Rightarrow> (Inl e, s, w)
        | (Inr (assessed, incident_id, context_id), s) \<Rightarrow>
            (let (notification, s, w) = notify_alert app su assessed (do_status out) (s, w) in
             (Inr (accepted_reply su out status assessed incident_id context_id notification), s, w))))"

definition ingest_alert :: "('e, 'w) application \<Rightarrow> surroundings \<Rightarrow> request \<Rightarrow> store \<times> 'e \<times> 'w
    \<Rightarrow> (py_exn + ingest_reply) \<times> store \<times> 'e \<times> 'w" where
  "ingest_alert app su req = (\<lambda>(s, e, w).
     case read_alert app req of
       Inl x \<Rightarrow> (Inr (Rejected x), s, e, w)
     | Inr alert \<Rightarrow>
         (let (canonical, status, e) = enriched_alert app su alert e in
          case persistent_process (ap_digest app) (ap_dedupe_window app) (su_dedupe su) s alert canonical
                 (Aware (su_received_at su) 0) of
            (Inl InvalidDedupeInputError, s) \<Rightarrow> (Inr (Rejected Identity_invalid), s, e, w)
          | (Inl StorageError, s) \<Rightarrow> (Inr (Rejected Storage_unavailable), s, e, w)
          | (Inl x, s) \<Rightarrow> (Inl x, s, e, w)
          | (Inr out, s) \<Rightarrow>
              (let (r, s, w) = finish_alert app su out status (s, w) in (r, s, e, w))))"

end
