(* ===== verification/Assessment_Frame.thy ===== *)
theory Assessment_Frame
  imports Assessment Persistent_Dedup
begin

text \<open>
  What an assessment leaves alone: it rewrites the row of its alert, so the deduplication tables stay
  intact and the retained event of the alert answers with the new payload.
\<close>

definition rewritten :: "uuid \<Rightarrow> (alert_row \<Rightarrow> alert_row) \<Rightarrow> store \<Rightarrow> store \<Rightarrow> bool" where
  "rewritten a f s s' \<longleftrightarrow> st_alerts s' = st_alerts (set_alert a f s) \<and> st_groups s' = st_groups s
     \<and> st_events s' = st_events s \<and> st_contexts s' = st_contexts s \<and> st_members s' = st_members s"

lemma alerts_set_cong: "st_alerts t = st_alerts s \<Longrightarrow> st_alerts (set_alert a f t) = st_alerts (set_alert a f s)"
  by (simp add: set_alert_def split: option.split)

lemma alerts_set_twice: "st_alerts (set_alert a g (set_alert a f s)) = st_alerts (set_alert a (g \<circ> f) s)"
  by (simp add: set_alert_def update_conv split: option.split)

lemma scored_alerts: "st_alerts (scored_store a c risk d t pr pd s) = st_alerts (set_alert a (\<lambda>r. r\<lparr>al_payload := c\<rparr>) s)"
  by (simp add: scored_store_def)

lemma assessment_rewrites:
  assumes "assessment_body a c risk d g t pr pd s = Inr (r, s')"
  shows "\<exists>f. rewritten a f s s' \<and> (\<forall>x. al_id (f x) = al_id x \<and> al_payload (f x) = c)"
proof -
  let ?pay = "\<lambda>r. r\<lparr>al_payload := c\<rparr>" and ?link = "\<lambda>k x. x\<lparr>al_incident_id := Some k\<rparr>"
  have link: "st_alerts (set_alert a (?link k) x) = st_alerts (set_alert a (?link k \<circ> ?pay) s)"
    if "st_alerts x = st_alerts (set_alert a ?pay s)" for k x
    using alerts_set_cong [OF that] alerts_set_twice by simp
  from assms show ?thesis
  proof (cases rule: assessment_cases)
    case no_incident
    then show ?thesis by (intro exI [of _ ?pay]) (simp add: rewritten_def scored_alerts)
  next
    case (attached i)
    then show ?thesis
      using link [OF scored_alerts] by (intro exI [of _ "?link (inc_id i) \<circ> ?pay"]) (simp add: rewritten_def)
  next
    case (created k sev i s1)
    have "st_alerts s1 = st_alerts (set_alert a (?link k \<circ> ?pay) s)"
      unfolding created(7) by (rule link) (simp add: scored_alerts)
    then show ?thesis
      using created(7,8) by (intro exI [of _ "?link k \<circ> ?pay"]) (simp add: rewritten_def)
  qed
qed

lemma rewritten_rows:
  assumes "rewritten a f s s'"
  shows "map_of (st_alerts s') u = (if u = a then map_option f (map_of (st_alerts s) a) else map_of (st_alerts s) u)"
    and "map fst (st_alerts s') = map fst (st_alerts s)"
proof -
  have alerts: "st_alerts s' = st_alerts (set_alert a f s)" using assms by (simp add: rewritten_def)
  show "map_of (st_alerts s') u = (if u = a then map_option f (map_of (st_alerts s) a) else map_of (st_alerts s) u)"
    unfolding alerts by (simp add: map_of_set_alert)
  show "map fst (st_alerts s') = map fst (st_alerts s)"
    unfolding alerts by (cases "map_of (st_alerts s) a") (simp_all add: set_alert_def update_present_keys)
qed

lemma rewritten_id: "s' = s \<Longrightarrow> \<exists>f. rewritten a f s s' \<and> (\<forall>x. al_id (f x) = al_id x)"
proof (intro exI conjI)
  assume "s' = s"
  moreover have "AList.update a x al = al" if "map_of al a = Some x" for x and al :: "(uuid, alert_row) dict"
    using that by (induction al) (auto split: if_splits)
  ultimately show "rewritten a (\<lambda>x. x) s s'" by (simp add: rewritten_def set_alert_def split: option.split)
qed simp

lemma rewritten_ok:
  assumes "dedupe_tables_ok s" "rewritten a f s s'" "\<forall>x. al_id (f x) = al_id x \<and> al_payload (f x) = c" "c_alert_id c = a"
  shows "dedupe_tables_ok s'"
proof -
  note rows = rewritten_rows [OF assms(2)]
  have distinct: "distinct (map fst (st_alerts s))" "distinct (map fst (st_alerts s'))"
    using assms(1) rows(2) by (simp_all add: dedupe_tables_ok_def)
  have "wf_alert_row i x" if "(i, x) \<in> set (st_alerts s')" for i x
  proof -
    have "map_of (st_alerts s') i = Some x" using that distinct(2) by simp
    then obtain y where y: "map_of (st_alerts s) i = Some y" "x = (if i = a then f y else y)"
      using rows(1) [of i] by (auto split: if_splits)
    then have "wf_alert_row i y" using assms(1) by (auto simp: dedupe_tables_ok_def dest!: map_of_SomeD)
    then show ?thesis using y(2) assms(3,4) by (auto simp: wf_alert_row_def)
  qed
  moreover have "wf_event_row s' i x" if "(i, x) \<in> set (st_events s')" for i x
  proof -
    have "wf_event_row s i x" using that assms(1,2) by (auto simp: dedupe_tables_ok_def rewritten_def)
    then show ?thesis using assms(2) rows(1) by (auto simp: wf_event_row_def rewritten_def)
  qed
  ultimately show ?thesis using assms(1,2) distinct by (auto simp: dedupe_tables_ok_def rewritten_def)
qed

text \<open>The retained event of the alert now answers with the new payload.\<close>

lemma rewritten_event:
  assumes ok: "dedupe_tables_ok s" "dedupe_tables_ok s'" and rw: "rewritten a f s s'" "\<forall>x. al_payload (f x) = c"
    and g: "stored_group_state s key = Some g" "map_of (gs_events g) i = Some r" "er_alert_id r = a"
  shows "\<exists>g' r'. stored_group_state s' key = Some g' \<and> map_of (gs_events g') i = Some r'
     \<and> er_alert_id r' = a \<and> er_canonical r' = c \<and> er_last_delivered r' = er_last_delivered r"
proof -
  obtain row where row: "map_of (st_groups s) key = Some row" "g = row_group row (group_events s key)"
    using g(1) by (auto simp: stored_group_state_eq [OF ok(1)])
  then have "(i, r) \<in> set (group_events s key)" using g(2) by (auto simp: row_group_def dest: map_of_SomeD)
  then obtain e x where e: "(i, e) \<in> set (st_events s)" "ev_group_key e = key"
      "map_of (st_alerts s) (ev_alert_id e) = Some x" "r = event_to_record e x"
    unfolding set_group_events by blast
  then have "ev_alert_id e = a" using g(3) by (simp add: event_to_record_def)
  then have "(i, event_to_record e (f x)) \<in> set (group_events s' key)"
    unfolding set_group_events using e rw(1) rewritten_rows(1) [OF rw(1), of a] by (auto simp: rewritten_def)
  then have "map_of (group_events s' key) i = Some (event_to_record e (f x))"
    using distinct_group_events [OF ok(2)] by simp
  moreover have "stored_group_state s' key = Some (row_group row (group_events s' key))"
    using row(1) rw(1) by (simp add: stored_group_state_eq [OF ok(2)] rewritten_def)
  ultimately show ?thesis using e(4) g(3) rw(2) by (auto simp: row_group_def event_to_record_def)
qed

subsection \<open>Which assessments are stored, and where the incident is noted\<close>

text \<open>
  What the database needs to take an assessment: the unit of work is committed and, should an incident be
  opened, its id and its primary alert are not in the table yet.
\<close>

definition assessment_storable :: "bool \<Rightarrow> uuid \<Rightarrow> instant \<Rightarrow> store \<Rightarrow> bool" where
  "assessment_storable db_ok a t s \<longleftrightarrow> db_ok
     \<and> (\<forall>k. next_incident_id t s = Inr k \<longrightarrow> k \<notin> fst ` set (st_incidents s))
     \<and> a \<notin> inc_primary_alert_id ` set (rows (st_incidents s))"

lemma next_id_no_storage_error: "next_incident_id t s \<noteq> Inl SQLAlchemyError"
proof -
  have "then_ok (parse_int x) (\<lambda>n. Inr (f n)) \<noteq> Inl SQLAlchemyError" for x and f :: "nat \<Rightarrow> string"
    by (simp add: parse_int_def)
  then show ?thesis by (simp add: next_incident_id_def next_seq_id_def split: option.split)
qed

lemma create_storable:
  assumes "assessment_storable True a t s" "get_alert_row a s \<noteq> None"
  shows "create_incident a sev g t s \<noteq> Inl SQLAlchemyError"
proof (cases "next_incident_id t s")
  case (Inl e)
  then show ?thesis using assms(2) next_id_no_storage_error [of t s] by (auto simp: create_incident_def db_bind_def db_run)
next
  case (Inr k)
  then show ?thesis using assms by (auto simp: create_incident_run assessment_storable_def)
qed

lemma assessment_storage_error:
  assumes e: "assessment_body a c risk d g t pr pd s = Inl SQLAlchemyError"
  shows "\<not> assessment_storable True a t s"
proof
  assume ok: "assessment_storable True a t s"
  let ?s = "scored_store a c risk d t pr pd s"
  have row: "get_alert_row a s \<noteq> None"
    using e by (auto simp: assessment_body_def update_normalized_payload_def db_bind_def db_run split: if_splits)
  have "link_incident a d g t ?s = Inl SQLAlchemyError"
    using e row by (auto simp: assessment_body_def update_normalized_payload_def scored_store_def db_bind_def db_run audit_append_def)
  moreover have "assessment_storable True a t ?s" using ok by (simp add: assessment_storable_def next_incident_id_def)
  then have "create_incident a sev g t ?s \<noteq> Inl SQLAlchemyError" for sev using row by (intro create_storable) simp_all
  ultimately show False
    using row by (auto simp: link_incident_def db_bind_def db_run audit_append_def attach_def link_alert_def
        split: if_splits option.splits sum.splits)
qed

lemma persist_storable:
  assumes "persist_assessment db_ok a c risk d g t pr pd s = (Inr (r, False), s')"
  shows "\<not> assessment_storable db_ok a t s"
proof -
  have "\<not> db_ok \<or> assessment_body a c risk d g t pr pd s = Inl SQLAlchemyError"
    using assms by (auto simp: persist_assessment_def session_scope_def split: if_splits sum.splits prod.splits)
  then show ?thesis using assessment_storage_error [of a c risk d g t pr pd s] by (auto simp: assessment_storable_def)
qed

lemma assessment_links_row:
  assumes run: "assessment_body a c risk d g t pr pd s = Inr (r, s')" and row: "get_alert_row a s = Some x" "al_incident_id x = None"
  shows "\<exists>y. get_alert_row a s' = Some y \<and> al_payload y = c \<and> al_incident_id y = r"
  using run
proof (cases rule: assessment_cases)
  case no_incident
  then show ?thesis using row by simp
next
  case (attached i)
  then show ?thesis using row by (simp add: get_alert_row_def map_of_set_alert scored_alerts)
next
  case (created k sev i s1)
  then show ?thesis using row by (simp add: get_alert_row_def map_of_set_alert scored_alerts)
qed

end
