(* ===== verification/Ingest_Facts.thy ===== *)
theory Ingest_Facts
  imports Alert_Ingest Assessment_Frame
begin

text \<open>
  What the intake guarantees end to end, whatever the providers, the database, the correlator and
  the notifier do: rejections leave no trace, an accepted alert is stored, correlation and
  notification cannot change an answer, and a repeated delivery is answered with the original.
\<close>

subsection \<open>The body limit\<close>

lemma read_chunks_limit:
  "read_chunks received chunks = (if chunks = [] \<or> received + length (concat chunks) \<le> max_body_size
     then Some (concat chunks) else None)"
proof (induction received chunks rule: read_chunks.induct)
  case (2 received chunk chunks)
  then show ?case by (auto simp: Let_def)
qed simp

subsection \<open>Units of work that leave the alerts alone\<close>

definition confined :: "'a db \<Rightarrow> bool" where
  "confined m \<longleftrightarrow> (\<forall>s x s'. m s = Inr (x, s') \<longrightarrow> same_but_correlation s s')"

lemma confined_bind: "confined m \<Longrightarrow> (\<And>x. confined (f x)) \<Longrightarrow> confined (db_bind m f)"
  unfolding confined_def db_bind_eq_Inr using same_but_trans by blast

lemma confined_basic:
  "confined (db_return x)" "confined (db_read f)" "confined (db_raise e)" "confined (db_require p)"
  "confined (audit_append es t)"
  by (auto simp: confined_def same_but_correlation_def)

lemma confined_repository:
  "confined (create_context t)" "confined (add_member k a ev t)" "confined (move_members x y)" "confined (refresh_bounds k t)"
  unfolding confined_def create_context_eq add_member_eq move_members_eq refresh_bounds_eq
  by (auto simp: same_but_correlation_def insert_member_def)

lemma confined_merge: "confined (merge_contexts target bridge others)"
  by (induction others) (auto intro!: confined_bind confined_basic confined_repository)

lemma confined_peers: "confined (add_peers target a t known qs)"
  by (induction target a t known qs rule: add_peers.induct)
     (auto intro!: confined_bind confined_basic confined_repository)

lemma confined_correlation: "confined (decide_and_apply w a t)"
  unfolding decide_and_apply_def apply_correlation_def choose_target_def Let_def
  by (auto intro!: confined_bind confined_basic confined_repository confined_merge confined_peers
    split: option.split list.split)

lemma correlate_frame:
  assumes "correlate_alert app db_ok a t s = (r, s')"
  shows "same_but_correlation s s'"
proof -
  have "same_but_correlation s (snd (correlate db_ok w a t' s))" for w t'
    using session_invariant [of "decide_and_apply w a (as_utc t')" s "same_but_correlation s" db_ok]
      confined_correlation [of w a "as_utc t'"]
    by (auto simp: correlate_def confined_def case_prod_beta split: sum.splits prod.splits)
  from this [of "ap_correlation_window app" "Aware t 0"] assms show ?thesis
    by (auto simp: correlate_alert_def case_prod_beta split: sum.splits option.splits prod.splits)
qed

lemma notify_frame:
  assumes "notify_alert app su c st (s, w) = (r, s', w')"
  shows "only_notified s s'"
proof -
  obtain x where "notify_n8n (ap_float_text app) (ap_deliver app) (su_notify su) c (dedupe_status_value st)
      (su_received_at su) (Some (base_url app)) (s, w) = (x, s', w')"
    using assms by (auto simp: notify_alert_def split: prod.splits sum.splits)
  then show ?thesis by (rule notify_only_notified)
qed

subsection \<open>The stages after deduplication\<close>

text \<open>The tables deduplication reads.\<close>

definition same_intake :: "store \<Rightarrow> store \<Rightarrow> bool" where
  "same_intake s s' \<longleftrightarrow> st_alerts s' = st_alerts s \<and> st_groups s' = st_groups s \<and> st_events s' = st_events s"

lemma same_intake_trans: "same_intake s t \<Longrightarrow> same_intake t u \<Longrightarrow> same_intake s u"
  by (simp add: same_intake_def)

lemma correlation_intake: "same_but_correlation s s' \<Longrightarrow> same_intake s s'"
  by (simp add: same_but_correlation_def same_intake_def)

lemma notified_intake: "only_notified s s' \<Longrightarrow> same_intake s s'"
  by (auto simp: only_notified_def same_intake_def)

lemma same_intake_ok:
  "same_intake s s' \<Longrightarrow> dedupe_tables_ok s' = dedupe_tables_ok s \<and> stored_group_state s' = stored_group_state s"
  unfolding same_intake_def by (intro dedupe_tables_frame) simp_all

text \<open>
  A distinct alert is assessed, correlated and notified: its row is rewritten by the assessment, or
  left alone if the database refused it.
\<close>

lemma finish_distinct:
  assumes "finish_alert app su out status (s, w) = (Inr reply, s', w')" "do_status out \<noteq> EXACT_DUPLICATE"
  obtains risk d r ok s1 where
    "risk = risk_scorer_score (ap_scoring app) (do_canonical out)"
    "decide risk (do_canonical out) (ap_decisions app) (Some (su_received_at su)) (su_received_at su) = Inr d"
    "persist_assessment (su_assess su) (do_alert_id out) ((do_canonical out)\<lparr>c_risk := Some risk, c_decision := Some d\<rparr>)
       risk d (do_group_key out) (su_received_at su) None None s = (Inr (r, ok), s1)"
    "\<exists>ctx ntf. reply = accepted_reply su out status ((do_canonical out)\<lparr>c_risk := Some risk, c_decision := Some d\<rparr>) r ctx ntf"
    "same_intake s1 s'" "st_incidents s' = st_incidents s1"
proof -
  obtain assessed incident_id ctx s2 where a: "assess_alert app su out s = (Inr (assessed, incident_id, ctx), s2)"
      "(let (notification, s, w) = notify_alert app su assessed (do_status out) (s2, w) in
         (Inr (accepted_reply su out status assessed incident_id ctx notification), s, w)) = (Inr reply, s', w')"
    using assms by (auto simp: finish_alert_def split: prod.splits sum.splits)
  obtain ntf where n: "notify_alert app su assessed (do_status out) (s2, w) = (ntf, s', w')"
      "reply = accepted_reply su out status assessed incident_id ctx ntf"
    using a(2) by (auto simp: Let_def split: prod.splits)
  define risk where "risk = risk_scorer_score (ap_scoring app) (do_canonical out)"
  obtain d where d: "decide risk (do_canonical out) (ap_decisions app) (Some (su_received_at su)) (su_received_at su) = Inr d"
    using a(1) by (auto simp: assess_alert_def risk_def Let_def split: sum.splits)
  let ?c = "(do_canonical out)\<lparr>c_risk := Some risk, c_decision := Some d\<rparr>"
  obtain res s1 where p: "persist_assessment (su_assess su) (do_alert_id out) ?c risk d (do_group_key out)
      (su_received_at su) None None s = (res, s1)" by (metis prod.collapse)
  obtain r ok where res: "res = Inr (r, ok)"
    using a(1) d p by (cases res) (auto simp: assess_alert_def risk_def [symmetric] Let_def)
  have c: "correlate_alert app (su_correlate su) (do_alert_id out) (su_received_at su) s1 = (ctx, s2)"
      "assessed = ?c" "incident_id = r"
    using a(1) d p res by (auto simp: assess_alert_def risk_def [symmetric] Let_def split: prod.splits)
  have same: "same_intake s1 s'"
    using correlation_intake [OF correlate_frame [OF c(1)]] notified_intake [OF notify_frame [OF n(1)]]
    by (rule same_intake_trans)
  have inc: "st_incidents s' = st_incidents s1"
    using correlate_frame [OF c(1)] notify_frame [OF n(1)]
    by (auto simp: same_but_correlation_def only_notified_def)
  show thesis
    by (rule that [OF risk_def d _ _ same inc, of r ok]) (use p res n(2) c in auto)
qed

lemma finish_distinct_run:
  assumes "do_status out \<noteq> EXACT_DUPLICATE"
    and d: "decide (risk_scorer_score (ap_scoring app) (do_canonical out)) (do_canonical out) (ap_decisions app)
      (Some (su_received_at su)) (su_received_at su) = Inr d"
    and c: "c = (do_canonical out)\<lparr>c_risk := Some (risk_scorer_score (ap_scoring app) (do_canonical out)), c_decision := Some d\<rparr>"
    and p: "persist_assessment (su_assess su) (do_alert_id out) c (risk_scorer_score (ap_scoring app) (do_canonical out)) d
      (do_group_key out) (su_received_at su) None None s = (Inr (i, ok), s1)"
  obtains ctx ntf s' w' where "finish_alert app su out status (s, w) = (Inr (accepted_reply su out status c i ctx ntf), s', w')"
    "same_intake s1 s'" "st_incidents s' = st_incidents s1"
proof -
  obtain ctx s2 where x: "correlate_alert app (su_correlate su) (do_alert_id out) (su_received_at su) s1 = (ctx, s2)"
    by (metis prod.collapse)
  obtain ntf s3 w3 where n: "notify_alert app su c (do_status out) (s2, w) = (ntf, s3, w3)" by (metis prod.collapse)
  have "assess_alert app su out s = (Inr (c, i, ctx), s2)"
    using d p x by (simp add: assess_alert_def Let_def c)
  then have "finish_alert app su out status (s, w) = (Inr (accepted_reply su out status c i ctx ntf), s3, w3)"
    using assms(1) n by (simp add: finish_alert_def)
  moreover have "same_intake s1 s3"
    using correlation_intake [OF correlate_frame [OF x]] notified_intake [OF notify_frame [OF n]] by (rule same_intake_trans)
  moreover have "st_incidents s3 = st_incidents s1"
    using correlate_frame [OF x] notify_frame [OF n] by (auto simp: same_but_correlation_def only_notified_def)
  ultimately show thesis by (rule that)
qed

text \<open>The rest of the request under another correlator, another n8n.\<close>

lemma finish_fail_open:
  assumes run: "finish_alert app su out status (s, w) = (Inr (Accepted r), s1, w1)"
  obtains r' s' w' where
    "finish_alert (app\<lparr>ap_deliver := f\<rparr>) (su\<lparr>su_correlate := c, su_notify := n\<rparr>) out status (s, v) = (Inr (Accepted r'), s', w')"
    "same_intake s1 s'" "st_incidents s' = st_incidents s1"
    "r' = r\<lparr>ac_correlation_context_id := ac_correlation_context_id r', ac_notification := ac_notification r'\<rparr>"
proof (cases "do_status out = EXACT_DUPLICATE")
  case True
  with run show thesis by (intro that [of r s1 v]) (auto simp: finish_alert_def accepted_reply_def same_intake_def)
next
  case False
  from run False show thesis
  proof (rule finish_distinct)
    fix risk d i ok t
    assume h: "risk = risk_scorer_score (ap_scoring app) (do_canonical out)"
      "decide risk (do_canonical out) (ap_decisions app) (Some (su_received_at su)) (su_received_at su) = Inr d"
      "persist_assessment (su_assess su) (do_alert_id out) ((do_canonical out)\<lparr>c_risk := Some risk, c_decision := Some d\<rparr>)
         risk d (do_group_key out) (su_received_at su) None None s = (Inr (i, ok), t)"
      and reply: "\<exists>ctx ntf. Accepted r = accepted_reply su out status ((do_canonical out)\<lparr>c_risk := Some risk, c_decision := Some d\<rparr>) i ctx ntf"
      and same: "same_intake t s1" "st_incidents s1 = st_incidents t"
    let ?c = "(do_canonical out)\<lparr>c_risk := Some risk, c_decision := Some d\<rparr>"
    let ?app = "app\<lparr>ap_deliver := f\<rparr>" and ?su = "su\<lparr>su_correlate := c, su_notify := n\<rparr>"
    obtain ctx ntf s' w' where "finish_alert ?app ?su out status (s, v) = (Inr (accepted_reply ?su out status ?c i ctx ntf), s', w')"
      and same': "same_intake t s'" "st_incidents s' = st_incidents t"
      by (rule finish_distinct_run [OF False, of ?app ?su d ?c s i ok t status v]) (use h in simp_all)
    then show thesis
      using reply same by (intro that [of _ s' w']) (auto simp: accepted_reply_def same_intake_def)
  qed
qed

lemma finish_duplicate:
  assumes "finish_alert app su out status (s, w) = (Inr reply, s', w')" "do_status out = EXACT_DUPLICATE"
  shows "s' = s \<and> w' = w \<and> (\<exists>inc ctx. reply = accepted_reply su out status (do_canonical out) inc ctx None)"
  using assms by (auto simp: finish_alert_def)

text \<open>What the whole request did.\<close>

lemma ingest_accepted:
  assumes ok: "dedupe_tables_ok s" and run: "ingest_alert app su req (s, e, w) = (Inr (Accepted r), s', e', w')"
  obtains a c status out s1 where "read_alert app req = Inr a" "enriched_alert app su a e = (c, status, e')"
    "persistent_process (ap_digest app) (ap_dedupe_window app) (su_dedupe su) s a c (Aware (su_received_at su) 0) = (Inr out, s1)"
    "finish_alert app su out status (s1, w) = (Inr (Accepted r), s', w')"
proof -
  obtain a where a: "read_alert app req = Inr a"
    using run by (cases "read_alert app req") (auto simp: ingest_alert_def)
  obtain c status e1 where c: "enriched_alert app su a e = (c, status, e1)" by (metis prod.collapse)
  obtain res s1 where p: "persistent_process (ap_digest app) (ap_dedupe_window app) (su_dedupe su) s a c
      (Aware (su_received_at su) 0) = (res, s1)" by (metis prod.collapse)
  obtain out where out: "res = Inr out"
    using run a c p by (cases res) (auto simp: ingest_alert_def split: py_exn.splits)
  have "finish_alert app su out status (s1, w) = (Inr (Accepted r), s', w')" "e' = e1"
    using run a c p out by (auto simp: ingest_alert_def split: prod.splits)
  with a c p out show thesis by (intro that) auto
qed

lemma persist_delivery_frame:
  assumes ok: "dedupe_tables_ok s" and run: "persist_delivery now w k c s = Inr (d, s')"
  shows "st_notifications s' = st_notifications s \<and> st_feedback s' = st_feedback s"
  using run
  by (auto simp: persist_delivery_def load_state_eq [OF ok] record_event_def absorb_event_def upsert_group_def
      split: if_splits option.splits)

subsection \<open>Properties\<close>


text \<open>The payload on record: what the answer shows, or the alert as it was before a score that could not be stored.\<close>

definition recorded_as :: "canonical_alert \<Rightarrow> acceptance \<Rightarrow> bool" where
  "recorded_as c r \<longleftrightarrow> c = ac_normalized r
     \<or> (\<not> ac_duplicate r \<and> ac_incident_id r = None
        \<and> ac_normalized r = c\<lparr>c_risk := c_risk (ac_normalized r), c_decision := c_decision (ac_normalized r)\<rparr>)"

lemma retained_row:
  assumes "dedupe_tables_ok s" "stored_group_state s key = Some g" "map_of (gs_events g) i = Some r"
  shows "\<exists>x. map_of (st_alerts s) (er_alert_id r) = Some x \<and> al_payload x = er_canonical r
    \<and> c_alert_id (er_canonical r) = er_alert_id r"
proof -
  have "(i, r) \<in> set (group_events s key)"
    using assms by (auto simp: stored_group_state_eq row_group_def dest: map_of_SomeD)
  then obtain e x where x: "map_of (st_alerts s) (ev_alert_id e) = Some x" "r = event_to_record e x"
    unfolding set_group_events by blast
  moreover have "wf_alert_row (ev_alert_id e) x"
    using assms(1) x(1) by (auto simp: dedupe_tables_ok_def dest!: map_of_SomeD)
  ultimately show ?thesis by (simp add: event_to_record_def wf_alert_row_def)
qed

text \<open>After an accepted request the event is retained, under the answered id.\<close>

lemma finish_retains:
  assumes ok: "dedupe_tables_ok s" and fin: "finish_alert app su out status (s, w) = (Inr (Accepted r), s', w')"
    and g: "stored_group_state s key = Some g" "map_of (gs_events g) i = Some x"
    and x: "er_alert_id x = do_alert_id out" "er_canonical x = do_canonical out"
  shows "dedupe_tables_ok s' \<and> map fst (st_alerts s') = map fst (st_alerts s)
    \<and> ac_alert_id r = do_alert_id out \<and> ac_duplicate r = (do_status out = EXACT_DUPLICATE)
    \<and> (\<exists>g' x'. stored_group_state s' key = Some g' \<and> map_of (gs_events g') i = Some x'
        \<and> er_alert_id x' = ac_alert_id r \<and> recorded_as (er_canonical x') r
        \<and> er_last_delivered x' = er_last_delivered x)"
proof (cases "do_status out = EXACT_DUPLICATE")
  case True
  then have "s' = s" "\<exists>inc ctx. Accepted r = accepted_reply su out status (do_canonical out) inc ctx None"
    using finish_duplicate [OF fin] by simp_all
  then show ?thesis using ok g x True by (auto simp: accepted_reply_def recorded_as_def)
next
  case False
  have id: "c_alert_id (do_canonical out) = do_alert_id out" using retained_row [OF ok g] x by auto
  show ?thesis
  proof (rule finish_distinct [OF fin False])
    fix risk d inc stored s1
    let ?c = "(do_canonical out)\<lparr>c_risk := Some risk, c_decision := Some d\<rparr>"
    assume p: "persist_assessment (su_assess su) (do_alert_id out) ?c risk d (do_group_key out) (su_received_at su) None None s
        = (Inr (inc, stored), s1)"
      and reply: "\<exists>ctx ntf. Accepted r = accepted_reply su out status ?c inc ctx ntf" and same: "same_intake s1 s'"
    from reply have r: "ac_alert_id r = do_alert_id out" "\<not> ac_duplicate r" "ac_normalized r = ?c" "ac_incident_id r = inc"
      using False by (auto simp: accepted_reply_def)
    from p have "dedupe_tables_ok s1 \<and> map fst (st_alerts s1) = map fst (st_alerts s)
      \<and> (\<exists>g' x'. stored_group_state s1 key = Some g' \<and> map_of (gs_events g') i = Some x'
          \<and> er_alert_id x' = do_alert_id out \<and> recorded_as (er_canonical x') r
          \<and> er_last_delivered x' = er_last_delivered x)"
    proof (cases rule: persist_assessment_cases)
      case (persisted y)
      then obtain f where f: "rewritten (do_alert_id out) f s s1" "\<forall>z. al_id (f z) = al_id z \<and> al_payload (f z) = ?c"
        using assessment_rewrites by blast
      have ok1: "dedupe_tables_ok s1" using rewritten_ok [OF ok f] id by simp
      moreover have "\<forall>z. al_payload (f z) = ?c" using f(2) by simp
      from rewritten_event [OF ok ok1 f(1) this g x(1)] obtain g' x' where
        "stored_group_state s1 key = Some g'" "map_of (gs_events g') i = Some x'" "er_alert_id x' = do_alert_id out"
        "er_canonical x' = ?c" "er_last_delivered x' = er_last_delivered x" by blast
      ultimately show ?thesis using rewritten_rows(2) [OF f(1)] r(3) by (auto simp: recorded_as_def)
    next
      case storage_failed
      then show ?thesis using ok g x r by (auto simp: recorded_as_def)
    qed simp
    then show ?thesis using same_intake_ok [OF same] same r False by (auto simp: same_intake_def)
  qed
qed

lemma ingest_retains:
  assumes ok: "dedupe_tables_ok s" and run: "ingest_alert app su req (s, e, w) = (Inr (Accepted r), s', e', w')"
  obtains a k g x where "read_alert app req = Inr a"
    "delivery_key_of (ap_digest app) a (Aware (su_received_at su) 0) = Inr k"
    "dedupe_tables_ok s'" "stored_group_state s' (k_group k) = Some g" "map_of (gs_events g) (k_identity k) = Some x"
    "er_alert_id x = ac_alert_id r" "recorded_as (er_canonical x) r" "er_last_delivered x = k_received k"
    "map fst (st_alerts s') = map fst (st_alerts s) @ (if ac_duplicate r then [] else [ac_alert_id r])"
proof -
  obtain a c status out s1 where a: "read_alert app req = Inr a" "enriched_alert app su a e = (c, status, e')"
    and p: "persistent_process (ap_digest app) (ap_dedupe_window app) (su_dedupe su) s a c (Aware (su_received_at su) 0) = (Inr out, s1)"
    and fin: "finish_alert app su out status (s1, w) = (Inr (Accepted r), s', w')"
    by (rule ingest_accepted [OF ok run])
  from ok p obtain k d where k: "delivery_key_of (ap_digest app) a (Aware (su_received_at su) 0) = Inr k"
    and d: "persist_delivery (env_now (su_dedupe su)) (ap_dedupe_window app) k c s = Inr (d, s1)"
      "out = outcome_of d (k_identity k) (info_of (dd_group d) (k_identity k))" "dedupe_tables_ok s1"
    by (cases rule: persistent_process_cases) auto
  have step: "persistent_step (ap_digest app) (ap_dedupe_window app) (s, [su_dedupe su]) a c (Aware (su_received_at su) 0)
      = (Inr out, (s1, []))" by (simp add: persistent_step_def p)
  obtain g x where g: "stored_group_state s1 (k_group k) = Some g" "map_of (gs_events g) (k_identity k) = Some x"
    "er_alert_id x = do_alert_id out" "er_canonical x = do_canonical out" "er_last_delivered x = k_received k"
    using persistent.process_retains [OF _ k step] ok by auto
  have keys: "map fst (st_alerts s1) = map fst (st_alerts s) @ (if do_status out = EXACT_DUPLICATE then [] else [do_alert_id out])"
    using persist_delivery_rows [OF ok d(1)] d(2) by (simp add: outcome_of_def)
  from finish_retains [OF d(3) fin g(1-4)] obtain g' x' where
    "dedupe_tables_ok s'" "map fst (st_alerts s') = map fst (st_alerts s1)" "ac_alert_id r = do_alert_id out"
    "ac_duplicate r = (do_status out = EXACT_DUPLICATE)"
    "stored_group_state s' (k_group k) = Some g'" "map_of (gs_events g') (k_identity k) = Some x'"
    "er_alert_id x' = ac_alert_id r" "recorded_as (er_canonical x') r" "er_last_delivered x' = er_last_delivered x" by blast
  then show thesis using that [OF a(1) k] keys g(5) by simp
qed

lemma finish_links:
  assumes fin: "finish_alert app su out status (s, w) = (Inr (Accepted r), s', w')" and new: "do_status out \<noteq> EXACT_DUPLICATE"
    and row: "get_alert_row (do_alert_id out) s = Some x" "al_incident_id x = None"
  shows "\<exists>y. get_alert_row (ac_alert_id r) s' = Some y \<and> al_incident_id y = ac_incident_id r
    \<and> (assessment_storable (su_assess su) (ac_alert_id r) (su_received_at su) s \<longrightarrow> al_payload y = ac_normalized r)"
proof (rule finish_distinct [OF fin new])
  fix risk d inc stored s1
  let ?c = "(do_canonical out)\<lparr>c_risk := Some risk, c_decision := Some d\<rparr>"
  assume p: "persist_assessment (su_assess su) (do_alert_id out) ?c risk d (do_group_key out) (su_received_at su) None None s
      = (Inr (inc, stored), s1)"
    and reply: "\<exists>ctx ntf. Accepted r = accepted_reply su out status ?c inc ctx ntf" and same: "same_intake s1 s'"
  from reply have r: "ac_alert_id r = do_alert_id out" "ac_normalized r = ?c" "ac_incident_id r = inc"
    by (auto simp: accepted_reply_def)
  have rows: "get_alert_row (ac_alert_id r) s' = get_alert_row (do_alert_id out) s1"
    using same r(1) by (simp add: same_intake_def get_alert_row_def)
  from p show ?thesis
  proof (cases rule: persist_assessment_cases)
    case (persisted y)
    then obtain z where "get_alert_row (do_alert_id out) s1 = Some z" "al_payload z = ?c" "al_incident_id z = y"
      using assessment_links_row [OF _ row] by blast
    then show ?thesis using persisted(1) rows r by simp
  next
    case storage_failed
    then have "\<not> assessment_storable (su_assess su) (do_alert_id out) (su_received_at su) s"
      using persist_storable p by auto
    then show ?thesis using storage_failed rows r row by auto
  qed simp
qed

text \<open>
  C2. An accepted alert is on record: the tables are intact and hold the row of the answered id; a new or
  recurring alert adds exactly its own row, a duplicate none. The row of a new or recurring alert names the
  incident of the answer and holds the very alert the answer shows, risk and decision included, whenever the
  database takes the assessment: its commit succeeds and, should an incident be opened, neither its id nor
  its primary alert is taken. Otherwise the row holds that alert or the one before scoring, then with no
  incident. A duplicate is shown as recorded.
\<close>

theorem accepted_is_on_record:
  assumes "dedupe_tables_ok s" "ingest_alert app su req (s, e, w) = (Inr (Accepted r), s', e', w')"
  shows "dedupe_tables_ok s'
    \<and> map fst (st_alerts s') = map fst (st_alerts s) @ (if ac_duplicate r then [] else [ac_alert_id r])
    \<and> (\<exists>row. map_of (st_alerts s') (ac_alert_id r) = Some row \<and> recorded_as (al_payload row) r
        \<and> (ac_duplicate r \<longrightarrow> al_payload row = ac_normalized r)
        \<and> (\<not> ac_duplicate r \<longrightarrow> al_incident_id row = ac_incident_id r
            \<and> (assessment_storable (su_assess su) (ac_alert_id r) (su_received_at su) s \<longrightarrow> al_payload row = ac_normalized r)))"
proof -
  obtain a c status out s1 where a: "read_alert app req = Inr a" "enriched_alert app su a e = (c, status, e')"
    and p: "persistent_process (ap_digest app) (ap_dedupe_window app) (su_dedupe su) s a c (Aware (su_received_at su) 0) = (Inr out, s1)"
    and fin: "finish_alert app su out status (s1, w) = (Inr (Accepted r), s', w')"
    by (rule ingest_accepted [OF assms])
  from assms(1) p obtain k d where d: "persist_delivery (env_now (su_dedupe su)) (ap_dedupe_window app) k c s = Inr (d, s1)"
      "out = outcome_of d (k_identity k) (info_of (dd_group d) (k_identity k))" "dedupe_tables_ok s1"
    by (cases rule: persistent_process_cases) auto
  note rows = persist_delivery_rows [OF assms(1) d(1)]
  have fresh: "\<exists>y. get_alert_row (ac_alert_id r) s' = Some y \<and> al_incident_id y = ac_incident_id r
      \<and> (assessment_storable (su_assess su) (ac_alert_id r) (su_received_at su) s \<longrightarrow> al_payload y = ac_normalized r)"
    if "\<not> ac_duplicate r"
  proof -
    have new: "do_status out \<noteq> EXACT_DUPLICATE"
      using that finish_duplicate [OF fin] by (auto simp: accepted_reply_def)
    then have "(do_alert_id out, new_alert_row (dd_group d) (dd_record d)) \<in> set (st_alerts s1)"
      using rows d(2) by (simp add: outcome_of_def)
    moreover have "distinct (map fst (st_alerts s1))" using d(3) by (simp add: dedupe_tables_ok_def)
    ultimately have "get_alert_row (do_alert_id out) s1 = Some (new_alert_row (dd_group d) (dd_record d))"
      by (simp add: get_alert_row_def)
    then have "\<exists>y. get_alert_row (ac_alert_id r) s' = Some y \<and> al_incident_id y = ac_incident_id r
        \<and> (assessment_storable (su_assess su) (ac_alert_id r) (su_received_at su) s1 \<longrightarrow> al_payload y = ac_normalized r)"
      by (rule finish_links [OF fin new]) (simp add: new_alert_row_def Let_def)
    moreover have "assessment_storable b u t s1 = assessment_storable b u t s" for b u t
      using rows by (simp add: assessment_storable_def next_incident_id_def)
    ultimately show ?thesis by simp
  qed
  show ?thesis
  proof (rule ingest_retains [OF assms])
    fix k g x assume h: "dedupe_tables_ok s'" "stored_group_state s' (k_group k) = Some g"
      "map_of (gs_events g) (k_identity k) = Some x" "er_alert_id x = ac_alert_id r" "recorded_as (er_canonical x) r"
      "map fst (st_alerts s') = map fst (st_alerts s) @ (if ac_duplicate r then [] else [ac_alert_id r])"
    then obtain row where row: "map_of (st_alerts s') (ac_alert_id r) = Some row" "recorded_as (al_payload row) r"
      using retained_row [of s' "k_group k" g "k_identity k" x] by auto
    then show ?thesis using h(1,6) fresh by (cases "ac_duplicate r") (auto simp: recorded_as_def get_alert_row_def)
  qed
qed

text \<open>
  C3. A repeated delivery is answered with the original: when the same request arrives again within the
  window after an accepted one, whatever the providers say this time, the answer is an exact duplicate
  with the same alert id and the alert as recorded; no alert, incident, context, notification or
  feedback row changes, and n8n hears nothing.
\<close>

theorem redelivery_answered_with_original:
  assumes ok: "dedupe_tables_ok s"
    and first: "ingest_alert app su req (s, e, w) = (Inr (Accepted r1), s1, e1, w1)"
    and again: "ingest_alert app su2 req (s1, e2, w2) = (Inr (Accepted r2), s2, e3, w3)"
    and window: "su_received_at su2 - su_received_at su \<le> ap_dedupe_window app"
  shows "ac_duplicate r2 \<and> ac_alert_id r2 = ac_alert_id r1 \<and> recorded_as (ac_normalized r2) r1
    \<and> ac_notification r2 = None \<and> w3 = w2
    \<and> st_alerts s2 = st_alerts s1 \<and> st_incidents s2 = st_incidents s1 \<and> st_contexts s2 = st_contexts s1
    \<and> st_members s2 = st_members s1 \<and> st_notifications s2 = st_notifications s1 \<and> st_feedback s2 = st_feedback s1"
proof (rule ingest_retains [OF ok first])
  fix a k g x
  assume a: "read_alert app req = Inr a"
    and k: "delivery_key_of (ap_digest app) a (Aware (su_received_at su) 0) = Inr k"
    and ok1: "dedupe_tables_ok s1"
    and g: "stored_group_state s1 (k_group k) = Some g" "map_of (gs_events g) (k_identity k) = Some x"
    and x: "er_alert_id x = ac_alert_id r1" "recorded_as (er_canonical x) r1" "er_last_delivered x = k_received k"
  obtain a2 c2 status2 out2 t where a2: "read_alert app req = Inr a2" "enriched_alert app su2 a2 e2 = (c2, status2, e3)"
    and p: "persistent_process (ap_digest app) (ap_dedupe_window app) (su_dedupe su2) s1 a2 c2 (Aware (su_received_at su2) 0) = (Inr out2, t)"
    and fin: "finish_alert app su2 out2 status2 (t, w2) = (Inr (Accepted r2), s2, w3)"
    by (rule ingest_accepted [OF ok1 again])
  have same: "a2 = a" using a a2(1) by simp
  from ok1 p obtain k2 d where k2: "delivery_key_of (ap_digest app) a (Aware (su_received_at su2) 0) = Inr k2"
    and d: "persist_delivery (env_now (su_dedupe su2)) (ap_dedupe_window app) k2 c2 s1 = Inr (d, t)"
      "out2 = outcome_of d (k_identity k2) (info_of (dd_group d) (k_identity k2))"
    unfolding same by (cases rule: persistent_process_cases) auto
  have key: "k_group k2 = k_group k" "k_identity k2 = k_identity k"
      "k_received k2 - k_received k = su_received_at su2 - su_received_at su"
    using k k2 by (auto simp: delivery_key_of_eq)
  have step: "persistent_step (ap_digest app) (ap_dedupe_window app) (s1, [su_dedupe su2]) a c2 (Aware (su_received_at su2) 0)
      = (Inr out2, (t, []))" using p by (simp add: persistent_step_def same)
  have "do_status out2 = EXACT_DUPLICATE \<and> do_alert_id out2 = er_alert_id x \<and> do_canonical out2 = er_canonical x"
    using persistent.process_redelivery [OF _ k2 step, of g x] ok1 g x(3) key window by simp
  then have dup: "do_status out2 = EXACT_DUPLICATE" "do_alert_id out2 = er_alert_id x" "do_canonical out2 = er_canonical x"
    by simp_all
  have "st_alerts t = st_alerts s1 \<and> st_incidents t = st_incidents s1 \<and> st_contexts t = st_contexts s1
      \<and> st_members t = st_members s1 \<and> st_notifications t = st_notifications s1 \<and> st_feedback t = st_feedback s1"
    using persist_delivery_rows [OF ok1 d(1)] persist_delivery_frame [OF ok1 d(1)] dup(1) d(2) by (simp add: outcome_of_def)
  then show ?thesis
    using finish_duplicate [OF fin dup(1)] dup x(1,2) by (auto simp: accepted_reply_def)
qed

text \<open>
  C5. Correlation and notification are fail-open: whatever the correlator's database, the notification
  store and the n8n endpoint do, the same request is accepted with the same answer, the context id and the
  delivery report apart, and leaves the same alerts, dedup groups, events and incidents.
\<close>

theorem correlation_and_notification_fail_open:
  assumes ok: "dedupe_tables_ok s" and run: "ingest_alert app su req (s, e, w) = (Inr (Accepted r), s1, e1, w1)"
  shows "\<exists>r' s' w'. ingest_alert (app\<lparr>ap_deliver := deliver\<rparr>) (su\<lparr>su_correlate := correlate_ok, su_notify := notify_ok\<rparr>)
        req (s, e, w2) = (Inr (Accepted r'), s', e1, w')
    \<and> r' = r\<lparr>ac_correlation_context_id := ac_correlation_context_id r', ac_notification := ac_notification r'\<rparr>
    \<and> st_alerts s' = st_alerts s1 \<and> st_groups s' = st_groups s1 \<and> st_events s' = st_events s1
    \<and> st_incidents s' = st_incidents s1"
proof -
  let ?app = "app\<lparr>ap_deliver := deliver\<rparr>" and ?su = "su\<lparr>su_correlate := correlate_ok, su_notify := notify_ok\<rparr>"
  obtain a c status out t where h: "read_alert app req = Inr a" "enriched_alert app su a e = (c, status, e1)"
    "persistent_process (ap_digest app) (ap_dedupe_window app) (su_dedupe su) s a c (Aware (su_received_at su) 0) = (Inr out, t)"
    and fin: "finish_alert app su out status (t, w) = (Inr (Accepted r), s1, w1)"
    by (rule ingest_accepted [OF ok run])
  obtain r' s' w' where f: "finish_alert ?app ?su out status (t, w2) = (Inr (Accepted r'), s', w')"
    "same_intake s1 s'" "st_incidents s' = st_incidents s1"
    "r' = r\<lparr>ac_correlation_context_id := ac_correlation_context_id r', ac_notification := ac_notification r'\<rparr>"
    by (rule finish_fail_open [OF fin])
  have "read_alert ?app req = Inr a" using h(1) by (simp add: read_alert_def split: if_splits option.split_asm option.split)
  moreover have "enriched_alert ?app ?su a e = (c, status, e1)"
    using h(2) by (simp add: enriched_alert_def)
  ultimately have "read_alert ?app req = Inr a" "enriched_alert ?app ?su a e = (c, status, e1)" by simp_all
  then have "ingest_alert ?app ?su req (s, e, w2) = (Inr (Accepted r'), s', e1, w')"
    using h(3) f(1) by (simp add: ingest_alert_def)
  then show ?thesis using f(2-4) by (auto simp: same_intake_def)
qed

end
