(* ===== verification/Intake_Availability.thy ===== *)
theory Intake_Availability
  imports Ingest_Facts
begin

text \<open>
  When the intake accepts: with a validated decision policy and a database that takes the delivery,
  every well-formed alert is accepted, whatever happens to the later units of work. Concrete runs of
  the intake follow.
\<close>

subsection \<open>The assessment can only fail in the database\<close>

lemma assessment_body_error:
  assumes "incidents_ok s" "get_alert_row a s \<noteq> None" "d_action d = OPEN_INCIDENT \<Longrightarrow> d_severity d \<noteq> None"
    and k: "next_incident_id t s = Inr k" and e: "assessment_body a c risk d g t pr pd s = Inl e"
  shows "e = SQLAlchemyError"
proof -
  let ?s = "scored_store a c risk d t pr pd s"
  have row: "get_alert_row a ?s \<noteq> None" "next_incident_id t ?s = Inr k"
    using assms(2) k by (simp_all add: next_incident_id_def)
  have og: "open_for_group g ?s = open_for_group g s" by (rule open_for_group_frame) simp
  have "link_incident a d g t ?s = Inl e"
    using e assms(2) by (auto simp: assessment_body_def update_normalized_payload_def scored_store_def db_bind_def
        db_run audit_append_def)
  moreover have "get_incident (inc_id i) ?s \<noteq> None" if "open_for_group g s = Some i" for i
    using open_for_group_Some [OF that assms(1)] incidents_frame [of ?s s] by simp
  ultimately show ?thesis
    using assms(3) row og
    by (auto simp: link_incident_def db_bind_def db_run create_incident_run audit_append_def attach_def link_alert_def
        split: if_splits option.splits)
qed

definition sound_decisions :: "decision_policy \<Rightarrow> bool" where
  "sound_decisions p \<longleftrightarrow> decision_policy_validate p = Inr p \<and> dp_allowlisted_action p \<noteq> OPEN_INCIDENT"

lemma sound_decide:
  assumes "sound_decisions p"
  obtains d where "decide risk c p at now = Inr d" "d_action d = OPEN_INCIDENT \<Longrightarrow> d_severity d \<noteq> None"
proof -
  have v: "decision_policy_validate p = Inr p" using assms by (simp add: sound_decisions_def)
  obtain td where td: "map_of (dp_tier_actions p) (r_tier risk) = Some td"
    using decision_validate_InrD(2) [OF v] by blast
  show thesis
  proof (cases "alert_is_allowlisted c")
    case True
    then show ?thesis using assms that by (simp add: decide_def Let_def sound_decisions_def)
  next
    case False
    then show ?thesis using td decision_validate_InrD(3) [OF v td] that by (simp add: decide_def Let_def)
  qed
qed

lemma enriched_id: "enriched_alert app su a e = (c, status, e') \<Longrightarrow> c_alert_id c = su_alert_id su"
  by (auto simp: enriched_alert_def Let_def normalize_wazuh_alert_def apply_asset_inventory_def
      split: prod.splits option.splits if_splits)

subsection \<open>Acceptance\<close>

lemma finish_accepts:
  assumes p: "sound_decisions (ap_decisions app)"
    and inc: "do_status out \<noteq> EXACT_DUPLICATE \<Longrightarrow> incidents_ok s \<and> (\<exists>k. next_incident_id (su_received_at su) s = Inr k)"
    and row: "do_status out \<noteq> EXACT_DUPLICATE \<Longrightarrow> get_alert_row (do_alert_id out) s \<noteq> None"
  shows "\<exists>r s' w'. finish_alert app su out status (s, w) = (Inr (Accepted r), s', w') \<and> ac_dedupe_status r = do_status out
    \<and> ac_duplicate r = (do_status out = EXACT_DUPLICATE)"
proof (cases "do_status out = EXACT_DUPLICATE")
  case True
  then show ?thesis by (simp add: finish_alert_def accepted_reply_def)
next
  case False
  obtain d where d: "decide (risk_scorer_score (ap_scoring app) (do_canonical out)) (do_canonical out) (ap_decisions app)
      (Some (su_received_at su)) (su_received_at su) = Inr d" "d_action d = OPEN_INCIDENT \<Longrightarrow> d_severity d \<noteq> None"
    using sound_decide [OF p] by blast
  obtain k where k: "incidents_ok s" "next_incident_id (su_received_at su) s = Inr k" using inc [OF False] by blast
  define c where "c = (do_canonical out)\<lparr>c_risk := Some (risk_scorer_score (ap_scoring app) (do_canonical out)), c_decision := Some d\<rparr>"
  obtain res s1 where pa: "persist_assessment (su_assess su) (do_alert_id out) c (risk_scorer_score (ap_scoring app) (do_canonical out)) d
      (do_group_key out) (su_received_at su) None None s = (res, s1)" by (metis prod.collapse)
  from pa have "\<exists>i stored. res = Inr (i, stored)"
  proof (cases rule: persist_assessment_cases)
    case (raised e)
    then show ?thesis using assessment_body_error [OF k(1) row [OF False] d(2) k(2) raised(4)] by simp
  qed auto
  then obtain i stored where res: "res = Inr (i, stored)" by blast
  show ?thesis
    by (rule finish_distinct_run [OF False d(1) c_def pa [unfolded res], of status w]) (simp add: accepted_reply_def False)
qed

lemma ingest_accepts:
  assumes ok: "dedupe_tables_ok s"
    and inc: "classify (stored_group_state s (k_group k)) k (ap_dedupe_window app) \<noteq> EXACT_DUPLICATE \<Longrightarrow>
      incidents_ok s \<and> (\<exists>n. next_incident_id (su_received_at su) s = Inr n)"
    and a: "read_alert app req = Inr a" and k: "delivery_key_of (ap_digest app) a (Aware (su_received_at su) 0) = Inr k"
    and db: "env_ok (su_dedupe su)" and fresh: "su_alert_id su \<notin> fst ` set (st_alerts s)"
    and own: "\<And>e. map_of (st_events s) (k_identity k) = Some e \<Longrightarrow> ev_group_key e = k_group k"
    and p: "sound_decisions (ap_decisions app)"
  shows "\<exists>r s' e' w'. ingest_alert app su req (s, e, w) = (Inr (Accepted r), s', e', w')
    \<and> ac_dedupe_status r = classify (stored_group_state s (k_group k)) k (ap_dedupe_window app)
    \<and> ac_duplicate r = (ac_dedupe_status r = EXACT_DUPLICATE)"
proof -
  obtain c status e1 where c: "enriched_alert app su a e = (c, status, e1)" by (metis prod.collapse)
  obtain d s1 where d: "persist_delivery (env_now (su_dedupe su)) (ap_dedupe_window app) k c s = Inr (d, s1)"
    using persist_delivery_succeeds [OF ok _ own] fresh enriched_id [OF c] by metis
  note st = persist_delivery_stores [OF ok d]
  define out where "out = outcome_of d (k_identity k) (info_of (dd_group d) (k_identity k))"
  have run: "persistent_process (ap_digest app) (ap_dedupe_window app) (su_dedupe su) s a c (Aware (su_received_at su) 0) = (Inr out, s1)"
    using k db d st dedupe_info_wf [of "k_group k" "dd_group d"]
    by (simp add: persistent_process_def session_scope_def out_def)
  have "dd_status d = classify (stored_group_state s (k_group k)) k (ap_dedupe_window app)"
    by (rule decide_status [OF wf_stored_group [OF ok] conjunct1 [OF st]])
  then have status: "do_status out = classify (stored_group_state s (k_group k)) k (ap_dedupe_window app)"
    by (simp add: out_def outcome_of_def)
  note rows = persist_delivery_rows [OF ok d]
  have same: "st_incidents s1 = st_incidents s" using rows by simp
  have "\<exists>r s' w'. finish_alert app su out status (s1, w) = (Inr (Accepted r), s', w') \<and> ac_dedupe_status r = do_status out
      \<and> ac_duplicate r = (do_status out = EXACT_DUPLICATE)"
  proof (rule finish_accepts [OF p])
    show "incidents_ok s1 \<and> (\<exists>n. next_incident_id (su_received_at su) s1 = Inr n)" if "do_status out \<noteq> EXACT_DUPLICATE"
      using inc that status incidents_frame [OF same] same by (simp add: next_incident_id_def)
    show "get_alert_row (do_alert_id out) s1 \<noteq> None" if "do_status out \<noteq> EXACT_DUPLICATE"
    proof -
      have "do_alert_id out \<in> fst ` set (st_alerts s1)"
        using rows that by (simp add: out_def outcome_of_def)
      then show ?thesis by (simp add: get_alert_row_def map_of_eq_None_iff)
    qed
  qed
  then show ?thesis using a c run status by (auto simp: ingest_alert_def)
qed

text \<open>
  C4. Availability of the intake: a request whose body reads as an alert with a valid identity, a fresh
  id, a database that takes the delivery and a sound decision policy is accepted, never rejected and never
  a server error, with the status deduplication gives it; this holds whatever the threat-intel providers,
  the assessment's database, the correlator and n8n do.
\<close>

theorem intake_available:
  assumes "dedupe_tables_ok s" "incidents_ok s" "next_incident_id (su_received_at su) s = Inr n"
    and "read_alert app req = Inr a" and "delivery_key_of (ap_digest app) a (Aware (su_received_at su) 0) = Inr k"
    and "env_ok (su_dedupe su)" and "su_alert_id su \<notin> fst ` set (st_alerts s)"
    and "\<And>e. map_of (st_events s) (k_identity k) = Some e \<Longrightarrow> ev_group_key e = k_group k"
    and "sound_decisions (ap_decisions app)"
  shows "\<exists>r s' e' w'. ingest_alert app su req (s, e, w) = (Inr (Accepted r), s', e', w')
    \<and> ac_dedupe_status r = classify (stored_group_state s (k_group k)) k (ap_dedupe_window app)
    \<and> reply_status (Accepted r) = (if ac_dedupe_status r = EXACT_DUPLICATE then 200 else 202)"
  using ingest_accepts [OF assms(1) _ assms(4-9), of e w] assms(2,3) by (auto simp: reply_status_def)

lemma retained_own:
  assumes "dedupe_tables_ok s" "stored_group_state s key = Some g" "map_of (gs_events g) i = Some x"
    and "map_of (st_events s) i = Some e"
  shows "ev_group_key e = key"
proof -
  have "(i, x) \<in> set (group_events s key)"
    using assms(1-3) by (auto simp: stored_group_state_eq row_group_def dest: map_of_SomeD)
  then obtain e' where "(i, e') \<in> set (st_events s)" "ev_group_key e' = key" by (auto simp: set_group_events)
  moreover have "distinct (map fst (st_events s))" using assms(1) by (simp add: dedupe_tables_ok_def)
  ultimately show ?thesis using assms(4) by simp
qed

subsection \<open>Runs\<close>

definition sample_app :: "(unit, nat) application" where
  "sample_app = \<lparr>ap_loads = (\<lambda>b. if b = ''{}'' then Some (JObj []) else None),
     ap_validate = (\<lambda>j. Some (sample_wazuh (Some ''17.4''))),
     ap_unicode = \<lparr>us_idna = (\<lambda>h. None), us_netloc_ok = (\<lambda>n. True)\<rparr>, ap_digest = (\<lambda>j. ''d''), ap_float_text = (\<lambda>j. []),
     ap_inventory = None, ap_providers = [], ap_dedupe_window = 10, ap_scoring = default_scoring_policy,
     ap_decisions = default_decision_policy, ap_correlation_window = 60,
     ap_deliver = (\<lambda>p w. (Inl ''TimeoutError'', w + 1)), ap_host = ''0.0.0.0'', ap_port = 8080\<rparr>"

definition sample_surroundings :: "nat \<Rightarrow> int \<Rightarrow> surroundings" where
  "sample_surroundings u t = \<lparr>su_alert_id = u, su_received_at = t, su_dedupe = accepting, su_incident_lookup = True,
     su_context_lookup = True, su_assess = True, su_correlate = True, su_notify = (True, True)\<rparr>"

definition sample_request :: request where
  "sample_request = \<lparr>rq_content_length = Some ''2'', rq_chunks = [''{'', ''}'']\<rparr>"

lemma lengths: "int_of_text ''2'' = Inr 2"
  by code_simp

lemma sample_read: "read_alert sample_app sample_request = Inr (sample_wazuh (Some ''17.4''))"
  by (simp add: read_alert_def declared_too_large_def sample_request_def lengths max_body_size_def read_body_with_limit_def
      Let_def sample_app_def)

lemma sample_sound: "sound_decisions default_decision_policy"
  unfolding sound_decisions_def by code_simp

lemma sample_simps [simp]:
  "su_received_at (sample_surroundings u t) = t" "su_alert_id (sample_surroundings u t) = u"
  "env_ok (su_dedupe (sample_surroundings u t))" "ap_digest sample_app = (\<lambda>_. ''d'')"
  "ap_decisions sample_app = default_decision_policy" "ap_dedupe_window sample_app = 10"
  by (simp_all add: sample_surroundings_def sample_app_def accepting_def)

lemma empty_incidents:
  "incidents_ok empty_store" "\<exists>k. next_incident_id (su_received_at (sample_surroundings 1 0)) empty_store = Inr k"
  by (simp_all add: incidents_ok_def empty_store_def next_incident_id_def next_seq_id_def max_str_def)

lemma empty_simps:
  "map_of (st_events empty_store) i = Some e \<Longrightarrow> ev_group_key e = key" "1 \<notin> fst ` set (st_alerts empty_store)"
  "stored_group_state empty_store key = None"
  by (simp_all add: empty_store_def stored_group_state_def)

theorem intake_available_witness:
  "\<exists>r s' e' w'. ingest_alert sample_app (sample_surroundings 1 0) sample_request (empty_store, (), 0) = (Inr (Accepted r), s', e', w')
     \<and> reply_status (Accepted r) = 202"
proof -
  obtain n where n: "next_incident_id (su_received_at (sample_surroundings 1 0)) empty_store = Inr n"
    using empty_incidents(2) by blast
  have k: "delivery_key_of (ap_digest sample_app) (sample_wazuh (Some ''17.4'')) (Aware (su_received_at (sample_surroundings 1 0)) 0)
      = Inr (sample_delivery_key 0)" using sample_delivery_key by simp
  obtain r s' e' w' where "ingest_alert sample_app (sample_surroundings 1 0) sample_request (empty_store, (), 0) = (Inr (Accepted r), s', e', w')"
    "ac_dedupe_status r = classify (stored_group_state empty_store (k_group (sample_delivery_key 0))) (sample_delivery_key 0)
       (ap_dedupe_window sample_app)"
    "reply_status (Accepted r) = (if ac_dedupe_status r = EXACT_DUPLICATE then 200 else 202)"
    using intake_available [OF empty_store_ok empty_incidents(1) n sample_read k, of "()" 0] empty_simps(1,2) sample_sound by auto
  then show ?thesis unfolding empty_simps(3) by (simp add: classify_def)
qed

lemma sample_ingest:
  obtains r s' e' w' where "ingest_alert sample_app (sample_surroundings 1 0) sample_request (empty_store, (), 0)
      = (Inr (Accepted r), s', e', w')" "ac_duplicate r = False"
proof -
  have k: "delivery_key_of (ap_digest sample_app) (sample_wazuh (Some ''17.4'')) (Aware (su_received_at (sample_surroundings 1 0)) 0)
      = Inr (sample_delivery_key 0)" using sample_delivery_key by simp
  obtain r s' e' w' where r: "ingest_alert sample_app (sample_surroundings 1 0) sample_request (empty_store, (), 0) = (Inr (Accepted r), s', e', w')"
    "ac_dedupe_status r = classify (stored_group_state empty_store (k_group (sample_delivery_key 0))) (sample_delivery_key 0)
       (ap_dedupe_window sample_app)"
    "ac_duplicate r = (ac_dedupe_status r = EXACT_DUPLICATE)"
    using ingest_accepts [OF empty_store_ok conjI [OF empty_incidents] sample_read k, of "()" 0] empty_simps(1,2) sample_sound by auto
  from r(2,3) have "ac_duplicate r = False" unfolding empty_simps(3) by (simp add: classify_def)
  with r(1) show thesis by (rule that)
qed


theorem accepted_is_on_record_witness:
  "\<exists>r s' e' w'. ingest_alert sample_app (sample_surroundings 1 0) sample_request (empty_store, (), 0) = (Inr (Accepted r), s', e', w')
     \<and> map fst (st_alerts s') = [ac_alert_id r]
     \<and> (\<exists>row. map_of (st_alerts s') (ac_alert_id r) = Some row \<and> al_payload row = ac_normalized r \<and> al_incident_id row = ac_incident_id r)"
proof (rule sample_ingest)
  fix r s' e' w'
  assume run: "ingest_alert sample_app (sample_surroundings 1 0) sample_request (empty_store, (), 0) = (Inr (Accepted r), s', e', w')"
    and "ac_duplicate r = False"
  moreover have "assessment_storable (su_assess (sample_surroundings 1 0)) u t empty_store" for u t
    by (simp add: assessment_storable_def sample_surroundings_def empty_store_def rows_def)
  ultimately show ?thesis using accepted_is_on_record [OF empty_store_ok run] by (auto simp: empty_store_def)
qed

theorem correlation_and_notification_fail_open_witness:
  "\<exists>r s1 e1 w1 r' s' w'. ingest_alert sample_app (sample_surroundings 1 0) sample_request (empty_store, (), 0) = (Inr (Accepted r), s1, e1, w1)
     \<and> ingest_alert (sample_app\<lparr>ap_deliver := (\<lambda>p w. (Inl ''OSError'', w))\<rparr>)
         ((sample_surroundings 1 0)\<lparr>su_correlate := False, su_notify := (False, False)\<rparr>) sample_request (empty_store, (), 7)
         = (Inr (Accepted r'), s', e1, w')
     \<and> st_alerts s' = st_alerts s1"
proof (rule sample_ingest)
  fix r s1 e1 w1
  assume run: "ingest_alert sample_app (sample_surroundings 1 0) sample_request (empty_store, (), 0) = (Inr (Accepted r), s1, e1, w1)"
  from correlation_and_notification_fail_open [OF empty_store_ok run, where deliver = "\<lambda>p w. (Inl ''OSError'', w)" and correlate_ok = False and notify_ok = "(False, False)" and ?w2.0 = 7] run
  show ?thesis by blast
qed

text \<open>A repetition five microseconds later.\<close>

theorem redelivery_answered_with_original_witness:
  "\<exists>r1 s1 e1 w1 r2 s2 e2 w2. ingest_alert sample_app (sample_surroundings 1 0) sample_request (empty_store, (), 0)
       = (Inr (Accepted r1), s1, e1, w1)
     \<and> ingest_alert sample_app (sample_surroundings (ac_alert_id r1 + 1) 5) sample_request (s1, (), w1) = (Inr (Accepted r2), s2, e2, w2)
     \<and> ac_duplicate r2 \<and> ac_alert_id r2 = ac_alert_id r1 \<and> w2 = w1"
proof (rule sample_ingest)
  fix r1 s1 e1 w1
  assume run: "ingest_alert sample_app (sample_surroundings 1 0) sample_request (empty_store, (), 0) = (Inr (Accepted r1), s1, e1, w1)"
    and new: "ac_duplicate r1 = False"
  let ?k = "sample_delivery_key 5"
  have k: "delivery_key_of (ap_digest sample_app) (sample_wazuh (Some ''17.4'')) (Aware (su_received_at (sample_surroundings (ac_alert_id r1 + 1) 5)) 0)
      = Inr ?k" using sample_delivery_key by simp
  show ?thesis
  proof (rule ingest_retains [OF empty_store_ok run])
    fix a k0 g x
    assume ok: "dedupe_tables_ok s1" and a: "read_alert sample_app sample_request = Inr a"
      "delivery_key_of (ap_digest sample_app) a (Aware (su_received_at (sample_surroundings 1 0)) 0) = Inr k0"
      and g: "stored_group_state s1 (k_group k0) = Some g" "map_of (gs_events g) (k_identity k0) = Some x"
      and x: "er_alert_id x = ac_alert_id r1" "er_last_delivered x = k_received k0"
      and rows: "map fst (st_alerts s1) = map fst (st_alerts empty_store) @ (if ac_duplicate r1 then [] else [ac_alert_id r1])"
    have k0: "k0 = sample_delivery_key 0" using a sample_read sample_delivery_key [of 0] by simp
    then have same: "k_group k0 = k_group ?k" "k_identity k0 = k_identity ?k" by (simp_all add: sample_delivery_key_def)
    have dup: "classify (stored_group_state s1 (k_group ?k)) ?k (ap_dedupe_window sample_app) = EXACT_DUPLICATE"
      using g x(2) unfolding same k0 by (simp add: classify_def live_event_def sample_delivery_key_def)
    have own: "ev_group_key e = k_group ?k" if "map_of (st_events s1) (k_identity ?k) = Some e" for e
      using retained_own [OF ok g] that unfolding same by simp
    obtain r2 s2 e2 w2 where again: "ingest_alert sample_app (sample_surroundings (ac_alert_id r1 + 1) 5) sample_request (s1, (), w1)
        = (Inr (Accepted r2), s2, e2, w2)"
      using ingest_accepts [OF ok _ sample_read k, of "()" w1] dup own rows new sample_sound by (auto simp: empty_store_def)
    from redelivery_answered_with_original [OF empty_store_ok run again] run again show ?thesis by auto
  qed
qed

end
