(* ===== verification/Late_Enrichment.thy ===== *)
theory Late_Enrichment
  imports Assessment Enrichment_Chain Scoring_Facts Decision_Router
begin

text \<open>
  Re-assessment after late threat intelligence (services/late\_enrichment.py) and its periodic sweep
  (services/late\_enrichment\_sweep.py).

  Two enrichment states are compared by a fingerprint that holds \<open>json.dumps\<close> of each provider
  record with sorted keys. The text is represented by the value it is the dump of, every object in key
  order: equal texts are equal values in that order.
\<close>

subsection \<open>The fingerprint\<close>

fun sorted_json :: "json \<Rightarrow> json" where
  "sorted_json (JList vs) = JList (map sorted_json vs)"
| "sorted_json (JObj kvs) = JObj (sort_key fst (map (\<lambda>(k, v). (k, sorted_json v)) kvs))"
| "sorted_json v = v"

definition provider_record :: "json \<Rightarrow> (string, json) dict" where
  "provider_record v = (case v of JObj kvs \<Rightarrow> kvs | _ \<Rightarrow> [])"

definition timeless :: "(string, json) dict \<Rightarrow> json" where
  "timeless record = sorted_json (JObj (AList.delete ''timestamp'' record))"

definition ioc_fingerprint :: "ioc \<Rightarrow> (string \<times> string \<times> json) list" where
  "ioc_fingerprint i =
     map (\<lambda>provider. (ioc_key i, provider, timeless (provider_record (dict_get (i_enrichment i) provider))))
       (sort (map fst (i_enrichment i)))"

definition enrichment_fingerprint :: "ioc list \<Rightarrow> (string \<times> string \<times> json) list" where
  "enrichment_fingerprint iocs = concat (map ioc_fingerprint (sort_key ioc_sort_key iocs))"

subsection \<open>The service\<close>

record 'e late_service =
  ls_providers :: "'e provider list"
  ls_scoring :: scoring_policy
  ls_decisions :: decision_policy

record late_result =
  lr_canonical :: canonical_alert
  lr_previous_risk :: "risk_assessment option"
  lr_previous_decision :: "decision option"

definition late_context :: "canonical_alert \<Rightarrow> enrichment_context" where
  "late_context c = \<lparr>ec_alert_id = Some (c_alert_id c), ec_source = c_source c,
     ec_received_at = Some (c_received_at c), ec_dedupe_group = map_option cd_group_key (c_dedupe c)\<rparr>"

definition late_enrich :: "'e late_service \<Rightarrow> canonical_alert \<Rightarrow> 'e \<Rightarrow> enrichment_outcome \<times> 'e" where
  "late_enrich sv c e = chain_enrich (ls_providers sv) (c_iocs c) (Some (late_context c)) e"

definition with_enrichment :: "canonical_alert \<Rightarrow> enrichment_outcome \<Rightarrow> canonical_alert" where
  "with_enrichment c out =
     c\<lparr>c_iocs := eo_iocs out, c_enrichment_status := Some (enrichment_status_value (eo_status out))\<rparr>"

text \<open>\<open>decided_at or received_at\<close>: a datetime is always true.\<close>

definition decided_or_received :: "instant option \<Rightarrow> canonical_alert \<Rightarrow> instant" where
  "decided_or_received decided_at c = (case decided_at of None \<Rightarrow> c_received_at c | Some t \<Rightarrow> t)"

definition rescore :: "'e late_service \<Rightarrow> canonical_alert \<Rightarrow> enrichment_outcome \<Rightarrow> instant option
    \<Rightarrow> py_exn + late_result \<times> risk_assessment \<times> decision" where
  "rescore sv c out decided_at =
     (let enriched = with_enrichment c out;
          risk = risk_scorer_score (ls_scoring sv) enriched;
          t = decided_or_received decided_at enriched in
      case decide risk enriched (ls_decisions sv) (Some t) t of
        Inl x \<Rightarrow> Inl x
      | Inr d \<Rightarrow> Inr (\<lparr>lr_canonical = enriched\<lparr>c_risk := Some risk, c_decision := Some d\<rparr>,
          lr_previous_risk = c_risk c, lr_previous_decision = c_decision c\<rparr>, risk, d))"

definition reassess :: "'e late_service \<Rightarrow> canonical_alert \<Rightarrow> instant option \<Rightarrow> 'e \<Rightarrow> (py_exn + late_result) \<times> 'e" where
  "reassess sv c decided_at e =
     (let (out, e) = late_enrich sv c e in
      (case rescore sv c out decided_at of Inl x \<Rightarrow> Inl x | Inr (r, _, _) \<Rightarrow> Inr r, e))"

text \<open>What the database makes of the read and of the write.\<close>

type_synonym late_fate = "bool \<times> bool"

definition load_alert :: "bool \<Rightarrow> uuid \<Rightarrow> store \<Rightarrow> py_exn + alert_row" where
  "load_alert db_ok alert_id s =
     (case fst (session_scope db_ok (db_read (get_alert_row alert_id)) s) of
        Inl x \<Rightarrow> Inl x
      | Inr None \<Rightarrow> Inl LookupError
      | Inr (Some row) \<Rightarrow> Inr row)"

definition store_late :: "bool \<Rightarrow> uuid \<Rightarrow> alert_row \<Rightarrow> late_result \<Rightarrow> risk_assessment \<Rightarrow> decision \<Rightarrow> instant option
    \<Rightarrow> store \<Rightarrow> (py_exn + late_result \<times> string option \<times> bool) \<times> store" where
  "store_late db_ok alert_id row r risk d decided_at s =
     (case persist_assessment db_ok alert_id (lr_canonical r) risk d (al_group_key row)
             (decided_or_received decided_at (lr_canonical r)) (lr_previous_risk r) (lr_previous_decision r) s of
        (Inl x, s) \<Rightarrow> (Inl x, s)
      | (Inr p, s) \<Rightarrow> (Inr (r, p), s))"

definition reassess_persisted :: "'e late_service \<Rightarrow> late_fate \<Rightarrow> uuid \<Rightarrow> instant option \<Rightarrow> store \<times> 'e
    \<Rightarrow> (py_exn + late_result \<times> string option \<times> bool) \<times> store \<times> 'e" where
  "reassess_persisted sv fate alert_id decided_at = (\<lambda>(s, e).
     case load_alert (fst fate) alert_id s of
       Inl x \<Rightarrow> (Inl x, s, e)
     | Inr row \<Rightarrow>
         (case reassess sv (al_payload row) decided_at e of
            (Inl x, e) \<Rightarrow> (Inl x, s, e)
          | (Inr r, e) \<Rightarrow>
              (case (c_risk (lr_canonical r), c_decision (lr_canonical r)) of
                 (Some risk, Some d) \<Rightarrow>
                   (let (p, s) = store_late (snd fate) alert_id row r risk d decided_at s in (p, s, e))
               | _ \<Rightarrow> (Inl RuntimeError, s, e))))"

definition reassess_persisted_if_changed :: "'e late_service \<Rightarrow> late_fate \<Rightarrow> uuid \<Rightarrow> instant option \<Rightarrow> store \<times> 'e
    \<Rightarrow> (py_exn + (late_result \<times> string option \<times> bool) option) \<times> store \<times> 'e" where
  "reassess_persisted_if_changed sv fate alert_id decided_at = (\<lambda>(s, e).
     case load_alert (fst fate) alert_id s of
       Inl x \<Rightarrow> (Inl x, s, e)
     | Inr row \<Rightarrow>
         (let (out, e) = late_enrich sv (al_payload row) e in
          if enrichment_fingerprint (eo_iocs out) = enrichment_fingerprint (c_iocs (al_payload row))
          then (Inr None, s, e)
          else
            (case rescore sv (al_payload row) out decided_at of
               Inl x \<Rightarrow> (Inl x, s, e)
             | Inr (r, risk, d) \<Rightarrow>
                 (case store_late (snd fate) alert_id row r risk d decided_at s of
                    (Inl x, s) \<Rightarrow> (Inl x, s, e)
                  | (Inr p, s) \<Rightarrow> (Inr (Some p), s, e)))))"

subsection \<open>The sweep\<close>

record late_stats =
  la_candidates :: nat
  la_reassessed :: nat
  la_unchanged :: nat
  la_errors :: nat

definition late_batch_limit :: int where
  "late_batch_limit = 200"

text \<open>One candidate; other components may commit before it.\<close>

record late_env =
  le_fate :: late_fate
  le_others :: "store \<Rightarrow> store"

definition quiet_late :: late_env where
  "quiet_late = \<lparr>le_fate = (True, True), le_others = (\<lambda>s. s)\<rparr>"

fun next_late :: "late_env list \<Rightarrow> late_env" where
  "next_late [] = quiet_late"
| "next_late (v # vs) = v"

definition late_candidate :: "'e late_service \<Rightarrow> instant \<Rightarrow> late_env \<Rightarrow> uuid \<Rightarrow> late_stats \<times> store \<times> 'e
    \<Rightarrow> late_stats \<times> store \<times> 'e" where
  "late_candidate sv now env alert_id = (\<lambda>(stats, s, e).
     case reassess_persisted_if_changed sv (le_fate env) alert_id (Some now) (le_others env s, e) of
       (Inl _, s, e) \<Rightarrow> (stats\<lparr>la_errors := la_errors stats + 1\<rparr>, s, e)
     | (Inr None, s, e) \<Rightarrow> (stats\<lparr>la_unchanged := la_unchanged stats + 1\<rparr>, s, e)
     | (Inr (Some _), s, e) \<Rightarrow> (stats\<lparr>la_reassessed := la_reassessed stats + 1\<rparr>, s, e))"

fun late_candidates :: "'e late_service \<Rightarrow> instant \<Rightarrow> late_env list \<Rightarrow> uuid list \<Rightarrow> late_stats \<times> store \<times> 'e
    \<Rightarrow> late_stats \<times> store \<times> 'e" where
  "late_candidates sv now envs [] p = p"
| "late_candidates sv now envs (a # as) p =
     late_candidates sv now (tl envs) as (late_candidate sv now (next_late envs) a p)"

definition late_sweep_once :: "'e late_service \<Rightarrow> int \<Rightarrow> instant \<Rightarrow> bool \<Rightarrow> late_env list \<Rightarrow> store \<times> 'e
    \<Rightarrow> (py_exn + late_stats) \<times> store \<times> 'e" where
  "late_sweep_once sv lookback now select_ok envs = (\<lambda>(s, e).
     if lookback < 1 then (Inl ValueError, s, e)
     else
       (case session_scope select_ok (list_alerts_received_since (now - seconds lookback) late_batch_limit) s of
          (Inl x, s) \<Rightarrow> (Inl x, s, e)
        | (Inr found, s) \<Rightarrow>
            (let (stats, s, e) = late_candidates sv now envs (map al_id found)
                   (\<lparr>la_candidates = length found, la_reassessed = 0, la_unchanged = 0, la_errors = 0\<rparr>, s, e) in
             (Inr stats, s, e))))"

end
