(* ===== verification/Late_Facts.thy ===== *)
theory Late_Facts
  imports Late_Enrichment Assessment_Frame
begin

text \<open>
  What late enrichment guarantees: its fingerprint compares the content of two enrichment states, an
  alert is rewritten exactly when that content changed, a replay changes nothing, and a sweep isolates
  failures and keeps the invariants of the store.
\<close>

subsection \<open>What the fingerprint says\<close>

definition enrichment_content :: "ioc list \<Rightarrow> string \<Rightarrow> string \<Rightarrow> json option" where
  "enrichment_content iocs key provider =
     (case find (\<lambda>i. ioc_key i = key) iocs of
        None \<Rightarrow> None
      | Some i \<Rightarrow> map_option (\<lambda>v. timeless (provider_record v)) (map_of (i_enrichment i) provider))"

definition wf_enriched :: "ioc list \<Rightarrow> bool" where
  "wf_enriched iocs \<longleftrightarrow> distinct (map ioc_key iocs) \<and> (\<forall>i \<in> set iocs. distinct (map fst (i_enrichment i)))"

lemma find_key: "distinct (map f xs) \<Longrightarrow> find (\<lambda>i. f i = k) xs = Some i \<longleftrightarrow> i \<in> set xs \<and> f i = k"
  by (induction xs) auto

lemma content_iff:
  assumes wf: "wf_enriched iocs"
  shows "enrichment_content iocs k p = Some v \<longleftrightarrow>
     (\<exists>i \<in> set iocs. ioc_key i = k \<and> p \<in> fst ` set (i_enrichment i)
        \<and> v = timeless (provider_record (dict_get (i_enrichment i) p)))"
proof (cases "find (\<lambda>i. ioc_key i = k) iocs")
  case None
  then have "ioc_key i \<noteq> k" if "i \<in> set iocs" for i using that by (simp add: find_None_iff)
  with None show ?thesis by (simp add: enrichment_content_def)
next
  case (Some i)
  then have i: "i \<in> set iocs" "ioc_key i = k"
    using find_key [of ioc_key iocs k i] wf by (simp_all add: wf_enriched_def)
  have "j = i" if "j \<in> set iocs" "ioc_key j = k" for j
    using that i wf by (simp add: wf_enriched_def distinct_map inj_on_def)
  then have only: "(\<exists>j \<in> set iocs. ioc_key j = k \<and> P j) \<longleftrightarrow> P i" for P using i by blast
  have "p \<in> fst ` set (i_enrichment i) \<longleftrightarrow> map_of (i_enrichment i) p \<noteq> None"
    by (simp add: map_of_eq_None_iff)
  then show ?thesis
    unfolding only using Some by (auto simp: enrichment_content_def dict_get_def)
qed

text \<open>The entries with the key they are sorted by.\<close>

definition tagged :: "ioc list \<Rightarrow> (((string \<times> string) \<times> string) \<times> string \<times> string \<times> json) list" where
  "tagged iocs = concat (map (\<lambda>i. map (\<lambda>e. ((ioc_sort_key i, fst (snd e)), e)) (ioc_fingerprint i)) (sort_key ioc_sort_key iocs))"

lemma untag: "map snd (tagged iocs) = enrichment_fingerprint iocs"
  by (simp add: tagged_def enrichment_fingerprint_def map_concat comp_def)

lemma set_tagged:
  assumes "wf_enriched iocs"
  shows "((sk, q), k, p, v) \<in> set (tagged iocs) \<longleftrightarrow>
     q = p \<and> (\<exists>i. sk = ioc_sort_key i \<and> k = ioc_key i) \<and> enrichment_content iocs k p = Some v"
proof -
  have "((sk, q), k, p, v) \<in> set (tagged iocs) \<longleftrightarrow>
     (\<exists>i \<in> set iocs. sk = ioc_sort_key i \<and> q = p \<and> ioc_key i = k \<and> p \<in> fst ` set (i_enrichment i)
        \<and> v = timeless (provider_record (dict_get (i_enrichment i) p)))"
    by (auto simp: tagged_def ioc_fingerprint_def)
  moreover have "(\<exists>i \<in> S. sk = ioc_sort_key i \<and> q = p \<and> ioc_key i = k \<and> P i) \<longleftrightarrow>
      q = p \<and> (\<exists>i. sk = ioc_sort_key i \<and> k = ioc_key i) \<and> (\<exists>i \<in> S. ioc_key i = k \<and> P i)" for S P
  proof (intro iffI; elim bexE exE conjE)
    fix i j assume "q = p" "sk = ioc_sort_key i" "k = ioc_key i" "j \<in> S" "ioc_key j = k" "P j"
    moreover from this have "sk = ioc_sort_key j" using ioc_sort_key_eq_iff [of i j] by simp
    ultimately show "\<exists>i \<in> S. sk = ioc_sort_key i \<and> q = p \<and> ioc_key i = k \<and> P i" by blast
  qed blast
  ultimately show ?thesis unfolding content_iff [OF assms] by simp
qed

lemma strict_sorted_pairs:
  fixes f :: "'c \<Rightarrow> 'a::linorder" and g :: "'c \<Rightarrow> 'b::linorder list"
  assumes "sorted_wrt (<) (map f xs)" "\<And>x. x \<in> set xs \<Longrightarrow> sorted_wrt (<) (g x)"
  shows "sorted_wrt (<) (concat (map (\<lambda>x. map (Pair (f x)) (g x)) xs))"
  using assms by (induction xs) (auto simp: sorted_wrt_append sorted_wrt_map)

lemma tagged_sorted:
  assumes "wf_enriched iocs"
  shows "sorted_wrt (<) (map fst (tagged iocs))"
proof -
  let ?is = "sort_key ioc_sort_key iocs"
  have "distinct (map ioc_sort_key iocs)"
    using assms by (simp add: wf_enriched_def distinct_map inj_on_def ioc_sort_key_eq_iff)
  then have "distinct (map ioc_sort_key ?is)" by (simp add: distinct_map)
  then have strict: "sorted_wrt (<) (map ioc_sort_key ?is)" by (simp add: strict_sorted_iff)
  have ps: "sorted_wrt (<) (sort (map fst (i_enrichment i)))" if "i \<in> set iocs" for i
    using assms that by (simp add: strict_sorted_iff wf_enriched_def)
  have "map fst (tagged iocs) = concat (map (\<lambda>i. map (Pair (ioc_sort_key i)) (sort (map fst (i_enrichment i)))) ?is)"
    by (simp add: tagged_def ioc_fingerprint_def map_concat comp_def)
  then show ?thesis by (simp only:) (rule strict_sorted_pairs [OF strict], simp add: ps)
qed

lemma strict_key_unique:
  assumes "sorted_wrt (<) (map fst xs)" "sorted_wrt (<) (map fst ys)" "set xs = set ys"
  shows "xs = (ys :: ('a::linorder \<times> 'b) list)"
proof -
  have "map fst xs = map fst ys"
    using assms by (intro strict_sorted_equal) simp_all
  moreover have "inj_on fst (set xs)" using assms(1) by (simp add: strict_sorted_iff distinct_map)
  ultimately show ?thesis using assms(3) by (metis map_inj_on sup.idem)
qed

lemma fingerprint_content:
  assumes "wf_enriched xs" "wf_enriched ys"
  shows "enrichment_fingerprint xs = enrichment_fingerprint ys \<longleftrightarrow> enrichment_content xs = enrichment_content ys"
proof
  assume fp: "enrichment_fingerprint xs = enrichment_fingerprint ys"
  have "enrichment_content zs k p = Some v \<longleftrightarrow> (k, p, v) \<in> set (enrichment_fingerprint zs)" if "wf_enriched zs" for zs k p v
    unfolding content_iff [OF that] by (auto simp: enrichment_fingerprint_def ioc_fingerprint_def image_iff)
  from this [OF assms(1)] this [OF assms(2)] fp
  have "enrichment_content xs k p = Some v \<longleftrightarrow> enrichment_content ys k p = Some v" for k p v by simp
  then show "enrichment_content xs = enrichment_content ys"
    by (intro ext) (metis not_Some_eq)
next
  assume content: "enrichment_content xs = enrichment_content ys"
  have "x \<in> set (tagged xs) \<longleftrightarrow> x \<in> set (tagged ys)" for x
  proof -
    obtain sk q k p v where x: "x = ((sk, q), k, p, v)" by (metis prod.collapse)
    show ?thesis unfolding x set_tagged [OF assms(1)] set_tagged [OF assms(2)] content ..
  qed
  then have "tagged xs = tagged ys"
    using tagged_sorted assms by (intro strict_key_unique) auto
  then show "enrichment_fingerprint xs = enrichment_fingerprint ys" by (metis untag)
qed

text \<open>
  The fingerprint of an enrichment state is its content: for indicators with distinct keys, two
  states have the same fingerprint exactly when every provider says the same about every indicator,
  timestamps apart, whatever the order of indicators, providers and record keys.
\<close>

theorem fingerprint_is_content:
  assumes "wf_enriched xs" "wf_enriched ys"
  shows "enrichment_fingerprint xs = enrichment_fingerprint ys \<longleftrightarrow> enrichment_content xs = enrichment_content ys"
  using assms by (rule fingerprint_content)

subsection \<open>The chain keeps enrichment states well-formed\<close>

definition wf_table :: "(string, ioc) dict \<Rightarrow> bool" where
  "wf_table en \<longleftrightarrow> (\<forall>(k, i) \<in> set en. distinct (map fst (i_enrichment i)))"

lemma wf_table_update: "wf_table en \<Longrightarrow> distinct (map fst (i_enrichment i)) \<Longrightarrow> wf_table (AList.update k i en)"
  by (induction en) (auto simp: wf_table_def)

lemma wf_with_payload: "distinct (map fst (i_enrichment i)) \<Longrightarrow> distinct (map fst (i_enrichment (with_payload name p i)))"
  by (simp add: with_payload_def distinct_update)

lemma wf_apply_results: "wf_table en \<Longrightarrow> wf_table (fst (apply_results name rs en))"
proof (induction name rs en rule: apply_results.induct)
  case (2 name key payload results en)
  show ?case
  proof (cases "map_of en key")
    case (Some i)
    then have "distinct (map fst (i_enrichment i))" using 2(3) by (auto simp: wf_table_def dest: map_of_SomeD)
    then show ?thesis
      using 2(2) [OF Some] Some wf_table_update [OF 2(3) wf_with_payload] by (simp add: case_prod_unfold Let_def)
  qed (use 2 in simp)
qed simp

lemma wf_chain_fold:
  "wf_table (cs_enriched c) \<Longrightarrow> wf_table (cs_enriched (fst (fold (chain_step ordered context) ps (c, w))))"
proof (induction ps arbitrary: c w)
  case (Cons p ps)
  obtain c1 w1 where step: "chain_step ordered context p (c, w) = (c1, w1)" by (metis prod.collapse)
  have "wf_table (cs_enriched c1)"
    using step Cons.prems wf_apply_results [OF Cons.prems]
    by (auto simp: chain_step_def case_prod_unfold Let_def split: if_splits sum.splits)
  then show ?case using Cons.IH step by simp
qed simp

lemma wf_chain:
  assumes wf: "wf_enriched iocs"
  shows "wf_enriched (eo_iocs (fst (chain_enrich ps iocs ctx w)))"
proof (cases "iocs = []")
  case True
  then show ?thesis by (simp add: chain_enrich_def wf_enriched_def Let_def)
next
  case False
  define xs where "xs = sort_key ioc_sort_key iocs"
  define cx where "cx = (case ctx of None \<Rightarrow> empty_context | Some c \<Rightarrow> c)"
  have keys: "distinct (map ioc_key xs)" using wf by (simp add: xs_def wf_enriched_def distinct_map)
  have xs: "xs \<noteq> []" using False by (metis xs_def set_sort set_empty)
  let ?c = "\<lparr>cs_enriched = keyed xs, cs_outcomes = [], cs_statuses = []\<rparr>"
  obtain c w' where run: "fold (chain_step xs cx) ps (?c, w) = (c, w')" by (metis prod.collapse)
  note en = keyed_distinct_keys [OF keys]
  have "chain_inv (keyed xs) [] ?c" by (simp add: chain_inv_def)
  moreover have "distinct (map fst (keyed xs))" using keys by (simp add: en comp_def)
  ultimately have inv: "chain_inv (keyed xs) ([] @ map pv_name ps) c" using run by (rule chain_fold_inv)
  then have bare: "map (bare \<circ> snd) (cs_enriched c) = map bare xs"
    by (simp add: chain_inv_def en comp_def)
  have out: "eo_iocs (fst (chain_enrich ps iocs ctx w)) = map snd (cs_enriched c)"
    using xs run sorted_by_bare [OF bare] by (simp add: chain_enrich_def xs_def [symmetric] cx_def [symmetric] Let_def) (simp add: xs_def)
  have "wf_table (keyed xs)" unfolding wf_table_def en using wf by (auto simp: wf_enriched_def xs_def)
  then have "wf_table (cs_enriched c)" using wf_chain_fold [of ?c xs cx ps w] run by simp
  then show ?thesis
    unfolding out using bare_same_keys(2) [OF bare] keys by (auto simp: wf_enriched_def wf_table_def comp_def)
qed

subsection \<open>One alert\<close>

lemma load_alert_eq: "load_alert db_ok a s = Inr row \<longleftrightarrow> db_ok \<and> get_alert_row a s = Some row"
  by (auto simp: load_alert_def session_scope_def db_run split: option.splits)

lemma late_cases:
  assumes run: "reassess_persisted_if_changed sv fate a t (s, e) = (res, s', e')"
  obtains (failed) x where "res = Inl x" "s' = s"
      "\<And>row out e1. fst fate \<Longrightarrow> get_alert_row a s = Some row \<Longrightarrow> late_enrich sv (al_payload row) e = (out, e1) \<Longrightarrow>
         enrichment_fingerprint (eo_iocs out) \<noteq> enrichment_fingerprint (c_iocs (al_payload row))"
  | (unchanged) row out where "get_alert_row a s = Some row" "late_enrich sv (al_payload row) e = (out, e')"
      "enrichment_fingerprint (eo_iocs out) = enrichment_fingerprint (c_iocs (al_payload row))" "res = Inr None" "s' = s"
  | (changed) row out r risk d i stored where "get_alert_row a s = Some row" "late_enrich sv (al_payload row) e = (out, e')"
      "enrichment_fingerprint (eo_iocs out) \<noteq> enrichment_fingerprint (c_iocs (al_payload row))"
      "rescore sv (al_payload row) out t = Inr (r, risk, d)" "res = Inr (Some (r, i, stored))"
      "persist_assessment (snd fate) a (lr_canonical r) risk d (al_group_key row)
         (decided_or_received t (lr_canonical r)) (lr_previous_risk r) (lr_previous_decision r) s = (Inr (i, stored), s')"
proof (cases "load_alert (fst fate) a s")
  case (Inl x)
  then have "res = Inl x" "s' = s" using run by (simp_all add: reassess_persisted_if_changed_def)
  moreover have "\<not> (fst fate \<and> get_alert_row a s = Some row)" for row
    using Inl load_alert_eq [of "fst fate" a s row] by auto
  ultimately show ?thesis by (intro failed) auto
next
  case (Inr row)
  then have row: "get_alert_row a s = Some row" by (simp add: load_alert_eq)
  obtain out e1 where out: "late_enrich sv (al_payload row) e = (out, e1)" by (metis prod.collapse)
  show ?thesis
  proof (cases "enrichment_fingerprint (eo_iocs out) = enrichment_fingerprint (c_iocs (al_payload row))")
    case True
    then have "res = Inr None" "s' = s" "e1 = e'"
      using run Inr out by (simp_all add: reassess_persisted_if_changed_def)
    then show ?thesis using row out True by (intro unchanged) simp_all
  next
    case False
    show ?thesis
    proof (cases "rescore sv (al_payload row) out t")
      case (Inl x)
      then have "res = Inl x" "s' = s"
        using run \<open>load_alert (fst fate) a s = Inr row\<close> out False by (simp_all add: reassess_persisted_if_changed_def)
      then show ?thesis using False row out by (intro failed) auto
    next
      case (Inr y)
      obtain r risk d where y: "y = (r, risk, d)" by (metis prod.collapse)
      obtain p s1 where p: "persist_assessment (snd fate) a (lr_canonical r) risk d (al_group_key row)
         (decided_or_received t (lr_canonical r)) (lr_previous_risk r) (lr_previous_decision r) s = (p, s1)"
        by (metis prod.collapse)
      show ?thesis
      proof (cases p)
        case (Inl x)
        then have "s1 = s" using persist_assessment_cases [OF p] by blast
        then have "res = Inl x" "s' = s"
          using run \<open>load_alert (fst fate) a s = Inr row\<close> out False Inr y p Inl
          by (simp_all add: reassess_persisted_if_changed_def store_late_def)
        then show ?thesis using False row out by (intro failed) auto
      next
        case (Inr q)
        obtain i stored where q: "q = (i, stored)" by (metis prod.collapse)
        from run \<open>load_alert (fst fate) a s = Inr row\<close> out False \<open>rescore sv (al_payload row) out t = Inr y\<close> y p Inr q
        have "res = Inr (Some (r, i, stored))" "s1 = s'" "e1 = e'"
          by (simp_all add: reassess_persisted_if_changed_def store_late_def)
        with row out False \<open>rescore sv (al_payload row) out t = Inr y\<close> y p Inr q show ?thesis by (intro changed) simp_all
      qed
    qed
  qed
qed

text \<open>Every outcome leaves the other tables and the other alerts alone.\<close>

lemma late_rewrites:
  assumes "reassess_persisted_if_changed sv fate a t (s, e) = (res, s', e')"
  shows "\<exists>f. rewritten a f s s' \<and> (\<forall>x. al_id (f x) = al_id x)"
  using assms
proof (cases rule: late_cases)
  case (changed row out r risk d i stored)
  from changed(6) show ?thesis
  proof (cases rule: persist_assessment_cases)
    case (persisted k)
    from assessment_rewrites [OF persisted(2)] show ?thesis by blast
  qed (auto intro: rewritten_id)
qed (auto intro: rewritten_id)

lemma rescored:
  assumes "rescore sv c out t = Inr (r, risk, d)"
  shows "lr_canonical r = (with_enrichment c out)\<lparr>c_risk := Some risk, c_decision := Some d\<rparr>"
    "lr_previous_risk r = c_risk c" "lr_previous_decision r = c_decision c" "c_iocs (lr_canonical r) = eo_iocs out"
    "risk = risk_scorer_score (ls_scoring sv) (with_enrichment c out)"
    "decide risk (with_enrichment c out) (ls_decisions sv)
       (Some (case t of None \<Rightarrow> c_received_at c | Some x \<Rightarrow> x)) (case t of None \<Rightarrow> c_received_at c | Some x \<Rightarrow> x) = Inr d"
  using assms
  by (auto simp: rescore_def Let_def with_enrichment_def decided_or_received_def split: sum.splits option.splits)

lemma late_stored:
  assumes "persist_assessment db_ok a c risk d g t pr pd s = (Inr (i, stored), s')" "get_alert_row a s = Some row"
  shows "map_option al_payload (get_alert_row a s') = Some (if stored then c else al_payload row)"
  using assms(1)
proof (cases rule: persist_assessment_cases)
  case (persisted k)
  from assessment_rewrites [OF persisted(2)] obtain f where "rewritten a f s s'" "\<forall>x. al_payload (f x) = c" by blast
  then show ?thesis using rewritten_rows(1) [of a f s s' a] assms(2) persisted(1) by (simp add: get_alert_row_def)
qed (use assms in simp_all)

lemma late_incidents:
  assumes "reassess_persisted_if_changed sv fate a t (s, e) = (res, s', e')" "incidents_ok s" "one_open_per_group s"
  shows "incidents_ok s' \<and> one_open_per_group s'"
  using assms(1)
proof (cases rule: late_cases)
  case (changed row out r risk d i stored)
  then show ?thesis using assessment_keeps_incidents [OF assms(2,3)] by (metis snd_conv)
qed (use assms in simp_all)

text \<open>
  C10. An alert is rewritten exactly when its enrichment changed: if the providers say what is on record,
  the call returns nothing and the store is untouched; otherwise, unless it raises, the answer carries the
  alert with the indicators and the status of the new enrichment, the score the policy gives that alert and
  the decision taken on it at the given time (or else its reception), beside the previous assessment; when
  the assessment was stored the row holds that alert. In every case no other alert and no deduplication row changes.
\<close>

theorem reassessed_iff_changed:
  assumes wf: "wf_enriched (c_iocs (al_payload row))" and row: "get_alert_row a s = Some row"
    and out: "late_enrich sv (al_payload row) e = (out, e1)"
    and run: "reassess_persisted_if_changed sv (True, db_ok) a t (s, e) = (res, s', e')"
    and enriched: "enriched = (al_payload row)\<lparr>c_iocs := eo_iocs out,
      c_enrichment_status := Some (enrichment_status_value (eo_status out))\<rparr>"
    and at: "at = (case t of None \<Rightarrow> c_received_at (al_payload row) | Some x \<Rightarrow> x)"
  shows "(res = Inr None \<longleftrightarrow> enrichment_content (eo_iocs out) = enrichment_content (c_iocs (al_payload row)))
    \<and> (isl res \<or> res = Inr None \<longrightarrow> s' = s)
    \<and> (\<forall>r i stored. res = Inr (Some (r, i, stored)) \<longrightarrow>
          lr_previous_risk r = c_risk (al_payload row) \<and> lr_previous_decision r = c_decision (al_payload row)
        \<and> (\<exists>d. decide (risk_scorer_score (ls_scoring sv) enriched) enriched (ls_decisions sv) (Some at) at = Inr d
            \<and> lr_canonical r = enriched\<lparr>c_risk := Some (risk_scorer_score (ls_scoring sv) enriched), c_decision := Some d\<rparr>)
        \<and> map_option al_payload (get_alert_row a s') = Some (if stored then lr_canonical r else al_payload row))
    \<and> (\<forall>b. b \<noteq> a \<longrightarrow> get_alert_row b s' = get_alert_row b s)
    \<and> st_groups s' = st_groups s \<and> st_events s' = st_events s"
proof -
  have "wf_enriched (eo_iocs out)"
    using wf_chain [OF wf] out by (metis fst_conv late_enrich_def)
  note content = fingerprint_content [OF this wf]
  obtain f where "rewritten a f s s'" using late_rewrites [OF run] by blast
  then have frame: "(\<forall>b. b \<noteq> a \<longrightarrow> get_alert_row b s' = get_alert_row b s)" "st_groups s' = st_groups s" "st_events s' = st_events s"
    using rewritten_rows(1) by (auto simp: get_alert_row_def rewritten_def)
  from run have "(res = Inr None \<longleftrightarrow> enrichment_fingerprint (eo_iocs out) = enrichment_fingerprint (c_iocs (al_payload row)))
    \<and> (isl res \<or> res = Inr None \<longrightarrow> s' = s)
    \<and> (\<forall>r i stored. res = Inr (Some (r, i, stored)) \<longrightarrow>
          lr_previous_risk r = c_risk (al_payload row) \<and> lr_previous_decision r = c_decision (al_payload row)
        \<and> (\<exists>d. decide (risk_scorer_score (ls_scoring sv) enriched) enriched (ls_decisions sv) (Some at) at = Inr d
            \<and> lr_canonical r = enriched\<lparr>c_risk := Some (risk_scorer_score (ls_scoring sv) enriched), c_decision := Some d\<rparr>)
        \<and> map_option al_payload (get_alert_row a s') = Some (if stored then lr_canonical r else al_payload row))"
  proof (cases rule: late_cases)
    case (failed x)
    then show ?thesis using row out by auto
  next
    case (unchanged row' out')
    then show ?thesis using row out by simp
  next
    case (changed row' out' r risk d i stored)
    then have "row' = row" "out' = out" using row out by simp_all
    then have e: "with_enrichment (al_payload row') out' = enriched" by (simp add: enriched with_enrichment_def)
    from rescored [OF changed(4), unfolded e, unfolded \<open>row' = row\<close>]
    have "decide (risk_scorer_score (ls_scoring sv) enriched) enriched (ls_decisions sv) (Some at) at = Inr d"
      "lr_canonical r = enriched\<lparr>c_risk := Some (risk_scorer_score (ls_scoring sv) enriched), c_decision := Some d\<rparr>"
      by (simp_all add: at)
    then show ?thesis
      using changed(3,5) rescored(2,3) [OF changed(4)] late_stored [OF changed(6) row] \<open>row' = row\<close> \<open>out' = out\<close>
      by simp
  qed
  then show ?thesis unfolding content using frame by simp
qed

text \<open>
  A replay is a no-op: once an alert was reassessed and stored, another call on it, at whatever time,
  changes nothing and appends nothing as long as the providers say what they said before.
\<close>

theorem replay_is_noop:
  assumes wf: "wf_enriched (c_iocs (al_payload row))" and row: "get_alert_row a s = Some row"
    and first: "reassess_persisted_if_changed sv fate a t (s, e) = (Inr (Some (r, i, True)), s1, e1)"
    and replay: "late_enrich sv (lr_canonical r) e2 = (out, e3)"
      "enrichment_content (eo_iocs out) = enrichment_content (c_iocs (lr_canonical r))"
  shows "reassess_persisted_if_changed sv (True, db_ok) a t2 (s1, e2) = (Inr None, s1, e3)"
  using first
proof (cases rule: late_cases)
  case (changed row' out' r' risk d i' stored)
  then have r: "r' = r" "stored = True" "row' = row" using row by simp_all
  have "map_option al_payload (get_alert_row a s1) = Some (lr_canonical r)"
    using late_stored [OF changed(6,1)] r by simp
  then obtain row1 where row1: "get_alert_row a s1 = Some row1" "al_payload row1 = lr_canonical r" by blast
  have "wf_enriched (eo_iocs out')" using wf_chain [OF wf] changed(2) r(3) by (metis fst_conv late_enrich_def)
  then have wf1: "wf_enriched (c_iocs (lr_canonical r))" using rescored(4) [OF changed(4)] r(1) by simp
  then have "wf_enriched (eo_iocs out)" using wf_chain replay(1) by (metis fst_conv late_enrich_def)
  from fingerprint_content [OF this wf1] replay(2)
  have fp: "enrichment_fingerprint (eo_iocs out) = enrichment_fingerprint (c_iocs (al_payload row1))" using row1(2) by simp
  have "load_alert True a s1 = Inr row1" using row1(1) by (simp add: load_alert_eq)
  then show ?thesis using replay(1) fp row1(2) by (simp add: reassess_persisted_if_changed_def)
qed simp_all

subsection \<open>The sweep\<close>

definition late_total :: "late_stats \<Rightarrow> nat" where
  "late_total st = la_reassessed st + la_unchanged st + la_errors st"

lemma late_candidate_step:
  assumes "late_candidate sv now env a (st, s, e) = (st', s', e')"
  shows "late_total st' = late_total st + 1 \<and> la_candidates st' = la_candidates st
    \<and> (incidents_ok (le_others env s) \<and> one_open_per_group (le_others env s) \<longrightarrow> incidents_ok s' \<and> one_open_per_group s')"
proof -
  obtain res s1 e1 where r: "reassess_persisted_if_changed sv (le_fate env) a (Some now) (le_others env s, e) = (res, s1, e1)"
    by (metis prod.collapse)
  have "s' = s1" "late_total st' = late_total st + 1" "la_candidates st' = la_candidates st"
    using assms r by (auto simp: late_candidate_def late_total_def split: sum.splits option.splits)
  then show ?thesis using late_incidents [OF r] by simp
qed

lemma late_candidates_run:
  assumes "late_candidates sv now envs as (st, s, e) = (st', s', e')"
    and "\<And>v z. v \<in> set envs \<Longrightarrow> incidents_ok z \<Longrightarrow> one_open_per_group z \<Longrightarrow> incidents_ok (le_others v z) \<and> one_open_per_group (le_others v z)"
    and "incidents_ok s" "one_open_per_group s"
  shows "late_total st' = late_total st + length as \<and> la_candidates st' = la_candidates st
    \<and> incidents_ok s' \<and> one_open_per_group s'"
  using assms
proof (induction "as" arbitrary: envs st s e)
  case (Cons a as)
  obtain st1 s1 e1 where one: "late_candidate sv now (next_late envs) a (st, s, e) = (st1, s1, e1)" by (metis prod.collapse)
  have "incidents_ok (le_others (next_late envs) s) \<and> one_open_per_group (le_others (next_late envs) s)"
    using Cons.prems(2-4) by (cases envs) (simp_all add: quiet_late_def)
  note step = late_candidate_step [OF one] this
  have "late_candidates sv now (tl envs) as (st1, s1, e1) = (st', s', e')" using Cons.prems(1) one by simp
  from Cons.IH [OF this] Cons.prems(2) step show ?case by (cases envs) auto
qed simp

text \<open>
  A late-enrichment sweep isolates failures: it visits at most 200 alerts, each counted once as
  reassessed, unchanged or failed, a failure on one never stops the others, and the invariants of the
  incident table hold afterwards, whatever other components commit in between.
\<close>

theorem late_sweep_sound:
  assumes "late_sweep_once sv lookback now select_ok envs (s, e) = (Inr stats, s', e')"
    and others: "\<And>v z. v \<in> set envs \<Longrightarrow> incidents_ok z \<Longrightarrow> one_open_per_group z \<Longrightarrow>
      incidents_ok (le_others v z) \<and> one_open_per_group (le_others v z)"
    and ok: "incidents_ok s" "one_open_per_group s"
  shows "la_reassessed stats + la_unchanged stats + la_errors stats = la_candidates stats \<and> la_candidates stats \<le> 200
    \<and> incidents_ok s' \<and> one_open_per_group s'"
proof -
  have pos: "\<not> lookback < 1" using assms(1) by (auto simp: late_sweep_once_def)
  obtain q s1 where q: "session_scope select_ok (list_alerts_received_since (now - seconds lookback) late_batch_limit) s = (q, s1)"
    by (metis prod.collapse)
  obtain found where found: "q = Inr found" using assms(1) pos q by (cases q) (auto simp: late_sweep_once_def)
  have same: "s1 = s" "length found \<le> 200"
    using q found
    by (auto simp: session_scope_eq_Inr list_alerts_received_since_def late_batch_limit_def split: if_splits)
  have run: "late_candidates sv now envs (map al_id found)
      (\<lparr>la_candidates = length found, la_reassessed = 0, la_unchanged = 0, la_errors = 0\<rparr>, s, e) = (stats, s', e')"
    using assms(1) pos q found same(1) by (auto simp: late_sweep_once_def split: prod.splits)
  from late_candidates_run [OF run others ok] same(2) show ?thesis by (simp add: late_total_def)
qed

end
