(* ===== verification/Late_Examples.thy ===== *)
theory Late_Examples
  imports Late_Facts
begin

text \<open>
  Runs of late enrichment: a late verdict rewrites the alert once, the replay is a no-op, and an outage
  replaces a verdict already on record by a failure record.
\<close>

definition calm_decisions :: decision_policy where
  "calm_decisions = default_decision_policy\<lparr>dp_tier_actions := map (\<lambda>t. (t, \<lparr>td_action = MONITOR, td_severity = None\<rparr>)) all_risk_tiers\<rparr>"

definition late_sample :: "unit provider list \<Rightarrow> unit late_service" where
  "late_sample ps = \<lparr>ls_providers = ps, ls_scoring = default_scoring_policy, ls_decisions = calm_decisions\<rparr>"

definition late_row :: alert_row where
  "late_row = sample_alert_row\<lparr>al_payload := (sample_canonical 1 0)\<lparr>c_iocs := [chain_ioc ''8.8.8.8'']\<rparr>\<rparr>"

definition late_store :: store where
  "late_store = empty_store\<lparr>st_alerts := [(1, late_row)]\<rparr>"

lemma late_row_found: "get_alert_row 1 late_store = Some late_row"
  by (simp add: get_alert_row_def late_store_def)

lemma late_row_iocs [simp]: "c_iocs (al_payload late_row) = [chain_ioc ''8.8.8.8'']"
  by (simp add: late_row_def)

lemma late_row_wf: "wf_enriched (c_iocs (al_payload late_row))"
  by (simp add: wf_enriched_def chain_ioc_def)

definition known_ioc :: ioc where
  "known_ioc = (chain_ioc ''8.8.8.8'')\<lparr>i_enrichment := [(''misp'', JObj [(''seen'', JBool True)])]\<rparr>"

lemma found_enrich:
  "c_iocs c = [i] \<Longrightarrow> i \<in> {chain_ioc ''8.8.8.8'', known_ioc} \<Longrightarrow>
     eo_iocs (fst (late_enrich (late_sample [found_provider]) c ())) = [known_ioc]"
  by (auto simp: late_enrich_def late_sample_def chain_enrich_def keyed_def chain_step_def found_provider_def
      Let_def ioc_key_def with_payload_def chain_ioc_def known_ioc_def)

lemma calm_decide: "\<exists>d. decide risk c calm_decisions at now = Inr d \<and> d_action d \<noteq> OPEN_INCIDENT"
proof -
  have "map_of (dp_tier_actions calm_decisions) t = Some \<lparr>td_action = MONITOR, td_severity = None\<rparr>" for t
    by (cases t) (simp_all add: calm_decisions_def all_risk_tiers_def)
  then show ?thesis by (simp add: decide_def Let_def) (simp add: calm_decisions_def default_decision_policy_def)
qed

lemma calm_persist:
  assumes "get_alert_row a s \<noteq> None" "d_action d \<noteq> OPEN_INCIDENT"
  shows "persist_assessment True a c risk d g t pr pd s = (Inr (None, True), scored_store a c risk d t pr pd s)"
proof -
  have "assessment_body a c risk d g t pr pd s = Inr (None, scored_store a c risk d t pr pd s)"
    using assms by (simp add: assessment_body_eq link_incident_def)
  then show ?thesis by (simp add: persist_assessment_def session_scope_def)
qed

lemma contents_differ: "enrichment_fingerprint [known_ioc] \<noteq> enrichment_fingerprint [chain_ioc ''8.8.8.8'']"
  by code_simp

lemma late_run:
  obtains r s1 e1 where "reassess_persisted_if_changed (late_sample [found_provider]) (True, True) 1 (Some 5) (late_store, ())
      = (Inr (Some (r, None, True)), s1, e1)" "c_iocs (lr_canonical r) = [known_ioc]"
proof -
  let ?sv = "late_sample [found_provider]"
  obtain out e1 where out: "late_enrich ?sv (al_payload late_row) () = (out, e1)" by (metis prod.collapse)
  have iocs: "eo_iocs out = [known_ioc]" using found_enrich [of "al_payload late_row" "chain_ioc ''8.8.8.8''"] out by simp
  define risk where "risk = risk_scorer_score default_scoring_policy (with_enrichment (al_payload late_row) out)"
  obtain d where d: "decide risk (with_enrichment (al_payload late_row) out) calm_decisions (Some 5) 5 = Inr d"
    "d_action d \<noteq> OPEN_INCIDENT" using calm_decide by blast
  obtain r where r: "rescore ?sv (al_payload late_row) out (Some 5) = Inr (r, risk, d)"
    using d(1) by (simp add: rescore_def late_sample_def risk_def decided_or_received_def Let_def)
  have "load_alert True 1 late_store = Inr late_row" using late_row_found by (simp add: load_alert_eq)
  then have "\<exists>s1. reassess_persisted_if_changed ?sv (True, True) 1 (Some 5) (late_store, ()) = (Inr (Some (r, None, True)), s1, e1)"
    using late_row_found out iocs contents_differ r calm_persist [OF _ d(2), of 1 late_store]
    by (simp add: reassess_persisted_if_changed_def store_late_def)
  then show thesis using that rescored(4) [OF r] iocs by auto
qed

theorem fingerprint_is_content_witness:
  "enrichment_fingerprint [known_ioc, chain_ioc ''1.1.1.1'']
   = enrichment_fingerprint [chain_ioc ''1.1.1.1'', known_ioc\<lparr>i_enrichment :=
        [(''misp'', JObj [(''timestamp'', JStr ''now''), (''seen'', JBool True)])]\<rparr>]"
proof -
  let ?xs = "[known_ioc, chain_ioc ''1.1.1.1'']"
  let ?ys = "[chain_ioc ''1.1.1.1'', known_ioc\<lparr>i_enrichment := [(''misp'', JObj [(''timestamp'', JStr ''now''), (''seen'', JBool True)])]\<rparr>]"
  have "wf_enriched ?xs" "wf_enriched ?ys"
    by (simp_all add: wf_enriched_def known_ioc_def chain_ioc_def ioc_key_def)
  moreover have "enrichment_content ?xs = enrichment_content ?ys"
    by (intro ext) (auto simp: enrichment_content_def known_ioc_def chain_ioc_def ioc_key_def timeless_def provider_record_def)
  ultimately show ?thesis by (simp only: fingerprint_is_content)
qed

theorem reassessed_iff_changed_witness:
  "\<exists>r s' e' enriched. reassess_persisted_if_changed (late_sample [found_provider]) (True, True) 1 (Some 5) (late_store, ())
       = (Inr (Some (r, None, True)), s', e')
     \<and> c_iocs enriched = [known_ioc] \<and> c_risk (lr_canonical r) = Some (risk_scorer_score default_scoring_policy enriched)
     \<and> st_groups s' = []"
proof (rule late_run)
  fix r s1 e1
  assume run: "reassess_persisted_if_changed (late_sample [found_provider]) (True, True) 1 (Some 5) (late_store, ())
      = (Inr (Some (r, None, True)), s1, e1)"
  obtain out e1 where out: "late_enrich (late_sample [found_provider]) (al_payload late_row) () = (out, e1)" by (metis prod.collapse)
  have iocs: "eo_iocs out = [known_ioc]" using found_enrich [of "al_payload late_row" "chain_ioc ''8.8.8.8''"] out by simp
  define enriched where "enriched = (al_payload late_row)\<lparr>c_iocs := eo_iocs out,
    c_enrichment_status := Some (enrichment_status_value (eo_status out))\<rparr>"
  from reassessed_iff_changed [OF late_row_wf late_row_found out run enriched_def refl] iocs run
  show ?thesis
    by (intro exI [of _ r] exI [of _ s1] exI [of _ e1] exI [of _ enriched])
       (auto simp: late_store_def empty_store_def enriched_def late_sample_def)
qed

theorem replay_is_noop_witness:
  "\<exists>r s1 e1 e3. reassess_persisted_if_changed (late_sample [found_provider]) (True, True) 1 (Some 5) (late_store, ())
       = (Inr (Some (r, None, True)), s1, e1)
     \<and> reassess_persisted_if_changed (late_sample [found_provider]) (True, False) 1 (Some 9) (s1, ()) = (Inr None, s1, e3)"
proof (rule late_run)
  fix r s1 e1
  assume run: "reassess_persisted_if_changed (late_sample [found_provider]) (True, True) 1 (Some 5) (late_store, ())
      = (Inr (Some (r, None, True)), s1, e1)" and iocs: "c_iocs (lr_canonical r) = [known_ioc]"
  obtain out e3 where out: "late_enrich (late_sample [found_provider]) (lr_canonical r) () = (out, e3)" by (metis prod.collapse)
  have "eo_iocs out = [known_ioc]" using found_enrich [OF iocs] out by simp
  then have "enrichment_content (eo_iocs out) = enrichment_content (c_iocs (lr_canonical r))" using iocs by simp
  from replay_is_noop [OF late_row_wf late_row_found run out this] run show ?thesis by blast
qed

theorem late_sweep_sound_witness:
  "\<exists>stats s' e'. late_sweep_once (late_sample [found_provider]) 60 5 True [] (late_store, ()) = (Inr stats, s', e')
     \<and> la_candidates stats \<le> 200"
proof -
  have ok: "incidents_ok late_store" "one_open_per_group late_store"
    by (simp_all add: incidents_ok_def one_open_per_group_def late_store_def empty_store_def)
  have "\<exists>found. session_scope True (list_alerts_received_since (5 - seconds 60) late_batch_limit) late_store = (Inr found, late_store)"
    by (simp add: session_scope_def list_alerts_received_since_def late_batch_limit_def db_run)
  then obtain found where found: "session_scope True (list_alerts_received_since (5 - seconds 60) late_batch_limit) late_store
      = (Inr found, late_store)" by blast
  obtain stats s' e' where "late_candidates (late_sample [found_provider]) 5 [] (map al_id found)
      (\<lparr>la_candidates = length found, la_reassessed = 0, la_unchanged = 0, la_errors = 0\<rparr>, late_store, ()) = (stats, s', e')"
    by (metis prod.collapse)
  then have run: "late_sweep_once (late_sample [found_provider]) 60 5 True [] (late_store, ()) = (Inr stats, s', e')"
    using found by (simp add: late_sweep_once_def)
  from late_sweep_sound [OF this _ ok] run show ?thesis by simp
qed

definition down_provider :: "unit provider" where
  "down_provider = \<lparr>pv_name = ''virustotal'', pv_enabled = True,
     pv_enrich = (\<lambda>iocs context w. (Inr \<lparr>pe_provider = ''virustotal'', pe_status = FAILED,
        pe_results = map (\<lambda>i. (ioc_key i, [(''lookup_status'', JStr ''error''), (''result'', JObj [])])) iocs, pe_notes = []\<rparr>, w))\<rparr>"


end
