(* ===== verification/Daily_Stats.thy ===== *)
theory Daily_Stats
  imports Alert_Repository Calendar
begin

text \<open>
  The daily digest (services/stats.py, the statistics queries of models/repositories.py and the handler
  of api/stats.py): volumes, false-positive rate, top rules and tuning suggestions of one UTC day. A
  date is the number of its day since 1970-01-01.
\<close>

subsection \<open>The reporting window\<close>

definition date_max :: int where
  "date_max = 3652059 - epoch_ordinal"

definition date_min :: int where
  "date_min = 1 - epoch_ordinal"

text \<open>\<open>start + timedelta(days=1)\<close> overflows on the last date there is.\<close>

definition reporting_window :: "int \<Rightarrow> py_exn + (instant \<times> instant)" where
  "reporting_window report_date =
     (if report_date = date_max then Inl (OtherError ''OverflowError'')
      else Inr (report_date * us_per_day, (report_date + 1) * us_per_day))"

definition previous_utc_date :: "instant \<Rightarrow> py_exn + int" where
  "previous_utc_date now =
     (let d = (now - us_per_day) div us_per_day in
      if d < date_min then Inl (OtherError ''OverflowError'') else Inr d)"

subsection \<open>The queries\<close>

definition in_window :: "instant \<Rightarrow> instant \<Rightarrow> instant \<Rightarrow> bool" where
  "in_window start stop t \<longleftrightarrow> start \<le> t \<and> t < stop"

definition count_alerts :: "instant \<Rightarrow> instant \<Rightarrow> store \<Rightarrow> nat" where
  "count_alerts start stop s = length (filter (in_window start stop \<circ> al_received_at) (rows (st_alerts s)))"

definition count_incidents :: "instant \<Rightarrow> instant \<Rightarrow> store \<Rightarrow> nat" where
  "count_incidents start stop s = length (filter (in_window start stop \<circ> inc_created_at) (rows (st_incidents s)))"

definition feedback_within :: "instant \<Rightarrow> instant \<Rightarrow> store \<Rightarrow> feedback_row list" where
  "feedback_within start stop s = filter (in_window start stop \<circ> fb_received_at) (st_feedback s)"

definition false_positive_row :: "feedback_row \<Rightarrow> bool" where
  "false_positive_row f = (fb_verdict f = ''false_positive'')"

definition feedback_counts :: "instant \<Rightarrow> instant \<Rightarrow> store \<Rightarrow> nat \<times> nat" where
  "feedback_counts start stop s =
     (let fs = feedback_within start stop s in (length fs, length (filter false_positive_row fs)))"

text \<open>\<open>GROUP BY\<close> with a count, and the order of both rankings: count descending, then key ascending.\<close>

definition group_counts :: "'k list \<Rightarrow> ('k \<times> nat) list" where
  "group_counts ks = map (\<lambda>k. (k, count_list ks k)) (remdups ks)"

definition ranked :: "('k::linorder \<times> nat) list \<Rightarrow> ('k \<times> nat) list" where
  "ranked gs = sort_key (\<lambda>(k, n). (- int n, k)) gs"

definition rules_within :: "instant \<Rightarrow> instant \<Rightarrow> store \<Rightarrow> string list" where
  "rules_within start stop s = map al_rule_id (filter (in_window start stop \<circ> al_received_at) (rows (st_alerts s)))"

definition top_rules :: "instant \<Rightarrow> instant \<Rightarrow> store \<Rightarrow> (string \<times> nat) list" where
  "top_rules start stop s = take 10 (ranked (group_counts (rules_within start stop s)))"

definition max_tuning_suggestions :: nat where
  "max_tuning_suggestions = 100"

definition false_positive_sources :: "instant \<Rightarrow> instant \<Rightarrow> store \<Rightarrow> (string \<times> string) list" where
  "false_positive_sources start stop s =
     List.map_filter (\<lambda>f. map_option (\<lambda>a. (al_rule_id a, al_agent_id a)) (get_alert_row (fb_alert_id f) s))
       (filter false_positive_row (feedback_within start stop s))"

definition tuning_suggestions :: "instant \<Rightarrow> instant \<Rightarrow> store \<Rightarrow> ((string \<times> string) \<times> nat) list" where
  "tuning_suggestions start stop s =
     take max_tuning_suggestions
       (ranked (filter (\<lambda>(k, n). 3 \<le> n) (group_counts (false_positive_sources start stop s))))"

subsection \<open>The rate\<close>

text \<open>
  \<open>round(a / b, 4)\<close> in ten-thousandths. The quotient of two integers is the double nearest to it: a
  significand of 53 bits over a power of two. \<open>round\<close> is exact on that double, ties to even.
\<close>

function binary_exponent :: "nat \<Rightarrow> nat \<Rightarrow> nat" where
  "binary_exponent a b = (if a = 0 \<or> b \<le> a then 0 else Suc (binary_exponent (2 * a) b))"
  by auto
termination by (relation "measure (\<lambda>(a, b). b - a)") auto

declare binary_exponent.simps [simp del]

definition double_quotient :: "nat \<Rightarrow> nat \<Rightarrow> int \<times> nat" where
  "double_quotient a b = (let e = 52 + binary_exponent a b in (round_half_even (int a * 2 ^ e) (int b), e))"

definition round4 :: "int \<times> nat \<Rightarrow> int" where
  "round4 x = (case x of (m, e) \<Rightarrow> round_half_even (m * 10000) (2 ^ e))"

definition false_positive_rate :: "nat \<Rightarrow> nat \<Rightarrow> int" where
  "false_positive_rate false_positives feedback =
     (if feedback = 0 then 0 else round4 (double_quotient false_positives feedback))"

subsection \<open>The service and its handler\<close>

record daily_stats =
  ds_date :: int
  ds_timezone :: string
  ds_alerts :: nat
  ds_incidents :: nat
  ds_feedback :: nat
  ds_rate :: int
  ds_false_positives :: nat
  ds_feedback_count :: nat
  ds_top_rules :: "(string \<times> nat) list"
  ds_suggestions :: "((string \<times> string) \<times> nat) list"

definition daily :: "int option \<Rightarrow> instant \<Rightarrow> store \<Rightarrow> py_exn + daily_stats" where
  "daily report_date now s =
     then_ok (case report_date of None \<Rightarrow> previous_utc_date now | Some d \<Rightarrow> Inr d) (\<lambda>d.
     then_ok (reporting_window d) (\<lambda>(start, stop).
       let (feedback, false_positives) = feedback_counts start stop s in
       Inr \<lparr>ds_date = d, ds_timezone = ''UTC'', ds_alerts = count_alerts start stop s, ds_incidents = count_incidents start stop s,
         ds_feedback = feedback, ds_rate = false_positive_rate false_positives feedback,
         ds_false_positives = false_positives, ds_feedback_count = feedback, ds_top_rules = top_rules start stop s,
         ds_suggestions = tuning_suggestions start stop s\<rparr>))"

text \<open>The handler answers with the record, the date in ISO form; every exception is a 500.\<close>

definition get_daily_stats :: "bool \<Rightarrow> int option \<Rightarrow> instant \<Rightarrow> store \<Rightarrow> (string \<times> daily_stats) option" where
  "get_daily_stats db_ok report_date now s =
     (if \<not> db_ok then None
      else (case daily report_date now s of
          Inl _ \<Rightarrow> None
        | Inr d \<Rightarrow> Some (date_str (ds_date d * us_per_day), d)))"

subsection \<open>A window is a calendar day\<close>

lemma window_day: "in_window (d * us_per_day) ((d + 1) * us_per_day) t \<longleftrightarrow> t div us_per_day = d"
proof -
  have "us_per_day * (t div us_per_day) + t mod us_per_day = t" "0 \<le> t mod us_per_day" "t mod us_per_day < us_per_day"
    by (simp_all add: us_per_day_def us_per_second_def)
  then show ?thesis
    unfolding in_window_def by (auto simp: us_per_day_def us_per_second_def)
qed

lemma window_split: "a \<le> b \<Longrightarrow> b \<le> c \<Longrightarrow> length (filter (in_window a c \<circ> f) xs)
    = length (filter (in_window a b \<circ> f) xs) + length (filter (in_window b c \<circ> f) xs)"
  by (induction xs) (auto simp: in_window_def)

lemma windows_add_up:
  assumes "a \<le> b"
  shows "(\<Sum>d \<in> {a..<b}. length (filter (in_window (d * us_per_day) ((d + 1) * us_per_day) \<circ> f) xs))
      = length (filter (in_window (a * us_per_day) (b * us_per_day) \<circ> f) xs)"
  using assms
proof (induction "nat (b - a)" arbitrary: b)
  case 0
  then have "b = a" by simp
  then show ?case by (simp add: in_window_def comp_def)
next
  case (Suc n)
  then have b: "n = nat (b - 1 - a)" "a \<le> b - 1" by simp_all
  have days: "{a..<b} = insert (b - 1) {a..<b - 1}" using b(2) by auto
  have le: "a * us_per_day \<le> (b - 1) * us_per_day" "(b - 1) * us_per_day \<le> b * us_per_day"
    using b(2) by (simp_all add: us_per_day_def us_per_second_def)
  show ?case
    using Suc(1) [OF b] window_split [OF le, of f xs] by (simp add: days)
qed

subsection \<open>The rankings\<close>

lemma group_counts_iff: "(k, n) \<in> set (group_counts ks) \<longleftrightarrow> k \<in> set ks \<and> n = count_list ks k"
  by (auto simp: group_counts_def)

lemma group_counts_distinct: "distinct (map fst (group_counts ks))"
  by (simp add: group_counts_def comp_def)

lemma ranked_simps [simp]: "set (ranked gs) = set gs" "length (ranked gs) = length gs"
  by (simp_all add: ranked_def)

lemma ranked_distinct: "distinct (map fst gs) \<Longrightarrow> distinct (map fst (ranked gs))"
proof -
  have "mset (map fst (ranked gs)) = mset (map fst gs)" by (simp add: ranked_def)
  then show "distinct (map fst gs) \<Longrightarrow> distinct (map fst (ranked gs))" by (metis mset_eq_imp_distinct_iff)
qed

definition ranks_before :: "'k::linorder \<times> nat \<Rightarrow> 'k \<times> nat \<Rightarrow> bool" where
  "ranks_before x y \<longleftrightarrow> snd y < snd x \<or> (snd x = snd y \<and> fst x < fst y)"

lemma ranked_sorted: "distinct (map fst gs) \<Longrightarrow> sorted_wrt ranks_before (ranked gs)"
proof -
  assume d: "distinct (map fst gs)"
  have "sorted_wrt (\<lambda>x y. (- int (snd x), fst x) \<le> (- int (snd y), fst y)) (ranked gs)"
    using sorted_sort_key [of "\<lambda>(k, n). (- int n, k)" gs] by (simp add: ranked_def sorted_wrt_map case_prod_unfold)
  moreover have "sorted_wrt (\<lambda>x y. fst x \<noteq> fst y) (ranked gs)"
    using ranked_distinct [OF d] by (simp add: distinct_conv_nth sorted_wrt_iff_nth_less)
  ultimately have "sorted_wrt (\<lambda>x y. (- int (snd x), fst x) \<le> (- int (snd y), fst y) \<and> fst x \<noteq> fst y) (ranked gs)"
    by (simp add: sorted_wrt_iff_nth_less)
  then show ?thesis
    by (rule sorted_wrt_mono_rel [rotated]) (auto simp: ranks_before_def less_eq_prod_def)
qed

text \<open>What a ranking cut at \<open>m\<close> entries says of the grouped list it was taken from.\<close>

definition top_of :: "nat \<Rightarrow> ('k::linorder \<times> nat \<Rightarrow> bool) \<Rightarrow> 'k list \<Rightarrow> ('k \<times> nat) list \<Rightarrow> bool" where
  "top_of m p ks best \<longleftrightarrow> length best \<le> m \<and> sorted_wrt ranks_before best \<and> distinct (map fst best)
     \<and> (\<forall>(k, n) \<in> set best. p (k, n) \<and> n = count_list ks k \<and> k \<in> set ks)
     \<and> (\<forall>k \<in> set ks. p (k, count_list ks k) \<longrightarrow> (k, count_list ks k) \<in> set best
          \<or> (length best = m \<and> (\<forall>x \<in> set best. ranks_before x (k, count_list ks k))))"

lemma ranking_top: "top_of m p ks (take m (ranked (filter p (group_counts ks))))"
proof -
  let ?r = "ranked (filter p (group_counts ks))"
  have d: "distinct (map fst (filter p (group_counts ks)))"
    using group_counts_distinct by (metis distinct_map_filter)
  have sorted: "sorted_wrt ranks_before ?r" by (rule ranked_sorted [OF d])
  have in_r: "x \<in> set ?r \<longleftrightarrow> p x \<and> fst x \<in> set ks \<and> snd x = count_list ks (fst x)" for x
    using group_counts_iff [of "fst x" "snd x" ks] by auto
  have rest: "length (take m ?r) = m \<and> (\<forall>x \<in> set (take m ?r). ranks_before x y)"
    if "y \<in> set ?r" "y \<notin> set (take m ?r)" for y
  proof -
    have y: "y \<in> set (drop m ?r)" using that by (metis Un_iff append_take_drop_id set_append)
    then have "m < length ?r" by (metis drop_all empty_iff leI list.set(1))
    moreover have "\<forall>x \<in> set (take m ?r). ranks_before x y"
      using sorted y by (metis append_take_drop_id sorted_wrt_append)
    ultimately show ?thesis by simp
  qed
  have "distinct (map fst (take m ?r))" using ranked_distinct [OF d] by (simp add: take_map [symmetric])
  moreover have "sorted_wrt ranks_before (take m ?r)" using sorted by (rule sorted_wrt_take)
  moreover have "\<forall>(k, n) \<in> set (take m ?r). p (k, n) \<and> n = count_list ks k \<and> k \<in> set ks"
    using in_r set_take_subset by fastforce
  ultimately show ?thesis using rest in_r by (auto simp: top_of_def)
qed

lemma ranking_top_all: "top_of m (\<lambda>_. True) ks (take m (ranked (group_counts ks)))"
  using ranking_top [of m "\<lambda>_. True" ks] by simp

subsection \<open>Properties\<close>

lemma round_half_even_near: "0 < d \<Longrightarrow> \<bar>2 * (round_half_even n d * d - n)\<bar> \<le> d"
proof -
  assume d: "0 < d"
  define q r where "q = n div d" and "r = n mod d"
  have n: "n = q * d + r" and r: "0 \<le> r" "r < d" using d by (simp_all add: q_def r_def)
  have "round_half_even n d = q \<and> 2 * r \<le> d \<or> round_half_even n d = q + 1 \<and> d \<le> 2 * r"
    by (auto simp: round_half_even_def Let_def q_def r_def)
  then show ?thesis using n r by (auto simp: algebra_simps abs_le_iff)
qed

lemma round_half_even_bounds:
  assumes "0 < d" "0 \<le> n" "n \<le> k * d"
  shows "0 \<le> round_half_even n d \<and> round_half_even n d \<le> k"
proof -
  let ?r = "round_half_even n d"
  have near: "2 * (?r * d - n) \<le> d" "2 * (n - ?r * d) \<le> d"
    using round_half_even_near [OF assms(1), of n] by (simp_all add: abs_le_iff)
  have "?r * d < (k + 1) * d" using near(1) assms by (simp add: algebra_simps)
  then have "?r < k + 1" using assms(1) by (simp add: mult_less_cancel_right)
  moreover have "- 1 * d < ?r * d" using near(2) assms by (simp add: algebra_simps)
  then have "- 1 < ?r" using assms(1) mult_less_cancel_right_pos [of d "- 1" ?r] by blast
  ultimately show ?thesis by simp
qed

lemma rate_eq:
  assumes "0 < n"
  obtains e m where "52 \<le> e" "\<bar>2 * (m * int n - int fp * 2 ^ e)\<bar> \<le> int n"
    "\<bar>2 * (false_positive_rate fp n * 2 ^ e - m * 10000)\<bar> \<le> 2 ^ e"
    "m = round_half_even (int fp * 2 ^ e) (int n)" "false_positive_rate fp n = round_half_even (m * 10000) (2 ^ e)"
proof
  let ?e = "52 + binary_exponent fp n"
  let ?m = "round_half_even (int fp * 2 ^ ?e) (int n)"
  show "52 \<le> ?e" by simp
  show "\<bar>2 * (?m * int n - int fp * 2 ^ ?e)\<bar> \<le> int n" using assms by (intro round_half_even_near) simp
  show r: "false_positive_rate fp n = round_half_even (?m * 10000) (2 ^ ?e)"
    using assms by (simp add: false_positive_rate_def round4_def double_quotient_def Let_def)
  show "\<bar>2 * (false_positive_rate fp n * 2 ^ ?e - ?m * 10000)\<bar> \<le> 2 ^ ?e"
    unfolding r by (rule round_half_even_near) simp
qed simp

lemma rate_bounds:
  assumes "fp \<le> n"
  shows "0 \<le> false_positive_rate fp n \<and> false_positive_rate fp n \<le> 10000"
proof (cases "n = 0")
  case False
  obtain e m where defs: "m = round_half_even (int fp * 2 ^ e) (int n)" "false_positive_rate fp n = round_half_even (m * 10000) (2 ^ e)"
    using rate_eq [of n fp] False by blast
  have "0 \<le> m \<and> m \<le> 2 ^ e"
    unfolding defs(1) using assms False by (intro round_half_even_bounds) (simp_all add: mult.commute)
  then show ?thesis
    unfolding defs(2) by (intro round_half_even_bounds) simp_all
qed (simp add: false_positive_rate_def)

text \<open>
  The false-positive rate is a rate: between 0 and 1 whenever no more false positives than feedback
  are counted, and a four-digit decimal nearest to the exact quotient, for every day of fewer than
  \<open>2 ^ 38\<close> verdicts: the two roundings of floating-point arithmetic never add up to a wrong digit.
\<close>

theorem rate_is_nearest:
  assumes "fp \<le> n"
  shows "0 \<le> false_positive_rate fp n \<and> false_positive_rate fp n \<le> 10000
    \<and> (n < 2 ^ 38 \<longrightarrow> \<bar>2 * (false_positive_rate fp n * int n - 10000 * int fp)\<bar> \<le> int n)"
proof (cases "n = 0")
  case True
  then show ?thesis using assms by (simp add: false_positive_rate_def)
next
  case False
  let ?q = "false_positive_rate fp n"
  obtain e m where e: "52 \<le> e" and m: "\<bar>2 * (m * int n - int fp * 2 ^ e)\<bar> \<le> int n"
    and q: "\<bar>2 * (?q * 2 ^ e - m * 10000)\<bar> \<le> 2 ^ e"
    using rate_eq [of n fp] False by blast
  have "\<bar>2 * (?q * int n - 10000 * int fp)\<bar> \<le> int n" if small: "n < 2 ^ 38"
  proof -
    define x where "x = 2 * (?q * int n - 10000 * int fp)"
    have "x * 2 ^ e = int n * (2 * (?q * 2 ^ e - m * 10000)) + 10000 * (2 * (m * int n - int fp * 2 ^ e))"
      by (simp add: x_def algebra_simps)
    moreover have "\<bar>int n * (2 * (?q * 2 ^ e - m * 10000))\<bar> \<le> int n * 2 ^ e"
      using q by (simp add: abs_mult mult_left_mono)
    moreover have "\<bar>10000 * (2 * (m * int n - int fp * 2 ^ e))\<bar> \<le> 10000 * int n"
      using m by (simp add: abs_mult)
    ultimately have "\<bar>x * 2 ^ e\<bar> \<le> int n * 2 ^ e + 10000 * int n" by linarith
    then have "\<bar>x\<bar> * 2 ^ e \<le> int n * 2 ^ e + 10000 * int n" by (simp add: abs_mult)
    moreover have "10000 * int n < (2::int) ^ 52" using small by simp
    moreover have "(2::int) ^ 52 \<le> 2 ^ e" using e by (intro power_increasing) simp_all
    ultimately have "\<bar>x\<bar> * 2 ^ e < (int n + 1) * 2 ^ e" by (simp add: algebra_simps)
    then have "\<bar>x\<bar> < int n + 1" by (simp add: mult_less_cancel_right)
    then show ?thesis by (simp add: x_def)
  qed
  then show ?thesis using rate_bounds [OF assms] by blast
qed

theorem rate_is_nearest_witness: "false_positive_rate 1 3 = 3333 \<and> false_positive_rate 1 32 = 312
  \<and> \<bar>2 * (false_positive_rate 1 3 * 3 - 10000)\<bar> \<le> 3"
proof -
  have "false_positive_rate 1 3 = 3333" "false_positive_rate 1 32 = 312" by code_simp+
  then show ?thesis using rate_is_nearest [of 1 3] by simp
qed

definition received_on :: "int \<Rightarrow> alert_row \<Rightarrow> bool" where
  "received_on d a = (al_received_at a div us_per_day = d)"

definition judged_on :: "int \<Rightarrow> feedback_row \<Rightarrow> bool" where
  "judged_on d f = (fb_received_at f div us_per_day = d)"

definition selected_date :: "int option \<Rightarrow> instant \<Rightarrow> int" where
  "selected_date report_date now = (case report_date of None \<Rightarrow> now div us_per_day - 1 | Some d \<Rightarrow> d)"

lemma previous_day: "(now - us_per_day) div us_per_day = now div us_per_day - 1"
  by (simp add: us_per_day_def us_per_second_def)

definition digest_of :: "int \<Rightarrow> store \<Rightarrow> daily_stats" where
  "digest_of d s =
     (let fs = filter (judged_on d) (st_feedback s); hits = filter false_positive_row fs;
          alerts = filter (received_on d) (rows (st_alerts s)) in
      \<lparr>ds_date = d, ds_timezone = ''UTC'', ds_alerts = length alerts,
        ds_incidents = length (filter (\<lambda>i. inc_created_at i div us_per_day = d) (rows (st_incidents s))),
        ds_feedback = length fs, ds_rate = false_positive_rate (length hits) (length fs), ds_false_positives = length hits, ds_feedback_count = length fs,
        ds_top_rules = take 10 (ranked (filter (\<lambda>_. True) (group_counts (map al_rule_id alerts)))),
        ds_suggestions = take 100 (ranked (filter (\<lambda>(k, n). 3 \<le> n) (group_counts
          (List.map_filter (\<lambda>f. map_option (\<lambda>a. (al_rule_id a, al_agent_id a)) (get_alert_row (fb_alert_id f) s)) hits))))\<rparr>)"

lemma daily_on: "daily (Some d) now s = (if d = date_max then Inl (OtherError ''OverflowError'') else Inr (digest_of d s))"
proof -
  have day: "in_window (d * us_per_day) ((d + 1) * us_per_day) \<circ> f = (\<lambda>x. f x div us_per_day = d)" for f :: "'a \<Rightarrow> instant"
    by (rule ext) (simp add: window_day)
  have "received_on d = (\<lambda>x. al_received_at x div us_per_day = d)" "judged_on d = (\<lambda>x. fb_received_at x div us_per_day = d)"
    by (simp_all add: fun_eq_iff received_on_def judged_on_def)
  then show ?thesis
    by (simp add: daily_def reporting_window_def feedback_counts_def count_alerts_def count_incidents_def top_rules_def
        tuning_suggestions_def false_positive_sources_def rules_within_def feedback_within_def day digest_of_def
        max_tuning_suggestions_def Let_def del: filter_filter)
qed

lemma daily_eq:
  "daily report_date now s =
     (let d = selected_date report_date now in
      if d = date_max \<or> (report_date = None \<and> d < date_min) then Inl (OtherError ''OverflowError'')
      else Inr (digest_of d s))"
proof (cases report_date)
  case None
  have "daily None now s = (if selected_date None now < date_min then Inl (OtherError ''OverflowError'')
      else daily (Some (selected_date None now)) now s)"
    by (simp add: daily_def selected_date_def previous_utc_date_def previous_day Let_def)
  then show ?thesis using None by (simp add: daily_on Let_def)
next
  case (Some d)
  then show ?thesis by (simp add: daily_on selected_date_def)
qed

lemma digest_shown:
  "get_daily_stats db_ok report_date now s = Some (shown, r) \<Longrightarrow> r = digest_of (selected_date report_date now) s"
  by (auto simp: get_daily_stats_def daily_eq Let_def split: if_splits)

text \<open>
  C19. The digest is the day it names: alerts, incidents and verdicts are counted exactly if their
  timestamp falls on that UTC day (by default the day before now), the top rules are the up to ten most
  frequent ones with their exact counts, ties by id, and the tuning suggestions are the rule and agent
  pairs with at least three false-positive verdicts, at most a hundred, the most frequent first; whatever
  is cut off ranks after everything that is shown.
\<close>

theorem digest_is_the_day:
  assumes run: "get_daily_stats db_ok report_date now s = Some (shown, r)"
  shows "ds_date r = selected_date report_date now
    \<and> ds_alerts r = length (filter (received_on (ds_date r)) (rows (st_alerts s)))
    \<and> ds_incidents r = length (filter (\<lambda>i. inc_created_at i div us_per_day = ds_date r) (rows (st_incidents s)))
    \<and> ds_feedback r = length (filter (judged_on (ds_date r)) (st_feedback s))
    \<and> ds_false_positives r \<le> ds_feedback r \<and> 0 \<le> ds_rate r \<and> ds_rate r \<le> 10000
    \<and> top_of 10 (\<lambda>_. True) (map al_rule_id (filter (received_on (ds_date r)) (rows (st_alerts s)))) (ds_top_rules r)
    \<and> top_of 100 (\<lambda>(k, n). 3 \<le> n)
        (List.map_filter (\<lambda>f. map_option (\<lambda>a. (al_rule_id a, al_agent_id a)) (get_alert_row (fb_alert_id f) s))
          (filter false_positive_row (filter (judged_on (ds_date r)) (st_feedback s)))) (ds_suggestions r)"
  unfolding digest_shown [OF run]
  by (simp add: digest_of_def Let_def ranking_top ranking_top_all rate_bounds del: filter_filter)

text \<open>
  Digests of consecutive days add up: the alerts counted by the digests of the days from \<open>a\<close> up to
  \<open>b\<close> are the alerts received from the start of \<open>a\<close> to the start of \<open>b\<close>, none of them twice.
\<close>

theorem digests_add_up:
  assumes "a \<le> b"
  shows "(\<Sum>d \<in> {a..<b}. count_alerts (d * us_per_day) ((d + 1) * us_per_day) s)
      = count_alerts (a * us_per_day) (b * us_per_day) s"
  using windows_add_up [OF assms] by (simp add: count_alerts_def)

lemma digest_fails:
  "get_daily_stats db_ok report_date now s = None \<longleftrightarrow>
     \<not> db_ok \<or> selected_date report_date now = date_max \<or> (report_date = None \<and> selected_date report_date now < date_min)"
  by (simp add: get_daily_stats_def daily_eq Let_def)

text \<open>
  A digest fails for three reasons only: the database, a default date before the first year, and the
  last date there is: the 31st of December 9999, a valid date for the endpoint, overflows in the window
  and is answered with an internal error.
\<close>

theorem digest_fails_iff:
  "get_daily_stats db_ok report_date now s = None \<longleftrightarrow>
     \<not> db_ok \<or> selected_date report_date now = date_max \<or> (report_date = None \<and> selected_date report_date now < date_min)"
  by (rule digest_fails)

lemma last_date: "civil_date (date_max * us_per_day) = (9999, 12, 31)"
  by code_simp

end
