(* ===== verification/Analyst_Feedback.thy ===== *)
theory Analyst_Feedback
  imports Assessment
begin

text \<open>
  The analyst's verdict on an alert (api/feedback.py): the verdict, its audit entry and the move of the
  linked incident in one unit of work, and the status the escalation workflow polls.
\<close>

subsection \<open>The request\<close>

datatype verdict = True_positive | False_positive | Benign | Escalate | Acknowledge | Resolve | Contain_requested

fun verdict_value :: "verdict \<Rightarrow> string" where
  "verdict_value True_positive = ''true_positive''"
| "verdict_value False_positive = ''false_positive''"
| "verdict_value Benign = ''benign''"
| "verdict_value Escalate = ''escalate''"
| "verdict_value Acknowledge = ''acknowledged''"
| "verdict_value Resolve = ''resolved''"
| "verdict_value Contain_requested = ''contain_requested''"

record feedback_request =
  fq_verdict :: verdict
  fq_notes :: "string option"
  fq_actor :: "string option"

definition acknowledged_verdicts :: "string list" where
  "acknowledged_verdicts = map verdict_value
     [Acknowledge, Resolve, True_positive, False_positive, Benign, Escalate, Contain_requested]"

text \<open>\<open>(actor or ''analyst'').strip() or ''analyst''\<close>, and the notes, at most 2000 characters.\<close>

definition analyst_of :: "string option \<Rightarrow> string" where
  "analyst_of actor =
     (let name = strip (case actor of None \<Rightarrow> ''analyst'' | Some a \<Rightarrow> if a = [] then ''analyst'' else a) in
      if name = [] then ''analyst'' else name)"

definition notes_of :: "string option \<Rightarrow> string option" where
  "notes_of notes =
     (case notes of
        None \<Rightarrow> None
      | Some n \<Rightarrow>
          if n = [] then None
          else (let n = strip n in Some (if n \<noteq> [] \<and> 2000 < utf8_length n then utf8_take 2000 n else n)))"

subsection \<open>The feedback repository\<close>

definition feedback_add :: "uuid \<Rightarrow> string \<Rightarrow> string \<Rightarrow> string option \<Rightarrow> instant \<Rightarrow> unit db" where
  "feedback_add alert_id actor verdict notes received_at =
     db_bind (db_require (\<lambda>s. map_of (st_alerts s) alert_id \<noteq> None)) (\<lambda>_.
     db_write (\<lambda>s. s\<lparr>st_feedback := st_feedback s @
       [\<lparr>fb_id = next_rowid (map fb_id (st_feedback s)), fb_alert_id = alert_id, fb_received_at = received_at,
         fb_actor = actor, fb_verdict = verdict, fb_notes = notes\<rparr>]\<rparr>))"

definition feedback_for_alert :: "uuid \<Rightarrow> store \<Rightarrow> feedback_row list" where
  "feedback_for_alert alert_id s = sort_key fb_received_at (filter (\<lambda>f. fb_alert_id f = alert_id) (st_feedback s))"

definition feedback_all :: "nat option \<Rightarrow> store \<Rightarrow> feedback_row list" where
  "feedback_all limit s =
     (let found = sort_key fb_received_at (st_feedback s) in case limit of None \<Rightarrow> found | Some n \<Rightarrow> take n found)"

subsection \<open>The incident follows the verdict\<close>

definition feedback_targets :: "verdict \<Rightarrow> incident_status option" where
  "feedback_targets = map_of
     [(True_positive, ACKNOWLEDGED), (Acknowledge, ACKNOWLEDGED), (Resolve, RESOLVED),
      (False_positive, FALSE_POSITIVE), (Escalate, ESCALATED), (Benign, FALSE_POSITIVE)]"

definition plan_incident_sync :: "incident \<Rightarrow> verdict \<Rightarrow> incident_status option" where
  "plan_incident_sync i v =
     (if v = Contain_requested then None
      else (case feedback_targets v of
          None \<Rightarrow> None
        | Some target \<Rightarrow> if can_transition (inc_status i) target then Some target else None))"

definition sync_incident_with_feedback :: "incident \<Rightarrow> uuid \<Rightarrow> verdict \<Rightarrow> string \<Rightarrow> instant
    \<Rightarrow> (string \<times> string) option db" where
  "sync_incident_with_feedback i alert_id v actor occurred_at =
     (if v = Contain_requested then
        db_bind (audit_append (audit_entries_for_incident_containment_request (inc_id i) alert_id actor) occurred_at)
          (\<lambda>_. db_return None)
      else
        (case plan_incident_sync i v of
           None \<Rightarrow> db_return None
         | Some target \<Rightarrow>
             db_bind (update_status (inc_id i) target occurred_at) (\<lambda>updated.
             db_bind (audit_append (audit_entries_for_incident_status updated (inc_status i) actor None) occurred_at) (\<lambda>_.
               db_return (Some (incident_status_value (inc_status i), incident_status_value (inc_status updated)))))))"

subsection \<open>The handlers\<close>

datatype 'a api_reply = Reply 'a | Not_found | Internal_error

definition feedback_body :: "uuid \<Rightarrow> feedback_request \<Rightarrow> instant \<Rightarrow> (string \<times> string) option option db" where
  "feedback_body alert_id req now =
     db_bind (db_read (get_alert_row alert_id)) (\<lambda>row.
       if row = None then db_return None
       else
         (let actor = analyst_of (fq_actor req); v = verdict_value (fq_verdict req) in
          db_bind (feedback_add alert_id actor v (notes_of (fq_notes req)) now) (\<lambda>_.
          db_bind (audit_append (audit_entries_for_feedback alert_id v actor) now) (\<lambda>_.
          db_bind (db_read (incident_for_alert alert_id)) (\<lambda>linked.
            case linked of
              None \<Rightarrow> db_return (Some None)
            | Some i \<Rightarrow>
                db_bind (sync_incident_with_feedback i alert_id (fq_verdict req) actor now) (\<lambda>t. db_return (Some t)))))))"

text \<open>The reply carries the incident transition that was applied, if any.\<close>

definition submit_feedback :: "bool \<Rightarrow> uuid \<Rightarrow> feedback_request \<Rightarrow> instant \<Rightarrow> store
    \<Rightarrow> (string \<times> string) option api_reply \<times> store" where
  "submit_feedback db_ok alert_id req now s =
     (case session_scope db_ok (feedback_body alert_id req now) s of
        (Inl _, s) \<Rightarrow> (Internal_error, s)
      | (Inr None, s) \<Rightarrow> (Not_found, s)
      | (Inr (Some t), s) \<Rightarrow> (Reply t, s))"

record feedback_status =
  fs_acknowledged :: bool
  fs_has_feedback :: bool
  fs_count :: nat
  fs_latest :: "string option"
  fs_acknowledged_at :: "instant option"

definition feedback_status_of :: "feedback_row list \<Rightarrow> feedback_status" where
  "feedback_status_of fs =
     (if fs = [] then \<lparr>fs_acknowledged = False, fs_has_feedback = False, fs_count = 0, fs_latest = None, fs_acknowledged_at = None\<rparr>
      else
        (let latest = last fs; counts = fb_verdict latest \<in> set acknowledged_verdicts in
         \<lparr>fs_acknowledged = counts, fs_has_feedback = True, fs_count = length fs, fs_latest = Some (fb_verdict latest),
           fs_acknowledged_at = (if counts then Some (fb_received_at latest) else None)\<rparr>))"

definition get_feedback_status :: "bool \<Rightarrow> uuid \<Rightarrow> store \<Rightarrow> feedback_status api_reply" where
  "get_feedback_status db_ok alert_id s =
     (case fst (session_scope db_ok (db_read (\<lambda>s. (get_alert_row alert_id s, feedback_for_alert alert_id s))) s) of
        Inl _ \<Rightarrow> Internal_error
      | Inr (None, _) \<Rightarrow> Not_found
      | Inr (Some _, fs) \<Rightarrow> Reply (feedback_status_of fs))"

subsection \<open>What a submission does\<close>

definition feedback_stored :: "uuid \<Rightarrow> feedback_request \<Rightarrow> instant \<Rightarrow> store \<Rightarrow> store" where
  "feedback_stored a req now s =
     fold (audit_append_one now) (audit_entries_for_feedback a (verdict_value (fq_verdict req)) (analyst_of (fq_actor req)))
       (s\<lparr>st_feedback := st_feedback s @
         [\<lparr>fb_id = next_rowid (map fb_id (st_feedback s)), fb_alert_id = a, fb_received_at = now,
           fb_actor = analyst_of (fq_actor req), fb_verdict = verdict_value (fq_verdict req), fb_notes = notes_of (fq_notes req)\<rparr>]\<rparr>)"

lemma feedback_stored_simps [simp]:
  "st_alerts (feedback_stored a req now s) = st_alerts s" "st_incidents (feedback_stored a req now s) = st_incidents s"
  "st_groups (feedback_stored a req now s) = st_groups s" "st_events (feedback_stored a req now s) = st_events s"
  "st_contexts (feedback_stored a req now s) = st_contexts s" "st_members (feedback_stored a req now s) = st_members s"
  "st_notifications (feedback_stored a req now s) = st_notifications s"
  "get_incident k (feedback_stored a req now s) = get_incident k s"
  by (simp_all add: feedback_stored_def get_incident_def)

lemma feedback_audit:
  "audit_of (feedback_stored a req now s) = audit_of s @ map (Pair now)
     (audit_entries_for_feedback a (verdict_value (fq_verdict req)) (analyst_of (fq_actor req)))"
  "map fb_verdict (st_feedback (feedback_stored a req now s)) = map fb_verdict (st_feedback s) @ [verdict_value (fq_verdict req)]"
  "audit_of (put_incident i s) = audit_of s" "st_feedback (put_incident i s) = st_feedback s"
  by (simp_all add: feedback_stored_def) (simp_all add: audit_of_def)

lemma incident_for_alert_row:
  "incident_for_alert a s = Some i \<Longrightarrow> incidents_ok s \<Longrightarrow> get_incident (inc_id i) s = Some i"
  by (auto simp: incident_for_alert_def get_incident_def incidents_ok_def split: option.splits dest!: map_of_SomeD)

lemma incident_for_alert_frame:
  "st_alerts s' = st_alerts s \<Longrightarrow> st_incidents s' = st_incidents s \<Longrightarrow> incident_for_alert a s' = incident_for_alert a s"
  by (simp add: incident_for_alert_def split: option.split)

lemma feedback_body_cases:
  assumes ok: "incidents_ok s" and run: "feedback_body a req now s = Inr (Some t, s')"
  obtains (unlinked) "get_alert_row a s \<noteq> None" "incident_for_alert a s = None" "t = None" "s' = feedback_stored a req now s"
  | (contained) i where "get_alert_row a s \<noteq> None" "incident_for_alert a s = Some i" "fq_verdict req = Contain_requested" "t = None"
      "s' = fold (audit_append_one now) (audit_entries_for_incident_containment_request (inc_id i) a (analyst_of (fq_actor req)))
         (feedback_stored a req now s)"
  | (skipped) i where "get_alert_row a s \<noteq> None" "incident_for_alert a s = Some i" "fq_verdict req \<noteq> Contain_requested"
      "plan_incident_sync i (fq_verdict req) = None" "t = None" "s' = feedback_stored a req now s"
  | (moved) i target where "get_alert_row a s \<noteq> None" "incident_for_alert a s = Some i" "fq_verdict req \<noteq> Contain_requested"
      "plan_incident_sync i (fq_verdict req) = Some target" "can_transition (inc_status i) target"
      "t = Some (incident_status_value (inc_status i), incident_status_value target)"
      "s' = fold (audit_append_one now) (audit_entries_for_incident_status (moved i target now) (inc_status i) (analyst_of (fq_actor req)) None)
         (put_incident (moved i target now) (feedback_stored a req now s))"
proof -
  let ?s = "feedback_stored a req now s"
  have row: "get_alert_row a s \<noteq> None" using run by (auto simp: feedback_body_def split: if_splits)
  have linked: "incident_for_alert a ?s = incident_for_alert a s" by (rule incident_for_alert_frame) simp_all
  have body: "(case incident_for_alert a s of None \<Rightarrow> db_return (Some None)
      | Some i \<Rightarrow> db_bind (sync_incident_with_feedback i a (fq_verdict req) (analyst_of (fq_actor req)) now) (\<lambda>t. db_return (Some t)))
      ?s = Inr (Some t, s')"
    using run row linked
    by (auto simp: feedback_body_def Let_def feedback_add_def audit_append_def feedback_stored_def db_bind_def db_run
        get_alert_row_def split: option.splits)
  show thesis
  proof (cases "incident_for_alert a s")
    case None
    then show thesis using body row by (intro unlinked) simp_all
  next
    case (Some i)
    have sync: "sync_incident_with_feedback i a (fq_verdict req) (analyst_of (fq_actor req)) now ?s = Inr (t, s')"
      using body Some by simp
    show thesis
    proof (cases "fq_verdict req = Contain_requested")
      case True
      then show thesis using sync Some row by (intro contained) (auto simp: sync_incident_with_feedback_def audit_append_def)
    next
      case False
      show thesis
      proof (cases "plan_incident_sync i (fq_verdict req)")
        case None
        then show thesis using sync Some row False by (intro skipped) (auto simp: sync_incident_with_feedback_def)
      next
        case (Some target)
        have legal: "can_transition (inc_status i) target"
          using Some False by (auto simp: plan_incident_sync_def split: option.splits if_splits)
        have here: "get_incident (inc_id i) ?s = Some i"
          using incident_for_alert_row [OF \<open>incident_for_alert a s = Some i\<close> ok] by simp
        show thesis
          using sync Some row False legal here \<open>incident_for_alert a s = Some i\<close>
          by (intro moved) (auto simp: sync_incident_with_feedback_def audit_append_def update_status_eq)
      qed
    qed
  qed
qed

subsection \<open>Properties\<close>

text \<open>
  A verdict is recorded whole or not at all: an unknown alert, or any failure, leaves the store as it
  was; an accepted verdict appends one feedback row, changes no alert, and appends the feedback's audit
  entry followed by the incident's own entries, which exist exactly when the reply names a transition or
  containment was asked for a linked incident.
\<close>

theorem feedback_all_or_nothing:
  assumes ok: "incidents_ok s" and run: "submit_feedback db_ok a req now s = (reply, s')"
  shows "case reply of
      Internal_error \<Rightarrow> s' = s
    | Not_found \<Rightarrow> s' = s \<and> get_alert_row a s = None
    | Reply t \<Rightarrow> get_alert_row a s \<noteq> None \<and> st_alerts s' = st_alerts s
        \<and> map fb_verdict (st_feedback s') = map fb_verdict (st_feedback s) @ [verdict_value (fq_verdict req)]
        \<and> (\<exists>more. audit_of s' = audit_of s @ map (Pair now)
              (audit_entries_for_feedback a (verdict_value (fq_verdict req)) (analyst_of (fq_actor req)) @ more)
            \<and> (more \<noteq> [] \<longleftrightarrow> t \<noteq> None \<or> (fq_verdict req = Contain_requested \<and> incident_for_alert a s \<noteq> None)))"
proof -
  obtain r s1 where r: "session_scope db_ok (feedback_body a req now) s = (r, s1)" by (metis prod.collapse)
  have s1: "s1 = s'" using run r by (auto simp: submit_feedback_def split: sum.splits option.splits)
  show ?thesis
  proof (cases r)
    case (Inl e)
    then have "s1 = s" using r session.rollback by blast
    then show ?thesis using run r Inl by (auto simp: submit_feedback_def)
  next
    case (Inr x)
    then have body: "feedback_body a req now s = Inr (x, s')" using r s1 by (simp add: session_scope_eq_Inr)
    show ?thesis
    proof (cases x)
      case None
      have "get_alert_row a s = None"
      proof (rule ccontr)
        assume "get_alert_row a s \<noteq> None"
        then show False using body None by (auto simp: feedback_body_def Let_def split: option.splits)
      qed
      then have "s' = s" using body None by (auto simp: feedback_body_def)
      then show ?thesis using run r Inr None \<open>get_alert_row a s = None\<close> by (auto simp: submit_feedback_def)
    next
      case (Some t)
      then have reply: "reply = Reply t" using run r Inr by (auto simp: submit_feedback_def)
      from ok body [unfolded Some] show ?thesis
      proof (cases rule: feedback_body_cases)
        case unlinked
        then show ?thesis by (simp add: reply feedback_audit)
      next
        case (contained i)
        moreover have "audit_entries_for_incident_containment_request (inc_id i) a (analyst_of (fq_actor req)) \<noteq> []"
          by (simp add: audit_entries_for_incident_containment_request_def)
        ultimately show ?thesis by (auto simp: reply feedback_audit)
      next
        case (skipped i)
        then show ?thesis by (simp add: reply feedback_audit)
      next
        case (moved i target)
        moreover have "audit_entries_for_incident_status j st actor n \<noteq> []" for j st actor n
          by (simp add: audit_entries_for_incident_status_def Let_def)
        ultimately show ?thesis by (auto simp: reply feedback_audit)
      qed
    qed
  qed
qed

text \<open>
  C9. A verdict moves the linked incident along the lifecycle or not at all. The status asked for is
  acknowledged for a true positive and an acknowledgement, resolved for resolved, false\_positive for a
  false positive and a benign alert, escalated for an escalation; after an accepted verdict the incident
  has it, with the timestamps of that move, exactly if the transition table lists it for the incident's
  status, and is the very same record otherwise, containment requests included. The answer names the two
  statuses exactly if the incident moved. Every other incident is untouched and the invariants of the
  incident table hold.
\<close>

theorem feedback_follows_lifecycle:
  assumes ok: "incidents_ok s" and one: "one_open_per_group s"
    and run: "submit_feedback db_ok a req now s = (Reply t, s')"
    and asked: "(fq_verdict req, asked) \<in> {(True_positive, Some ACKNOWLEDGED), (Acknowledge, Some ACKNOWLEDGED),
      (Resolve, Some RESOLVED), (False_positive, Some FALSE_POSITIVE), (Benign, Some FALSE_POSITIVE),
      (Escalate, Some ESCALATED), (Contain_requested, None)}"
  shows "incidents_ok s' \<and> one_open_per_group s'
    \<and> (\<forall>i. incident_for_alert a s = Some i \<longrightarrow>
          (if \<exists>target \<in> set (valid_transitions (inc_status i)). asked = Some target
           then get_incident (inc_id i) s' = Some (moved i (the asked) now)
             \<and> t = Some (incident_status_value (inc_status i), incident_status_value (the asked))
           else get_incident (inc_id i) s' = Some i \<and> t = None))
    \<and> (incident_for_alert a s = None \<longrightarrow> t = None)
    \<and> (\<forall>k. (\<forall>i. incident_for_alert a s = Some i \<longrightarrow> inc_id i \<noteq> k) \<longrightarrow> get_incident k s' = get_incident k s)"
proof -
  have body: "feedback_body a req now s = Inr (Some t, s')"
    using run by (auto simp: submit_feedback_def session_scope_eq_Inr split: prod.splits sum.splits option.splits)
  have plan: "plan_incident_sync i (fq_verdict req)
      = (if \<exists>target \<in> set (valid_transitions (inc_status i)). asked = Some target then asked else None)" for i
    using asked by (auto simp: plan_incident_sync_def feedback_targets_def can_transition_def)
  have here: "incident_for_alert a s = Some i \<Longrightarrow> get_incident (inc_id i) s = Some i" for i
    using incident_for_alert_row ok by blast
  from ok body show ?thesis
  proof (cases rule: feedback_body_cases)
    case unlinked
    then show ?thesis using ok one incidents_frame [of s' s] by simp
  next
    case (contained i)
    then have "st_incidents s' = st_incidents s" "asked = None" using asked by auto
    then show ?thesis using contained(2,4) ok one incidents_frame [of s' s] here by simp
  next
    case (skipped i)
    have "\<not> (\<exists>target \<in> set (valid_transitions (inc_status i)). asked = Some target)"
      using skipped(4) unfolding plan by (auto split: if_splits)
    then show ?thesis using skipped ok one incidents_frame [of s' s] here by simp
  next
    case (moved i target)
    let ?i = "Incident_Repository.moved i target now"
    have legal: "\<exists>target \<in> set (valid_transitions (inc_status i)). asked = Some target" "asked = Some target"
      using moved(4) unfolding plan by (auto split: if_splits)
    have inc: "st_incidents s' = st_incidents (put_incident ?i s)" using moved(7) by simp
    have row: "incident_ok i" using incident_row [OF ok here [OF moved(2)]] by simp
    have "incidents_ok (put_incident ?i s)" using put_incident_ok [OF ok moved_ok [OF row moved(5)]] .
    moreover have "one_open_per_group (put_incident ?i s)"
      using put_incident_one_open [OF ok one] moved(5) by (cases "inc_status i") (auto simp: can_transition_def)
    moreover have "get_incident k s' = (if k = inc_id i then Some ?i else get_incident k s)" for k
      using incidents_frame [OF inc] get_put_incident [of k ?i s] by simp
    ultimately show ?thesis using incidents_frame [OF inc] moved(2,6) legal by simp
  qed
qed

lemma last_sorted_snoc:
  fixes f :: "'a \<Rightarrow> 'k::linorder"
  assumes "\<forall>x \<in> set xs. f x \<le> f y"
  shows "sort_key f (xs @ [y]) = sort_key f xs @ [y]"
proof -
  have "insort_key f x (ys @ [y]) = insort_key f x ys @ [y]" if "f x \<le> f y" for x ys
    using that by (induction ys) auto
  with assms show ?thesis by (induction xs) auto
qed

text \<open>
  A recorded verdict acknowledges the alert: once a verdict was accepted, no earlier than the
  verdicts already there, the status endpoint reports the alert as acknowledged, with this verdict, at
  this time, and counts one more.
\<close>

theorem feedback_acknowledges:
  assumes ok: "incidents_ok s" and run: "submit_feedback db_ok a req now s = (Reply t, s')"
    and clock: "\<forall>f \<in> set (st_feedback s). fb_received_at f \<le> now"
  shows "get_feedback_status True a s' = Reply \<lparr>fs_acknowledged = True, fs_has_feedback = True,
      fs_count = length (feedback_for_alert a s) + 1, fs_latest = Some (verdict_value (fq_verdict req)),
      fs_acknowledged_at = Some now\<rparr>"
proof -
  have body: "feedback_body a req now s = Inr (Some t, s')"
    using run by (auto simp: submit_feedback_def session_scope_eq_Inr split: prod.splits sum.splits option.splits)
  have fb: "st_feedback s' = st_feedback (feedback_stored a req now s)" and alert: "get_alert_row a s' \<noteq> None"
    using ok body by (cases rule: feedback_body_cases; simp add: feedback_audit get_alert_row_def)+
  define new where "new = \<lparr>fb_id = next_rowid (map fb_id (st_feedback s)), fb_alert_id = a, fb_received_at = now,
     fb_actor = analyst_of (fq_actor req), fb_verdict = verdict_value (fq_verdict req), fb_notes = notes_of (fq_notes req)\<rparr>"
  have "feedback_for_alert a s' = sort_key fb_received_at (filter (\<lambda>f. fb_alert_id f = a) (st_feedback s) @ [new])"
    by (simp add: feedback_for_alert_def fb feedback_stored_def new_def)
  also have "\<dots> = feedback_for_alert a s @ [new]"
    unfolding feedback_for_alert_def by (rule last_sorted_snoc) (use clock in \<open>simp add: new_def\<close>)
  finally have found: "feedback_for_alert a s' = feedback_for_alert a s @ [new]" .
  have "verdict_value v \<in> set acknowledged_verdicts" for v by (cases v) (simp_all add: acknowledged_verdicts_def)
  then show ?thesis
    using alert by (auto simp: get_feedback_status_def session_scope_def db_run found feedback_status_of_def new_def)
qed

end
