(* ===== verification/Redaction.thy ===== *)
theory Redaction
  imports Prelude
begin

text \<open>
  The redaction every read API applies (core/redaction.py): keys that name a secret are dropped at every
  depth, everything else is kept as it is.
\<close>

definition sensitive_fragments :: "string list" where
  "sensitive_fragments = [''password'', ''passwd'', ''secret'', ''token'', ''api_key'', ''apikey'', ''authorization'',
     ''credential'', ''private_key'', ''full_log'']"

definition sensitive :: "string \<Rightarrow> bool" where
  "sensitive key = list_ex (\<lambda>fragment. occurs fragment (lower key)) sensitive_fragments"

fun redact :: "json \<Rightarrow> json" where
  "redact (JObj kvs) = JObj (map (\<lambda>(k, v). (k, redact v)) (filter (\<lambda>(k, v). \<not> sensitive k) kvs))"
| "redact (JList vs) = JList (map redact vs)"
| "redact v = v"

definition redact_dict :: "(string, json) dict \<Rightarrow> (string, json) dict" where
  "redact_dict d = map (\<lambda>(k, v). (k, redact v)) (filter (\<lambda>(k, v). \<not> sensitive k) d)"

text \<open>The keys at every depth.\<close>

fun all_keys :: "json \<Rightarrow> string list" where
  "all_keys (JObj kvs) = concat (map (\<lambda>(k, v). k # all_keys v) kvs)"
| "all_keys (JList vs) = concat (map all_keys vs)"
| "all_keys v = []"

lemma redact_no_secret: "k \<in> set (all_keys (redact v)) \<Longrightarrow> \<not> sensitive k"
  by (induction v rule: redact.induct) auto

lemma redact_clean: "(\<And>k. k \<in> set (all_keys v) \<Longrightarrow> \<not> sensitive k) \<Longrightarrow> redact v = v"
proof (induction v rule: redact.induct)
  case (1 kvs)
  have "\<not> sensitive k \<and> redact v = v" if "(k, v) \<in> set kvs" for k v
  proof -
    have "\<not> sensitive j" if "j = k \<or> j \<in> set (all_keys v)" for j
      using 1(2) [of j] that \<open>(k, v) \<in> set kvs\<close> by force
    then show ?thesis using 1(1) [of "(k, v)" k v] that by simp
  qed
  then have "filter (\<lambda>(k, v). \<not> sensitive k) kvs = kvs" "map (\<lambda>(k, v). (k, redact v)) kvs = kvs"
    by (auto simp: filter_id_conv intro: map_idI)
  then show ?case by simp
next
  case (2 vs)
  have "redact v = v" if "v \<in> set vs" for v using 2 that by fastforce
  then show ?case by (simp add: map_idI)
qed simp_all

lemma redact_dict_eq: "redact (JObj d) = JObj (redact_dict d)"
  by (simp add: redact_dict_def)

lemma redact_dict_no_secret: "(k, v) \<in> set (redact_dict d) \<Longrightarrow> \<not> sensitive k \<and> (\<forall>j \<in> set (all_keys v). \<not> sensitive j)"
  using redact_no_secret by (auto simp: redact_dict_def)

lemma redaction_idem: "redact (redact v) = redact v"
  using redact_no_secret redact_clean by metis

text \<open>
  Redaction is complete, stable and conservative: no key that names a secret survives at any depth,
  redacting twice is redacting once, and a value without such keys is returned unchanged.
\<close>

theorem redaction_complete:
  "(\<forall>k. k \<in> set (all_keys (redact v)) \<longrightarrow> \<not> sensitive k) \<and> redact (redact v) = redact v
   \<and> ((\<forall>k. k \<in> set (all_keys v) \<longrightarrow> \<not> sensitive k) \<longrightarrow> redact v = v)"
  using redact_no_secret redact_clean by metis

theorem redaction_complete_witness:
  "redact (JObj [(''user'', JStr ''a''), (''API_KEY'', JStr ''k''), (''in'', JList [JObj [(''Auth_Token'', JInt 1)]])])
     = JObj [(''user'', JStr ''a''), (''in'', JList [JObj []])]
   \<and> redact (redact (JObj [(''API_KEY'', JStr ''k'')])) = redact (JObj [(''API_KEY'', JStr ''k'')])"
proof
  show "redact (JObj [(''user'', JStr ''a''), (''API_KEY'', JStr ''k''), (''in'', JList [JObj [(''Auth_Token'', JInt 1)]])])
     = JObj [(''user'', JStr ''a''), (''in'', JList [JObj []])]" by code_simp
  show "redact (redact (JObj [(''API_KEY'', JStr ''k'')])) = redact (JObj [(''API_KEY'', JStr ''k'')])"
    using redaction_complete [of "JObj [(''API_KEY'', JStr ''k'')]"] by blast
qed

end
