(* ===== verification/Incident_Desk.thy ===== *)
theory Incident_Desk
  imports Analyst_Feedback Redaction
begin

text \<open>
  What analysts do with an incident: the status update and the timeline (api/incidents.py, timeline.py),
  notes (api/incident\_notes.py) and assignment (api/incident\_assignment.py). Notes and the assignee live
  in the audit log: the current assignee is what the last assignment entry says.
\<close>

subsection \<open>Status updates\<close>

record status_request =
  sq_status :: incident_status
  sq_notes :: "string option"
  sq_actor :: "string option"

datatype status_reply =
    Status_updated incident incident_status
  | Unknown_incident
  | Illegal_transition incident_status incident_status "string list"
  | Status_failed

definition conflict_of :: "incident \<Rightarrow> incident_status \<Rightarrow> status_reply" where
  "conflict_of current target = Illegal_transition (inc_status current) target
     (sort (map incident_status_value (valid_transitions (inc_status current))))"

text \<open>The handler catches the transition error inside the unit of work and answers with the conflict.\<close>

definition status_body :: "string \<Rightarrow> status_request \<Rightarrow> instant \<Rightarrow> status_reply db" where
  "status_body k req now =
     db_bind (db_read (get_incident k)) (\<lambda>current.
       case current of
         None \<Rightarrow> db_return Unknown_incident
       | Some i \<Rightarrow> (\<lambda>s.
           case update_status k (sq_status req) now s of
             Inl e \<Rightarrow> if e = invalid_transition (inc_status i) (sq_status req)
               then db_return (conflict_of i (sq_status req)) s else Inl e
           | Inr (updated, s) \<Rightarrow>
               db_bind (audit_append (audit_entries_for_incident_status updated (inc_status i)
                   (analyst_of (sq_actor req)) (notes_of (sq_notes req))) now) (\<lambda>_.
                 db_return (Status_updated updated (inc_status i))) s))"

definition update_incident_status :: "bool \<Rightarrow> string \<Rightarrow> status_request \<Rightarrow> instant \<Rightarrow> store \<Rightarrow> status_reply \<times> store" where
  "update_incident_status db_ok k req now s =
     (case session_scope db_ok (status_body k req now) s of
        (Inl _, s) \<Rightarrow> (Status_failed, s)
      | (Inr r, s) \<Rightarrow> (r, s))"

subsection \<open>The timeline\<close>

record timeline_event =
  te_timestamp :: instant
  te_action :: string
  te_entity_type :: string
  te_entity_id :: string
  te_actor :: string
  te_before :: "(string, json) dict option"
  te_after :: "(string, json) dict option"
  te_metadata :: "(string, json) dict"

definition copied :: "string \<Rightarrow> string \<Rightarrow> (string, json) dict \<Rightarrow> (string, json) dict" where
  "copied name k d = (case map_of d k of None \<Rightarrow> [] | Some v \<Rightarrow> [(name, v)])"

definition status_metadata :: "audit_entry \<Rightarrow> (string, json) dict" where
  "status_metadata e =
     (let before = (case ae_before e of None \<Rightarrow> [] | Some d \<Rightarrow> d); after = (case ae_after e of None \<Rightarrow> [] | Some d \<Rightarrow> d) in
      copied ''before_status'' ''status'' before @ copied ''after_status'' ''status'' after
      @ copied ''verdict'' ''verdict'' after @ copied ''severity'' ''severity'' after)"

definition timeline_key :: "audit_row \<Rightarrow> instant \<times> nat \<times> string \<times> string \<times> string" where
  "timeline_key r = (au_occurred_at r, au_id r, ae_action (au_entry r), ae_entity_type (au_entry r), ae_entity_id (au_entry r))"

definition timeline_event_of :: "audit_row \<Rightarrow> timeline_event" where
  "timeline_event_of r =
     \<lparr>te_timestamp = au_occurred_at r, te_action = ae_action (au_entry r), te_entity_type = ae_entity_type (au_entry r),
      te_entity_id = ae_entity_id (au_entry r), te_actor = ae_actor (au_entry r), te_before = ae_before (au_entry r),
      te_after = ae_after (au_entry r), te_metadata = status_metadata (au_entry r)\<rparr>"

definition build_timeline :: "audit_row list \<Rightarrow> timeline_event list" where
  "build_timeline records = map timeline_event_of (sort_key timeline_key records)"

definition sanitized_event :: "timeline_event \<Rightarrow> timeline_event" where
  "sanitized_event e = e\<lparr>te_before := map_option redact_dict (te_before e), te_after := map_option redact_dict (te_after e),
     te_metadata := redact_dict (te_metadata e)\<rparr>"

definition incident_entities :: "string \<Rightarrow> store \<Rightarrow> string list" where
  "incident_entities k s = k # map (\<lambda>a. uuid_str (al_id a)) (alerts_for_incident k s)"

definition get_incident_timeline :: "bool \<Rightarrow> string \<Rightarrow> store \<Rightarrow> timeline_event list api_reply" where
  "get_incident_timeline db_ok k s =
     (if \<not> db_ok then Internal_error
      else (case get_incident k s of
          None \<Rightarrow> Not_found
        | Some _ \<Rightarrow> Reply (map sanitized_event (build_timeline (audit_for_entity_ids (incident_entities k s) s)))))"

subsection \<open>Notes\<close>

record incident_note =
  in_actor :: string
  in_note :: json
  in_created_at :: instant

text \<open>\<open>str(after.get(''note'', ''))\<close>: the entries the program writes hold text.\<close>

definition note_from_audit :: "audit_row \<Rightarrow> incident_note" where
  "note_from_audit r =
     \<lparr>in_actor = ae_actor (au_entry r),
      in_note = (case map_of (case ae_after (au_entry r) of None \<Rightarrow> [] | Some d \<Rightarrow> d) ''note'' of None \<Rightarrow> JStr [] | Some v \<Rightarrow> v),
      in_created_at = au_occurred_at r\<rparr>"

datatype note_reply = Note_added string string | Note_empty | Note_unknown_incident | Note_failed

definition note_entry :: "string \<Rightarrow> string \<Rightarrow> string \<Rightarrow> audit_entry" where
  "note_entry actor k note = entry actor ''incident.note_added'' ''incident'' k None (Some [(''note'', JStr note)])"

definition add_incident_note :: "bool \<Rightarrow> string \<Rightarrow> string \<Rightarrow> string option \<Rightarrow> instant \<Rightarrow> store \<Rightarrow> note_reply \<times> store" where
  "add_incident_note db_ok k raw actor now s =
     (let actor = analyst_of actor; note = strip raw in
      if note = [] then (Note_empty, s)
      else
        (case session_scope db_ok (db_bind (db_read (get_incident k)) (\<lambda>i.
             if i = None then db_return False
             else db_bind (audit_append [note_entry actor k note] now) (\<lambda>_. db_return True))) s of
           (Inl _, s) \<Rightarrow> (Note_failed, s)
         | (Inr False, s) \<Rightarrow> (Note_unknown_incident, s)
         | (Inr True, s) \<Rightarrow> (Note_added actor note, s)))"

definition list_incident_notes :: "bool \<Rightarrow> string \<Rightarrow> store \<Rightarrow> incident_note list api_reply" where
  "list_incident_notes db_ok k s =
     (if \<not> db_ok then Internal_error
      else (case get_incident k s of
          None \<Rightarrow> Not_found
        | Some _ \<Rightarrow> Reply (map note_from_audit
            (filter (\<lambda>r. ae_action (au_entry r) = ''incident.note_added'') (audit_for_entity_ids [k] s)))))"

subsection \<open>Assignment\<close>

text \<open>\<open>str(value)\<close> of the stored assignee, which is text or null.\<close>

definition assignment_from_audit :: "audit_row \<Rightarrow> json" where
  "assignment_from_audit r = dict_get (case ae_after (au_entry r) of None \<Rightarrow> [] | Some d \<Rightarrow> d) ''assignee''"

definition current_assignment :: "audit_row list \<Rightarrow> json" where
  "current_assignment records =
     (case find (\<lambda>r. ae_action (au_entry r) = ''incident.assigned'') (rev records) of
        None \<Rightarrow> JNull
      | Some r \<Rightarrow> assignment_from_audit r)"

definition assignee_json :: "string option \<Rightarrow> json" where
  "assignee_json a = (case a of None \<Rightarrow> JNull | Some x \<Rightarrow> JStr x)"

record assignment_reply =
  as_assignee :: json
  as_previous :: json
  as_changed :: bool

text \<open>The existence check is a unit of work of its own; no exception is caught.\<close>

definition get_incident_assignment :: "bool \<Rightarrow> string \<Rightarrow> store \<Rightarrow> py_exn + json option" where
  "get_incident_assignment db_ok k s =
     (if \<not> db_ok then Inl SQLAlchemyError
      else Inr (case get_incident k s of
          None \<Rightarrow> None
        | Some _ \<Rightarrow> Some (current_assignment (audit_for_entity_ids [k] s))))"

definition update_incident_assignment :: "bool \<times> bool \<Rightarrow> string \<Rightarrow> string option \<Rightarrow> string option \<Rightarrow> instant \<Rightarrow> store
    \<Rightarrow> (py_exn + assignment_reply option) \<times> store" where
  "update_incident_assignment fate k assignee actor now s =
     (if \<not> fst fate then (Inl SQLAlchemyError, s)
      else if get_incident k s = None then (Inr None, s)
      else
        session_scope (snd fate) (db_bind (db_read (\<lambda>s. current_assignment (audit_for_entity_ids [k] s))) (\<lambda>current.
          let wanted = assignee_json assignee; changed = (current \<noteq> wanted);
              answer = Some \<lparr>as_assignee = wanted, as_previous = current, as_changed = changed\<rparr> in
          if changed then
            db_bind (audit_append [entry (analyst_of actor) ''incident.assigned'' ''incident'' k
                (Some [(''assignee'', current)]) (Some [(''assignee'', wanted)])] now) (\<lambda>_. db_return answer)
          else db_return answer)) s)"

subsection \<open>Reading back what was appended\<close>

lemma next_rowid_bound: "i \<in> set ids \<Longrightarrow> i < next_rowid ids"
proof (induction ids)
  case (Cons j ids)
  then show ?case by (cases "i = j") (auto simp: next_rowid_def max_def split: if_splits)
qed simp

lemma audit_read_appended:
  assumes "ae_entity_id e = k" "\<forall>r \<in> set (st_audit s). ae_entity_id (au_entry r) = k \<longrightarrow> au_occurred_at r \<le> now"
  shows "audit_for_entity_ids [k] (audit_append_one now e s) = audit_for_entity_ids [k] s
    @ [\<lparr>au_id = next_rowid (map au_id (st_audit s)), au_occurred_at = now, au_entry = e\<rparr>]"
proof -
  let ?r = "\<lparr>au_id = next_rowid (map au_id (st_audit s)), au_occurred_at = now, au_entry = e\<rparr>"
  let ?key = "\<lambda>r. (au_occurred_at r, au_id r)"
  have "?key r \<le> ?key ?r" if "r \<in> set (filter (\<lambda>r. ae_entity_id (au_entry r) = k) (st_audit s))" for r
    using that assms(2) next_rowid_bound [of "au_id r" "map au_id (st_audit s)"] by (auto simp: less_eq_prod_def)
  then have "sort_key ?key (filter (\<lambda>r. ae_entity_id (au_entry r) = k) (st_audit s) @ [?r])
      = sort_key ?key (filter (\<lambda>r. ae_entity_id (au_entry r) = k) (st_audit s)) @ [?r]"
    by (intro last_sorted_snoc) simp
  then show ?thesis using assms(1) by (simp add: audit_for_entity_ids_def audit_append_one_def)
qed

subsection \<open>Properties\<close>

lemma status_body_eq:
  assumes "incidents_ok s" "get_incident k s = Some i"
  shows "status_body k req now s =
    (if can_transition (inc_status i) (sq_status req)
     then Inr (Status_updated (moved i (sq_status req) now) (inc_status i),
       fold (audit_append_one now) (audit_entries_for_incident_status (moved i (sq_status req) now) (inc_status i)
         (analyst_of (sq_actor req)) (notes_of (sq_notes req))) (put_incident (moved i (sq_status req) now) s))
     else Inr (conflict_of i (sq_status req), s))"
proof (cases "can_transition (inc_status i) (sq_status req)")
  case True
  then have "update_status k (sq_status req) now s = Inr (moved i (sq_status req) now, put_incident (moved i (sq_status req) now) s)"
    using assms(2) by (simp add: update_status_eq)
  then show ?thesis using True assms(2) by (simp add: status_body_def db_bind_def db_run audit_append_def)
next
  case False
  then have "update_status k (sq_status req) now s = Inl (invalid_transition (inc_status i) (sq_status req))"
    using assms(2) by (simp add: update_status_Inl)
  then show ?thesis using False assms(2) by (simp add: status_body_def db_bind_def db_run)
qed

text \<open>
  C7. The status endpoint enforces the lifecycle: an unknown incident and an illegal move are answered as
  such, the latter with the current status and the sorted list of what is allowed, and change nothing; a
  legal move is made on this incident alone, with the audit entries of the move and nothing else; only the
  database can make it fail, and then nothing changed.
\<close>

theorem status_endpoint_enforces_lifecycle:
  assumes ok: "incidents_ok s" and run: "update_incident_status db_ok k req now s = (r, s')"
  shows "case r of
      Status_failed \<Rightarrow> s' = s \<and> \<not> db_ok
    | Unknown_incident \<Rightarrow> s' = s \<and> get_incident k s = None
    | Illegal_transition current target allowed \<Rightarrow> s' = s
        \<and> map_option inc_status (get_incident k s) = Some current \<and> target = sq_status req
        \<and> target \<notin> set (valid_transitions current) \<and> sorted allowed
        \<and> set allowed = incident_status_value ` set (valid_transitions current)
    | Status_updated i' previous \<Rightarrow> \<exists>i. get_incident k s = Some i \<and> previous = inc_status i
        \<and> sq_status req \<in> set (valid_transitions previous) \<and> i' = moved i (sq_status req) now
        \<and> get_incident k s' = Some i' \<and> (\<forall>k'. k' \<noteq> k \<longrightarrow> get_incident k' s' = get_incident k' s)
        \<and> st_alerts s' = st_alerts s
        \<and> audit_of s' = audit_of s @ map (Pair now) (audit_entries_for_incident_status i' previous
              (analyst_of (sq_actor req)) (notes_of (sq_notes req)))"
proof (cases "get_incident k s")
  case None
  then have "status_body k req now s = Inr (Unknown_incident, s)" by (simp add: status_body_def db_bind_def db_run)
  then show ?thesis using run None by (auto simp: update_incident_status_def session_scope_def split: if_splits)
next
  case (Some i)
  have id: "inc_id i = k" using incident_row [OF ok Some] by simp
  show ?thesis
  proof (cases "can_transition (inc_status i) (sq_status req)")
    case False
    then show ?thesis
      using run status_body_eq [OF ok Some, of req now] Some
      by (auto simp: update_incident_status_def session_scope_def conflict_of_def can_transition_def split: if_splits)
  next
    case True
    let ?i = "moved i (sq_status req) now"
    let ?es = "audit_entries_for_incident_status ?i (inc_status i) (analyst_of (sq_actor req)) (notes_of (sq_notes req))"
    let ?s = "fold (audit_append_one now) ?es (put_incident ?i s)"
    have "get_incident k' ?s = (if k' = k then Some ?i else get_incident k' s)" for k'
      using get_put_incident [of k' ?i s] id by (simp add: get_incident_def)
    moreover have "audit_of ?s = audit_of s @ map (Pair now) ?es" by (simp add: feedback_audit)
    ultimately show ?thesis
      using run status_body_eq [OF ok Some, of req now] Some True
      by (auto simp: update_incident_status_def session_scope_def can_transition_def split: if_splits)
  qed
qed

text \<open>The event of an audit row, as the API shows it.\<close>

definition shows_row :: "timeline_event \<Rightarrow> audit_row \<Rightarrow> bool" where
  "shows_row e r \<longleftrightarrow> te_timestamp e = au_occurred_at r \<and> te_action e = ae_action (au_entry r)
     \<and> te_entity_type e = ae_entity_type (au_entry r) \<and> te_entity_id e = ae_entity_id (au_entry r)
     \<and> te_actor e = ae_actor (au_entry r) \<and> te_before e = map_option redact_dict (ae_before (au_entry r))
     \<and> te_after e = map_option redact_dict (ae_after (au_entry r))"

text \<open>
  C15. A timeline is complete, chronological and safe: it shows, one event each, exactly the audit rows
  whose entity is the incident itself or an alert linked to it, in the order of their timestamps and,
  at equal timestamps, of their insertion; no key that names a secret occurs at any depth of a snapshot or
  of the metadata.
\<close>

theorem timeline_complete_and_safe:
  assumes "get_incident_timeline db_ok k s = Reply events"
  shows "\<exists>records. list_all2 shows_row events records
      \<and> mset records = mset (filter (\<lambda>r. ae_entity_id (au_entry r) = k
            \<or> (\<exists>a \<in> set (rows (st_alerts s)). al_incident_id a = Some k \<and> ae_entity_id (au_entry r) = uuid_str (al_id a)))
          (st_audit s))
      \<and> sorted (map (\<lambda>r. (au_occurred_at r, au_id r)) records)
    \<and> (\<forall>e \<in> set events. \<forall>d \<in> set_option (te_before e) \<union> set_option (te_after e) \<union> {te_metadata e}.
         \<forall>j \<in> set (all_keys (JObj d)). \<not> sensitive j)"
proof -
  define found where "found = audit_for_entity_ids (incident_entities k s) s"
  define records where "records = sort_key timeline_key found"
  have events: "events = map (\<lambda>r. sanitized_event (timeline_event_of r)) records"
    using assms by (auto simp: get_incident_timeline_def build_timeline_def records_def found_def split: if_splits option.splits)
  have shown: "list_all2 shows_row events records"
    by (simp add: events list.rel_map shows_row_def sanitized_event_def timeline_event_of_def list.rel_refl)
  have entities: "x \<in> set (incident_entities k s) \<longleftrightarrow> x = k
      \<or> (\<exists>a \<in> set (rows (st_alerts s)). al_incident_id a = Some k \<and> x = uuid_str (al_id a))" for x
    by (auto simp: incident_entities_def alerts_for_incident_def)
  have all: "mset records = mset (filter (\<lambda>r. ae_entity_id (au_entry r) = k
            \<or> (\<exists>a \<in> set (rows (st_alerts s)). al_incident_id a = Some k \<and> ae_entity_id (au_entry r) = uuid_str (al_id a)))
          (st_audit s))"
    unfolding entities [symmetric] by (simp add: records_def found_def audit_for_entity_ids_def incident_entities_def)
  have "sorted (map timeline_key records)" by (simp add: records_def)
  moreover have "(au_occurred_at x, au_id x) \<le> (au_occurred_at y, au_id y)" if "timeline_key x \<le> timeline_key y" for x y
    using that by (auto simp: timeline_key_def less_eq_prod_def)
  ultimately have sorted: "sorted (map (\<lambda>r. (au_occurred_at r, au_id r)) records)"
    by (simp only: sorted_wrt_map) (metis (mono_tags, lifting) sorted_wrt_mono_rel)
  have "\<not> sensitive j" if "j \<in> set (all_keys (JObj (redact_dict d)))" for j d
    using redact_no_secret [of j "JObj d", unfolded redact_dict_eq] that by blast
  then have "\<forall>e \<in> set events. \<forall>d \<in> set_option (te_before e) \<union> set_option (te_after e) \<union> {te_metadata e}.
      \<forall>j \<in> set (all_keys (JObj d)). \<not> sensitive j"
    unfolding events by (auto simp del: all_keys.simps simp: sanitized_event_def)
  then show ?thesis using shown all sorted by blast
qed

text \<open>
  A note is readable once added: the list of an incident's notes is what it was before followed by
  the new one, with its author and time, provided the incident's log holds no later entry; a refused note
  changes nothing.
\<close>

theorem note_readable:
  assumes run: "add_incident_note db_ok k raw actor now s = (reply, s')"
    and clock: "\<And>r. r \<in> set (st_audit s) \<Longrightarrow> ae_entity_id (au_entry r) = k \<Longrightarrow> au_occurred_at r \<le> now"
    and before: "list_incident_notes True k s = Reply notes"
  shows "case reply of
      Note_added who text \<Rightarrow> who = analyst_of actor \<and> text = strip raw
        \<and> list_incident_notes True k s' = Reply (notes @ [\<lparr>in_actor = who, in_note = JStr text, in_created_at = now\<rparr>])
    | _ \<Rightarrow> s' = s"
proof -
  have known: "get_incident k s \<noteq> None" using before by (auto simp: list_incident_notes_def split: option.splits)
  let ?e = "note_entry (analyst_of actor) k (strip raw)"
  have entry: "ae_entity_id ?e = k" "ae_action ?e = ''incident.note_added''" by (simp_all add: note_entry_def entry_def)
  have rows: "audit_for_entity_ids [k] (audit_append_one now ?e s) = audit_for_entity_ids [k] s
      @ [\<lparr>au_id = next_rowid (map au_id (st_audit s)), au_occurred_at = now, au_entry = ?e\<rparr>]"
    by (rule audit_read_appended [OF entry(1)]) (use clock in blast)
  have read: "note_from_audit \<lparr>au_id = n, au_occurred_at = now, au_entry = ?e\<rparr>
      = \<lparr>in_actor = analyst_of actor, in_note = JStr (strip raw), in_created_at = now\<rparr>" for n
    by (simp add: note_from_audit_def note_entry_def entry_def)
  have list: "list_incident_notes True k (audit_append_one now ?e s)
      = Reply (notes @ [\<lparr>in_actor = analyst_of actor, in_note = JStr (strip raw), in_created_at = now\<rparr>])"
    using before known entry read by (auto simp: list_incident_notes_def rows get_incident_def split: option.splits)
  show ?thesis
  proof (cases "strip raw = []")
    case True
    then show ?thesis using run by (auto simp: add_incident_note_def)
  next
    case False
    then show ?thesis
      using run known list
      by (auto simp: add_incident_note_def Let_def session_scope_def db_bind_def db_run audit_append_def split: if_splits)
  qed
qed

text \<open>
  C20. An assignment is readable once made: after an accepted update the incident is assigned to exactly
  who was asked for, whoever had it before is reported, and an update that changes nothing appends
  nothing, provided the incident's log holds no later entry.
\<close>

theorem assignment_readable:
  assumes run: "update_incident_assignment (True, db_ok) k assignee actor now s = (Inr (Some r), s')"
    and clock: "\<And>r. r \<in> set (st_audit s) \<Longrightarrow> ae_entity_id (au_entry r) = k \<Longrightarrow> au_occurred_at r \<le> now"
  shows "get_incident_assignment True k s' = Inr (Some (assignee_json assignee))
    \<and> get_incident_assignment True k s = Inr (Some (as_previous r))
    \<and> (as_changed r \<longleftrightarrow> as_previous r \<noteq> assignee_json assignee)
    \<and> length (st_audit s') = length (st_audit s) + (if as_changed r then 1 else 0)"
proof -
  define current where "current = current_assignment (audit_for_entity_ids [k] s)"
  let ?e = "entry (analyst_of actor) ''incident.assigned'' ''incident'' k (Some [(''assignee'', current)])
      (Some [(''assignee'', assignee_json assignee)])"
  have known: "get_incident k s \<noteq> None" using run by (auto simp: update_incident_assignment_def split: if_splits)
  have entry: "ae_entity_id ?e = k" by (simp add: entry_def)
  have rows: "audit_for_entity_ids [k] (audit_append_one now ?e s) = audit_for_entity_ids [k] s
      @ [\<lparr>au_id = next_rowid (map au_id (st_audit s)), au_occurred_at = now, au_entry = ?e\<rparr>]"
    by (rule audit_read_appended [OF entry]) (use clock in blast)
  have after: "current_assignment (audit_for_entity_ids [k] (audit_append_one now ?e s)) = assignee_json assignee"
    unfolding rows by (simp add: current_assignment_def entry_def assignment_from_audit_def dict_get_def)
  show ?thesis
  proof (cases "current = assignee_json assignee")
    case True
    then have "s' = s" "as_previous r = current" "\<not> as_changed r"
      using run known by (auto simp: update_incident_assignment_def session_scope_eq_Inr current_def Let_def)
    then show ?thesis using True known by (auto simp: get_incident_assignment_def current_def)
  next
    case False
    then have "s' = audit_append_one now ?e s" "as_previous r = current" "as_changed r"
      using run known by (auto simp: update_incident_assignment_def session_scope_eq_Inr current_def Let_def audit_append_def)
    moreover have "get_incident k (audit_append_one now ?e s) = get_incident k s" by (simp add: get_incident_def)
    ultimately show ?thesis
      using False known after by (auto simp: get_incident_assignment_def current_def audit_append_one_def)
  qed
qed

end
