(* ===== verification/Read_Views.thy ===== *)
theory Read_Views
  imports Correlation_Repository Correlation_Evidence Incident_Desk
begin

text \<open>
  The read side of the HTTP API: the response models and projections of api/schemas.py and the read
  handlers of api/alerts.py, api/incidents.py, api/correlations.py and api/incident\_evidence.py. Each
  handler is a function of the store alone; the redaction is that of core/redaction.py.
\<close>

subsection \<open>Pages\<close>

record pagination =
  pg_limit :: int
  pg_offset :: int
  pg_total :: nat
  pg_has_more :: bool

definition make_pagination :: "int \<Rightarrow> int \<Rightarrow> nat \<Rightarrow> pagination" where
  "make_pagination limit offset n =
     \<lparr>pg_limit = limit, pg_offset = offset, pg_total = n, pg_has_more = (offset + limit < int n)\<rparr>"

record 'a listing =
  ls_items :: "'a list"
  ls_pagination :: pagination

definition listing_of :: "('a \<Rightarrow> 'b) \<Rightarrow> int \<Rightarrow> int \<Rightarrow> 'a list \<times> nat \<Rightarrow> 'b listing" where
  "listing_of view limit offset found =
     \<lparr>ls_items = map view (fst found), ls_pagination = make_pagination limit offset (snd found)\<rparr>"

subsection \<open>Parts of an alert\<close>

record rule_summary =
  rs_id :: string
  rs_level :: int
  rs_description :: string
  rs_groups :: "string list"

record agent_summary =
  as_id :: string
  as_name :: string
  as_ip :: "string option"

record risk_summary =
  rk_score :: int
  rk_tier :: string

record risk_detail =
  rd_score :: int
  rd_tier :: string
  rd_engine_version :: string
  rd_degraded :: bool
  rd_summary :: string
  rd_factors :: "(string, json) dict list"

record decision_summary =
  dy_action :: string
  dy_severity :: "string option"

record decision_detail =
  dd_action :: string
  dd_severity :: "string option"
  dd_reasons :: "string list"
  dd_runbook :: "string option"
  dd_decided_at :: string

record dedupe_summary =
  du_group_key :: string
  du_occurrences :: nat
  du_generation :: nat
  du_duplicate_deliveries :: nat
  du_event_identity :: "string option"
  du_first_seen :: "string option"
  du_last_seen :: "string option"

record ioc_read =
  ir_type :: string
  ir_value :: string
  ir_enrichment :: "(string, json) dict"
  ir_provenance :: "(string, json) dict list"

definition rule_summary_of :: "canonical_alert \<Rightarrow> rule_summary" where
  "rule_summary_of c =
     (let r = se_rule (c_source_event c) in
      \<lparr>rs_id = rule_id r, rs_level = rule_level r, rs_description = rule_description r, rs_groups = rule_groups r\<rparr>)"

definition agent_summary_of :: "canonical_alert \<Rightarrow> agent_summary" where
  "agent_summary_of c =
     (let a = se_agent (c_source_event c) in \<lparr>as_id = agent_id a, as_name = agent_name a, as_ip = agent_ip a\<rparr>)"

definition dedupe_summary_of :: "canonical_alert \<Rightarrow> string \<Rightarrow> dedupe_summary" where
  "dedupe_summary_of c group_key =
     (case c_dedupe c of
        None \<Rightarrow> \<lparr>du_group_key = group_key, du_occurrences = 1, du_generation = 1, du_duplicate_deliveries = 0,
          du_event_identity = None, du_first_seen = None, du_last_seen = None\<rparr>
      | Some d \<Rightarrow> \<lparr>du_group_key = cd_group_key d, du_occurrences = cd_occurrences d, du_generation = cd_generation d,
          du_duplicate_deliveries = cd_duplicate_deliveries d, du_event_identity = cd_event_identity d,
          du_first_seen = Some (isoformat (cd_first_seen d)), du_last_seen = Some (isoformat (cd_last_seen d))\<rparr>)"

definition risk_summary_of :: "canonical_alert \<Rightarrow> risk_summary option" where
  "risk_summary_of c = map_option (\<lambda>r. \<lparr>rk_score = r_score r, rk_tier = risk_tier_value (r_tier r)\<rparr>) (c_risk c)"

definition factor_view :: "score_factor \<Rightarrow> (string, json) dict" where
  "factor_view f = [(''name'', JStr (f_name f)), (''points'', JInt (f_points f)), (''max'', JInt (f_max f)),
     (''detail'', JStr (f_detail f))]"

definition risk_detail_of :: "canonical_alert \<Rightarrow> risk_detail option" where
  "risk_detail_of c = map_option (\<lambda>r.
     \<lparr>rd_score = r_score r, rd_tier = risk_tier_value (r_tier r), rd_engine_version = r_engine_version r,
      rd_degraded = r_degraded r, rd_summary = r_summary r, rd_factors = map factor_view (r_factors r)\<rparr>) (c_risk c)"

definition decision_summary_of :: "canonical_alert \<Rightarrow> decision_summary option" where
  "decision_summary_of c = map_option (\<lambda>d. \<lparr>dy_action = decision_action_value (d_action d),
     dy_severity = map_option decision_severity_value (d_severity d)\<rparr>) (c_decision c)"

definition decision_detail_of :: "canonical_alert \<Rightarrow> decision_detail option" where
  "decision_detail_of c = map_option (\<lambda>d.
     \<lparr>dd_action = decision_action_value (d_action d), dd_severity = map_option decision_severity_value (d_severity d),
      dd_reasons = d_reasons d, dd_runbook = d_runbook d, dd_decided_at = isoformat (d_decided_at d)\<rparr>) (c_decision c)"

definition text_or_null :: "string option \<Rightarrow> json" where
  "text_or_null v = (case v of None \<Rightarrow> JNull | Some x \<Rightarrow> JStr x)"

definition provenance_view :: "ioc_provenance \<Rightarrow> (string, json) dict" where
  "provenance_view p = [(''field'', JStr (p_field p)), (''extractor'', JStr (p_extractor p)),
     (''location'', text_or_null (p_location p))]"

definition ioc_read_of :: "ioc \<Rightarrow> ioc_read" where
  "ioc_read_of i = \<lparr>ir_type = ioc_type_value (i_type i), ir_value = i_value i,
     ir_enrichment = redact_dict (i_enrichment i), ir_provenance = map provenance_view (i_provenance i)\<rparr>"

definition ioc_summaries :: "canonical_alert \<Rightarrow> ioc_read list" where
  "ioc_summaries c = map ioc_read_of (c_iocs c)"

definition source_event_safe :: "canonical_alert \<Rightarrow> (string, json) dict" where
  "source_event_safe c =
     (let r = rule_summary_of c; a = agent_summary_of c; e = c_source_event c in
      [(''rule'', JObj [(''id'', JStr (rs_id r)), (''level'', JInt (rs_level r)),
          (''description'', JStr (rs_description r)), (''groups'', JList (map JStr (rs_groups r)))]),
       (''agent'', JObj [(''id'', JStr (as_id a)), (''name'', JStr (as_name a)), (''ip'', text_or_null (as_ip a))]),
       (''location'', text_or_null (se_location e)),
       (''data'', JObj (redact_dict (se_data e))), (''syscheck'', JObj (redact_dict (se_syscheck e)))])"

subsection \<open>Alerts\<close>

record alert_summary =
  ay_alert_id :: string
  ay_source :: string
  ay_received_at :: string
  ay_created_at :: string
  ay_incident_id :: "string option"
  ay_rule :: rule_summary
  ay_agent :: agent_summary
  ay_risk :: "risk_summary option"
  ay_decision :: "decision_summary option"
  ay_dedupe :: dedupe_summary
  ay_enrichment_status :: "string option"

record alert_detail =
  ad_alert_id :: string
  ad_source :: string
  ad_received_at :: string
  ad_created_at :: string
  ad_incident_id :: "string option"
  ad_rule :: rule_summary
  ad_agent :: agent_summary
  ad_asset :: "(string, json) dict option"
  ad_location :: "string option"
  ad_source_event :: "(string, json) dict"
  ad_risk :: "risk_detail option"
  ad_decision :: "decision_detail option"
  ad_dedupe :: dedupe_summary
  ad_enrichment_status :: "string option"
  ad_iocs :: "ioc_read list"

definition alert_summary_from_record :: "alert_row \<Rightarrow> alert_summary" where
  "alert_summary_from_record a =
     (let c = al_payload a in
      \<lparr>ay_alert_id = uuid_str (al_id a), ay_source = al_source a, ay_received_at = isoformat (al_received_at a),
       ay_created_at = isoformat (al_created_at a), ay_incident_id = al_incident_id a,
       ay_rule = rule_summary_of c, ay_agent = agent_summary_of c, ay_risk = risk_summary_of c,
       ay_decision = decision_summary_of c, ay_dedupe = dedupe_summary_of c (al_group_key a),
       ay_enrichment_status = c_enrichment_status c\<rparr>)"

definition asset_view :: "canonical_asset \<Rightarrow> (string, json) dict" where
  "asset_view a = [(''name'', text_or_null (asset_name a)), (''tier'', text_or_null (asset_tier a)),
     (''owner'', text_or_null (asset_owner a))]"

definition alert_detail_from_record :: "alert_row \<Rightarrow> alert_detail" where
  "alert_detail_from_record a =
     (let c = al_payload a in
      \<lparr>ad_alert_id = uuid_str (al_id a), ad_source = al_source a, ad_received_at = isoformat (al_received_at a),
       ad_created_at = isoformat (al_created_at a), ad_incident_id = al_incident_id a,
       ad_rule = rule_summary_of c, ad_agent = agent_summary_of c, ad_asset = map_option asset_view (c_asset c),
       ad_location = se_location (c_source_event c), ad_source_event = source_event_safe c,
       ad_risk = risk_detail_of c, ad_decision = decision_detail_of c,
       ad_dedupe = dedupe_summary_of c (al_group_key a), ad_enrichment_status = c_enrichment_status c,
       ad_iocs = ioc_summaries c\<rparr>)"

definition list_alerts_view :: "bool \<Rightarrow> alert_filter \<Rightarrow> int \<Rightarrow> int \<Rightarrow> store \<Rightarrow> alert_summary listing api_reply" where
  "list_alerts_view db_ok q limit offset s =
     (if \<not> db_ok then Internal_error
      else Reply (listing_of alert_summary_from_record limit offset (list_alerts q limit offset s)))"

definition get_alert_view :: "bool \<Rightarrow> uuid \<Rightarrow> store \<Rightarrow> alert_detail api_reply" where
  "get_alert_view db_ok alert_id s =
     (if \<not> db_ok then Internal_error
      else (case get_alert_row alert_id s of None \<Rightarrow> Not_found | Some a \<Rightarrow> Reply (alert_detail_from_record a)))"

subsection \<open>Incidents\<close>

record incident_summary =
  is_incident_id :: string
  is_status :: string
  is_severity :: string
  is_primary_alert_id :: string
  is_group_key :: string
  is_created_at :: string
  is_updated_at :: string
  is_acknowledged_at :: "string option"
  is_resolved_at :: "string option"

record linked_alert =
  la_alert_id :: string
  la_received_at :: string
  la_rule_id :: string
  la_rule_level :: int
  la_agent_id :: string
  la_agent_name :: string
  la_risk_score :: "int option"
  la_risk_tier :: "string option"
  la_decision_action :: "string option"
  la_is_primary :: bool

record incident_detail =
  ic_summary :: incident_summary
  ic_linked_count :: nat
  ic_primary :: "linked_alert option"
  ic_linked :: "linked_alert list"

definition incident_summary_from_domain :: "incident \<Rightarrow> incident_summary" where
  "incident_summary_from_domain i =
     \<lparr>is_incident_id = inc_id i, is_status = incident_status_value (inc_status i),
      is_severity = decision_severity_value (inc_severity i), is_primary_alert_id = uuid_str (inc_primary_alert_id i),
      is_group_key = inc_group_key i, is_created_at = isoformat (inc_created_at i),
      is_updated_at = isoformat (inc_updated_at i), is_acknowledged_at = map_option isoformat (inc_acknowledged_at i),
      is_resolved_at = map_option isoformat (inc_resolved_at i)\<rparr>"

definition linked_alert_summary :: "uuid \<Rightarrow> alert_row \<Rightarrow> linked_alert" where
  "linked_alert_summary primary a =
     (let c = al_payload a in
      \<lparr>la_alert_id = uuid_str (al_id a), la_received_at = isoformat (al_received_at a), la_rule_id = al_rule_id a,
       la_rule_level = al_rule_level a, la_agent_id = al_agent_id a, la_agent_name = al_agent_name a,
       la_risk_score = map_option r_score (c_risk c), la_risk_tier = payload_tier c,
       la_decision_action = map_option (\<lambda>d. decision_action_value (d_action d)) (c_decision c),
       la_is_primary = (al_id a = primary)\<rparr>)"

definition linked_key :: "linked_alert \<Rightarrow> bool \<times> string \<times> string" where
  "linked_key l = (\<not> la_is_primary l, la_received_at l, la_alert_id l)"

text \<open>The fields a detail shares with the summary are nested.\<close>

definition incident_detail_from_domain :: "incident \<Rightarrow> alert_row list \<Rightarrow> incident_detail" where
  "incident_detail_from_domain i linked =
     (let summaries = sort_key linked_key (map (linked_alert_summary (inc_primary_alert_id i)) linked) in
      \<lparr>ic_summary = incident_summary_from_domain i, ic_linked_count = length summaries,
       ic_primary = find la_is_primary summaries, ic_linked = summaries\<rparr>)"

definition list_incidents_view :: "bool \<Rightarrow> incident_filter \<Rightarrow> int \<Rightarrow> int \<Rightarrow> store \<Rightarrow> incident_summary listing api_reply" where
  "list_incidents_view db_ok q limit offset s =
     (if \<not> db_ok then Internal_error
      else Reply (listing_of incident_summary_from_domain limit offset (list_incidents q limit offset s)))"

definition get_incident_view :: "bool \<Rightarrow> string \<Rightarrow> store \<Rightarrow> incident_detail api_reply" where
  "get_incident_view db_ok k s =
     (if \<not> db_ok then Internal_error
      else (case get_incident k s of
          None \<Rightarrow> Not_found
        | Some i \<Rightarrow> Reply (incident_detail_from_domain i (alerts_for_incident k s))))"

subsection \<open>Correlation contexts\<close>

record member_evidence_read =
  me_type :: string
  me_value :: string
  me_reason :: string
  me_peer :: string

record member_read =
  mr_alert_id :: string
  mr_received_at :: string
  mr_joined_at :: string
  mr_rule_id :: string
  mr_rule_level :: int
  mr_agent_id :: string
  mr_agent_name :: string
  mr_group_key :: string
  mr_incident_id :: "string option"
  mr_risk_tier :: "string option"
  mr_decision_action :: "string option"
  mr_evidence :: "member_evidence_read list"

record evidence_read =
  er_type :: string
  er_value :: string
  er_reason :: string
  er_related :: "string list"
  er_first_seen :: string
  er_last_seen :: string

record context_summary_read =
  cs_context_id :: string
  cs_created_at :: string
  cs_updated_at :: string
  cs_first_seen :: string
  cs_last_seen :: string
  cs_member_count :: nat

record context_detail_read =
  ct_summary :: context_summary_read
  ct_members :: "member_read list"
  ct_evidence :: "evidence_read list"

text \<open>The order of \<open>EVIDENCE\_TYPE\_ORDER\<close>; a stored type it does not know sorts last.\<close>

definition evidence_sort_key :: "string \<times> string \<Rightarrow> nat \<times> string" where
  "evidence_sort_key k =
     (case find (\<lambda>e. evidence_type_value e = fst k) all_evidence_types of
        None \<Rightarrow> (length all_evidence_types, snd k)
      | Some e \<Rightarrow> (evidence_index e, snd k))"

definition member_read_of :: "member_row \<times> alert_row \<Rightarrow> member_read" where
  "member_read_of p =
     (let (m, a) = p; c = al_payload a in
      \<lparr>mr_alert_id = uuid_str (mb_alert_id m), mr_received_at = isoformat (al_received_at a),
       mr_joined_at = isoformat (mb_joined_at m), mr_rule_id = al_rule_id a, mr_rule_level = al_rule_level a,
       mr_agent_id = al_agent_id a, mr_agent_name = al_agent_name a, mr_group_key = al_group_key a,
       mr_incident_id = al_incident_id a, mr_risk_tier = payload_tier c,
       mr_decision_action = map_option (\<lambda>d. decision_action_value (d_action d)) (c_decision c),
       mr_evidence = map (\<lambda>i. \<lparr>me_type = ce_type i, me_value = ce_value i,
         me_reason = evidence_reason (ce_type i) (ce_value i), me_peer = ce_peer i\<rparr>) (mb_evidence m)\<rparr>)"

definition context_summary_of :: "context_row \<times> nat \<Rightarrow> context_summary_read" where
  "context_summary_of c =
     \<lparr>cs_context_id = cx_id (fst c), cs_created_at = isoformat (cx_created_at (fst c)),
      cs_updated_at = isoformat (cx_updated_at (fst c)), cs_first_seen = isoformat (cx_first_seen (fst c)),
      cs_last_seen = isoformat (cx_last_seen (fst c)), cs_member_count = snd c\<rparr>"

text \<open>
  The evidence of a context: every distinct type and value with the alerts it relates, the member that
  carries the item and the peer it names; the dictionary keeps the order of first insertion.
\<close>

definition relate :: "string \<Rightarrow> correlation_evidence_item
    \<Rightarrow> (string \<times> string, string list) dict \<Rightarrow> (string \<times> string, string list) dict" where
  "relate alert_id item agg =
     (let key = (ce_type item, ce_value item); old = (case map_of agg key of None \<Rightarrow> [] | Some r \<Rightarrow> r) in
      AList.update key (List.insert (ce_peer item) (List.insert alert_id old)) agg)"

definition aggregated :: "(member_row \<times> alert_row) list \<Rightarrow> (string \<times> string, string list) dict" where
  "aggregated members = fold (\<lambda>(m, a). fold (relate (uuid_str (mb_alert_id m))) (mb_evidence m)) members []"

definition received_times :: "(member_row \<times> alert_row) list \<Rightarrow> (string, instant) dict" where
  "received_times members = fold (\<lambda>(m, a). AList.update (uuid_str (mb_alert_id m)) (al_received_at a)) members []"

definition evidence_row :: "(string, instant) dict \<Rightarrow> (string \<times> string) \<times> string list \<Rightarrow> evidence_read" where
  "evidence_row received e =
     (let ((t, v), related) = e; ids = sort (filter (\<lambda>i. i \<in> fst ` set received) related);
          at = map (\<lambda>i. the (map_of received i)) ids in
      \<lparr>er_type = t, er_value = v, er_reason = evidence_reason t v, er_related = ids,
       er_first_seen = (if at = [] then [] else isoformat (Min (set at))),
       er_last_seen = (if at = [] then [] else isoformat (Max (set at)))\<rparr>)"

definition correlation_detail_from_records :: "context_row \<times> nat \<Rightarrow> (member_row \<times> alert_row) list
    \<Rightarrow> context_detail_read" where
  "correlation_detail_from_records c members =
     (let members = sort_key (\<lambda>(m, a). (al_received_at a, mb_alert_id m)) members; received = received_times members in
      \<lparr>ct_summary = (context_summary_of c)\<lparr>cs_member_count := length members\<rparr>, ct_members = map member_read_of members,
       ct_evidence = map (evidence_row received) (sort_key (evidence_sort_key \<circ> fst) (aggregated members))\<rparr>)"

definition list_correlations :: "bool \<Rightarrow> int \<Rightarrow> int \<Rightarrow> store \<Rightarrow> context_summary_read listing api_reply" where
  "list_correlations db_ok limit offset s =
     (if \<not> db_ok then Internal_error
      else Reply (listing_of context_summary_of limit offset (list_contexts limit offset s)))"

definition get_correlation :: "bool \<Rightarrow> string \<Rightarrow> store \<Rightarrow> context_detail_read api_reply" where
  "get_correlation db_ok k s =
     (if \<not> db_ok then Internal_error
      else (case get_context k s of
          None \<Rightarrow> Not_found
        | Some c \<Rightarrow> Reply (correlation_detail_from_records c (context_members k s))))"

definition get_alert_correlation :: "bool \<Rightarrow> uuid \<Rightarrow> store \<Rightarrow> context_detail_read api_reply" where
  "get_alert_correlation db_ok alert_id s =
     (if \<not> db_ok then Internal_error
      else (case context_for_alert alert_id s of
          None \<Rightarrow> Not_found
        | Some c \<Rightarrow> Reply (correlation_detail_from_records c (context_members (cx_id (fst c)) s))))"

subsection \<open>The evidence of an incident\<close>

record incident_evidence =
  ie_incident_id :: string
  ie_alert_count :: nat
  ie_ioc_count :: nat
  ie_iocs :: "ioc_read list"
  ie_alerts :: "alert_detail list"
  ie_contexts :: "context_detail_read list"

text \<open>\<open>if key not in d: d[key] = v\<close>, and the values in the order of the keys.\<close>

definition keep_first :: "'k \<Rightarrow> 'v \<Rightarrow> ('k, 'v) dict \<Rightarrow> ('k, 'v) dict" where
  "keep_first k v d = (if map_of d k = None then d @ [(k, v)] else d)"

definition by_key :: "('k::linorder, 'v) dict \<Rightarrow> 'v list" where
  "by_key d = map snd (sort_key fst d)"

definition ioc_read_key :: "ioc_read \<Rightarrow> string \<times> string" where
  "ioc_read_key i = (ir_type i, ir_value i)"

definition unique_iocs :: "alert_detail list \<Rightarrow> ioc_read list" where
  "unique_iocs details = by_key (fold (\<lambda>i. keep_first (ioc_read_key i) i) (concat (map ad_iocs details)) [])"

definition linked_contexts :: "alert_row list \<Rightarrow> store \<Rightarrow> context_detail_read list" where
  "linked_contexts linked s =
     by_key (fold (\<lambda>a d. case context_for_alert (al_id a) s of
          None \<Rightarrow> d
        | Some c \<Rightarrow> keep_first (cx_id (fst c)) (correlation_detail_from_records c (context_members (cx_id (fst c)) s)) d)
       linked [])"

definition get_incident_evidence :: "bool \<Rightarrow> string \<Rightarrow> store \<Rightarrow> incident_evidence api_reply" where
  "get_incident_evidence db_ok k s =
     (if \<not> db_ok then Internal_error
      else (case get_incident k s of
          None \<Rightarrow> Not_found
        | Some _ \<Rightarrow>
            (let linked = alerts_for_incident k s; details = map alert_detail_from_record linked; iocs = unique_iocs details in
             Reply \<lparr>ie_incident_id = k, ie_alert_count = length details, ie_ioc_count = length iocs, ie_iocs = iocs, ie_alerts = details,
               ie_contexts = linked_contexts linked s\<rparr>)))"

end
