(* ===== verification/Read_Facts.thy ===== *)
theory Read_Facts
  imports Read_Views
begin

text \<open>
  What the read handlers show and what they never show: the raw event, secrets and raw indicator text do
  not influence any answer; pages, linked alerts and evidence are complete.
\<close>

subsection \<open>The public part of the store\<close>

definition public_event :: "canonical_source_event \<Rightarrow> canonical_source_event" where
  "public_event e = e\<lparr>se_full_log := None, se_rule := (se_rule e)\<lparr>rule_mitre := []\<rparr>,
     se_data := redact_dict (se_data e), se_syscheck := redact_dict (se_syscheck e)\<rparr>"

definition public_ioc :: "ioc \<Rightarrow> ioc" where
  "public_ioc i = i\<lparr>i_enrichment := redact_dict (i_enrichment i),
     i_provenance := map (\<lambda>p. p\<lparr>p_raw_value := [], p_offset := None\<rparr>) (i_provenance i)\<rparr>"

definition public_row :: "alert_row \<Rightarrow> alert_row" where
  "public_row a = a\<lparr>al_payload := (al_payload a)\<lparr>c_source_event := public_event (c_source_event (al_payload a)),
     c_iocs := map public_ioc (c_iocs (al_payload a))\<rparr>\<rparr>"

definition public_store :: "store \<Rightarrow> store" where
  "public_store s = s\<lparr>st_alerts := map (\<lambda>(k, a). (k, public_row a)) (st_alerts s)\<rparr>"

lemma redact_dict_again [simp]: "redact_dict (redact_dict d) = redact_dict d"
  using redaction_idem [of "JObj d"] by (simp add: redact_dict_eq del: redact.simps)

lemma public_row_simps [simp]:
  "al_id (public_row a) = al_id a" "al_source (public_row a) = al_source a"
  "al_received_at (public_row a) = al_received_at a" "al_created_at (public_row a) = al_created_at a"
  "al_group_key (public_row a) = al_group_key a" "al_rule_id (public_row a) = al_rule_id a"
  "al_rule_level (public_row a) = al_rule_level a" "al_agent_id (public_row a) = al_agent_id a"
  "al_agent_name (public_row a) = al_agent_name a" "al_incident_id (public_row a) = al_incident_id a"
  "c_risk (al_payload (public_row a)) = c_risk (al_payload a)"
  "c_decision (al_payload (public_row a)) = c_decision (al_payload a)"
  "payload_tier (al_payload (public_row a)) = payload_tier (al_payload a)"
  "payload_severity (al_payload (public_row a)) = payload_severity (al_payload a)"
  by (simp_all add: public_row_def payload_tier_def payload_severity_def)

lemma public_store_simps [simp]:
  "st_incidents (public_store s) = st_incidents s" "st_events (public_store s) = st_events s"
  "st_contexts (public_store s) = st_contexts s" "st_members (public_store s) = st_members s"
  "rows (st_alerts (public_store s)) = map public_row (rows (st_alerts s))"
  "get_incident j (public_store s) = get_incident j s"
  by (simp_all add: public_store_def rows_def case_prod_unfold get_incident_def)

lemma public_store_alert [simp]: "map_of (st_alerts (public_store s)) k = map_option public_row (map_of (st_alerts s) k)"
  by (simp add: public_store_def map_of_map)

subsection \<open>The projections read only the public part\<close>

lemma ioc_read_public: "ioc_read_of (public_ioc i) = ioc_read_of i"
  by (simp add: ioc_read_of_def public_ioc_def provenance_view_def comp_def)

lemma detail_public: "alert_detail_from_record (public_row a) = alert_detail_from_record a"
  by (simp add: alert_detail_from_record_def public_row_def rule_summary_of_def agent_summary_of_def risk_detail_of_def
      decision_detail_of_def dedupe_summary_of_def source_event_safe_def public_event_def ioc_summaries_def ioc_read_public Let_def
      split: option.split)

lemma summary_public: "alert_summary_from_record (public_row a) = alert_summary_from_record a"
  by (simp add: alert_summary_from_record_def public_row_def rule_summary_of_def agent_summary_of_def risk_summary_of_def
      decision_summary_of_def dedupe_summary_of_def public_event_def Let_def split: option.split)

lemma linked_public: "linked_alert_summary p (public_row a) = linked_alert_summary p a"
  by (simp add: linked_alert_summary_def Let_def)

lemma member_public: "member_read_of (m, public_row a) = member_read_of (m, a)"
  by (simp add: member_read_of_def Let_def)

lemma sort_key_map: "sort_key f (map g xs) = map g (sort_key (f \<circ> g) xs)"
proof -
  have "insort_key f (g x) (map g ys) = map g (insort_key (f \<circ> g) x ys)" for x ys by (induction ys) auto
  then show ?thesis by (induction xs) auto
qed

lemma sort_desc_map: "sort_desc f (map g xs) = map g (sort_desc (f \<circ> g) xs)"
  by (simp add: sort_desc_def rev_map sort_key_map)

lemma alerts_for_incident_public: "alerts_for_incident k (public_store s) = map public_row (alerts_for_incident k s)"
  by (simp add: alerts_for_incident_def filter_map sort_key_map comp_def)

lemma filter_alerts_public: "filter_alerts q (public_store s) = map public_row (filter_alerts q s)"
proof (cases "q_duplicate q")
  case (Some b)
  then show ?thesis by (cases b) (simp_all add: filter_alerts_def filter_map comp_def)
qed (simp add: filter_alerts_def filter_map comp_def)

lemma page_map: "page lo (map f xs) = map f (page lo xs)"
  by (simp add: page_def take_map drop_map)

lemma list_alerts_public:
  "list_alerts q limit offset (public_store s) = map_prod (map public_row) id (list_alerts q limit offset s)"
  by (simp add: list_alerts_def filter_alerts_public sort_desc_map page_map comp_def Let_def)

lemma map_filter_map: "List.map_filter (\<lambda>x. map_option f (g x)) xs = map f (List.map_filter g xs)"
  by (induction xs) (auto simp: List.map_filter_simps split: option.split)

lemma context_members_public:
  "context_members k (public_store s) = map (\<lambda>(m, a). (m, public_row a)) (context_members k s)"
proof -
  have eq: "(\<lambda>m. if mb_context_id m = k then map_option (Pair m) (map_of (st_alerts (public_store s)) (mb_alert_id m)) else None)
      = (\<lambda>m. map_option (\<lambda>(m, a). (m, public_row a))
          (if mb_context_id m = k then map_option (Pair m) (map_of (st_alerts s) (mb_alert_id m)) else None))"
    by (auto simp: fun_eq_iff option.map_comp comp_def)
  show ?thesis
    unfolding context_members_def eq map_filter_map sort_key_map by (simp add: comp_def case_prod_unfold)
qed

lemma context_public:
  "get_context k (public_store s) = get_context k s" "context_for_alert a (public_store s) = context_for_alert a s"
  "list_contexts limit offset (public_store s) = list_contexts limit offset s"
  by (simp_all add: get_context_def context_for_alert_def membership_for_alert_def list_contexts_def member_count_def
      split: option.split)

lemma correlation_detail_public:
  "correlation_detail_from_records c (map (\<lambda>(m, a). (m, public_row a)) ms) = correlation_detail_from_records c ms"
proof -
  let ?p = "\<lambda>(m, a). (m, public_row a)"
  have sorted: "sort_key (\<lambda>(m, a). (al_received_at a, mb_alert_id m)) (map ?p ms)
      = map ?p (sort_key (\<lambda>(m, a). (al_received_at a, mb_alert_id m)) ms)"
    by (simp add: sort_key_map comp_def case_prod_unfold)
  have "aggregated (map ?p xs) = aggregated xs" "received_times (map ?p xs) = received_times xs"
    "map member_read_of (map ?p xs) = map member_read_of xs" for xs
    by (simp_all add: aggregated_def received_times_def fold_map comp_def case_prod_unfold)
      (simp add: member_public [of "fst x" "snd x" for x, simplified])
  then show ?thesis unfolding correlation_detail_from_records_def sorted by (simp add: Let_def)
qed

lemma linked_contexts_public: "linked_contexts (map public_row as) (public_store s) = linked_contexts as s"
proof -
  have "(case context_for_alert i (public_store s) of None \<Rightarrow> d
        | Some c \<Rightarrow> keep_first (cx_id (fst c)) (correlation_detail_from_records c (context_members (cx_id (fst c)) (public_store s))) d)
      = (case context_for_alert i s of None \<Rightarrow> d
        | Some c \<Rightarrow> keep_first (cx_id (fst c)) (correlation_detail_from_records c (context_members (cx_id (fst c)) s)) d)" for i d
    by (simp add: context_public context_members_public correlation_detail_public split: option.split)
  then show ?thesis by (simp add: linked_contexts_def fold_map comp_def)
qed

text \<open>
  C8. No read endpoint lets anything private through: the alert list, the alert, the incident and its
  evidence, and the correlation context are the same answers on a store from which every raw log, every
  value under a key that names a secret at any depth of the event data and of the indicators' enrichment,
  every MITRE entry, and the raw text and offset of every indicator have been removed.
\<close>

theorem reads_hide_raw_event:
  "list_alerts_view db_ok q limit offset (public_store s) = list_alerts_view db_ok q limit offset s
   \<and> get_alert_view db_ok alert (public_store s) = get_alert_view db_ok alert s
   \<and> get_incident_view db_ok incident (public_store s) = get_incident_view db_ok incident s
   \<and> get_incident_evidence db_ok incident (public_store s) = get_incident_evidence db_ok incident s
   \<and> get_correlation db_ok ctx (public_store s) = get_correlation db_ok ctx s
   \<and> get_alert_correlation db_ok alert (public_store s) = get_alert_correlation db_ok alert s"
proof (intro conjI)
  have "map alert_summary_from_record (map public_row xs) = map alert_summary_from_record xs" for xs
    by (simp add: summary_public)
  then show "list_alerts_view db_ok q limit offset (public_store s) = list_alerts_view db_ok q limit offset s"
    by (simp add: list_alerts_view_def listing_of_def list_alerts_public comp_def summary_public)
  show "get_alert_view db_ok alert (public_store s) = get_alert_view db_ok alert s"
    by (simp add: get_alert_view_def get_alert_row_def detail_public split: option.split)
  show "get_incident_view db_ok incident (public_store s) = get_incident_view db_ok incident s"
    by (simp add: get_incident_view_def incident_detail_from_domain_def alerts_for_incident_public comp_def linked_public
        split: option.split)
  show "get_incident_evidence db_ok incident (public_store s) = get_incident_evidence db_ok incident s"
    by (simp add: get_incident_evidence_def alerts_for_incident_public comp_def detail_public linked_contexts_public Let_def
        split: option.split)
  show "get_correlation db_ok ctx (public_store s) = get_correlation db_ok ctx s"
    by (simp add: get_correlation_def context_public context_members_public correlation_detail_public split: option.split)
  show "get_alert_correlation db_ok alert (public_store s) = get_alert_correlation db_ok alert s"
    by (simp add: get_alert_correlation_def context_public context_members_public correlation_detail_public split: option.split)
qed

subsection \<open>Pages\<close>

lemma pages_concat: "concat (map (\<lambda>k. page (int n, int k * int n) xs) [0..<m]) = take (m * n) xs"
proof (induction m)
  case (Suc m)
  have "page (int n, int m * int n) xs = take n (drop (m * n) xs)" by (simp add: page_def nat_mult_distrib)
  then show ?case using Suc take_add [of "m * n" n xs] by (simp add: add.commute)
qed simp

lemma sort_desc_set [simp]: "set (sort_desc f xs) = set xs" "length (sort_desc f xs) = length xs" "mset (sort_desc f xs) = mset xs"
  by (simp_all add: sort_desc_def)

lemma sort_desc_sorted: "sorted_wrt (\<lambda>x y. f y \<le> f x) (sort_desc f xs)"
proof -
  have "sorted (map f (sort_key f (rev xs)))" by simp
  then show ?thesis unfolding sort_desc_def sorted_wrt_rev by (simp add: sorted_wrt_map)
qed

text \<open>
  C18. Paging through the alert list shows every matching alert: a client that asks for pages of an allowed
  size one after the other and stops at the first one without a successor has received the summary of each
  matching alert exactly once, newest first; every page but the last says that there is more.
\<close>

theorem alert_pages_complete:
  assumes size: "1 \<le> n" "int n \<le> max_page_limit"
    and pages: "\<And>k. k < m \<Longrightarrow> list_alerts_view True q (int n) (int k * int n) s = Reply (p k)"
    and stop: "0 < m" "\<not> pg_has_more (ls_pagination (p (m - 1)))"
  shows "\<exists>found. mset found = mset (filter_alerts q s)
      \<and> sorted_wrt (\<lambda>a b. (al_received_at b, al_id b) \<le> (al_received_at a, al_id a)) found
      \<and> concat (map (\<lambda>k. ls_items (p k)) [0..<m]) = map alert_summary_from_record found
      \<and> (\<forall>k < m. pg_has_more (ls_pagination (p k)) \<longleftrightarrow> (k + 1) * n < length found)"
proof -
  define found where "found = sort_desc (\<lambda>a. (al_received_at a, al_id a)) (filter_alerts q s)"
  have p: "p k = listing_of alert_summary_from_record (int n) (int k * int n) (page (int n, int k * int n) found, length found)"
    if "k < m" for k
    using pages [OF that] size by (simp add: list_alerts_view_def list_alerts_def clamp_page_def found_def Let_def)
  have more: "pg_has_more (ls_pagination (p k)) \<longleftrightarrow> (k + 1) * n < length found" if "k < m" for k
  proof -
    have "int k * int n + int n < int (length found) \<longleftrightarrow> (k + 1) * n < length found"
      by (simp only: of_nat_mult [symmetric] of_nat_add [symmetric] of_nat_less_iff) (simp add: algebra_simps)
    then show ?thesis using p [OF that] by (simp add: listing_of_def make_pagination_def)
  qed
  have "concat (map (\<lambda>k. ls_items (p k)) [0..<m]) = concat (map (\<lambda>k. map alert_summary_from_record (page (int n, int k * int n) found)) [0..<m])"
    using p by (intro arg_cong [where f = concat] map_cong) (simp_all add: listing_of_def)
  also have "\<dots> = map alert_summary_from_record (take (m * n) found)"
    by (simp add: pages_concat [symmetric] map_concat comp_def)
  also have "take (m * n) found = found" using more [of "m - 1"] stop by simp
  finally show ?thesis
    using more sort_desc_sorted [of "\<lambda>a. (al_received_at a, al_id a)" "filter_alerts q s"]
    by (intro exI [of _ found]) (simp add: found_def)
qed

subsection \<open>Linked alerts\<close>

lemma find_hd: "sorted (map f xs) \<Longrightarrow> (\<And>x y. f x \<le> f y \<Longrightarrow> P y \<Longrightarrow> P x) \<Longrightarrow> \<exists>x \<in> set xs. P x
    \<Longrightarrow> find P xs = Some (hd xs) \<and> P (hd xs)"
  by (cases xs) auto

text \<open>
  The detail of an incident lists exactly its linked alerts, each once, and counts them; the alerts
  come in the order of their time, after the primary one, which is the first and the one named whenever it
  is linked at all.
\<close>

theorem incident_view_complete:
  assumes "get_incident_view db_ok k s = Reply d"
  shows "\<exists>i. get_incident k s = Some i
    \<and> mset (ic_linked d) = image_mset (linked_alert_summary (inc_primary_alert_id i))
        (mset (filter (\<lambda>a. al_incident_id a = Some k) (rows (st_alerts s))))
    \<and> ic_linked_count d = length (ic_linked d) \<and> sorted (map linked_key (ic_linked d))
    \<and> ic_primary d = find la_is_primary (ic_linked d)
    \<and> ((\<exists>a \<in> set (rows (st_alerts s)). al_incident_id a = Some k \<and> al_id a = inc_primary_alert_id i)
        \<longrightarrow> ic_primary d = Some (hd (ic_linked d)) \<and> la_is_primary (hd (ic_linked d)))"
proof -
  obtain i where i: "get_incident k s = Some i" and d: "d = incident_detail_from_domain i (alerts_for_incident k s)"
    using assms by (auto simp: get_incident_view_def split: if_splits option.splits)
  let ?p = "inc_primary_alert_id i"
  have linked: "ic_linked d = sort_key linked_key (map (linked_alert_summary ?p) (alerts_for_incident k s))"
    by (simp add: d incident_detail_from_domain_def Let_def)
  have all: "mset (ic_linked d) = image_mset (linked_alert_summary ?p) (mset (filter (\<lambda>a. al_incident_id a = Some k) (rows (st_alerts s))))"
    by (simp add: linked alerts_for_incident_def)
  have sorted: "sorted (map linked_key (ic_linked d))" by (simp add: linked)
  have "\<exists>l \<in> set (ic_linked d). la_is_primary l"
    if "\<exists>a \<in> set (rows (st_alerts s)). al_incident_id a = Some k \<and> al_id a = ?p"
    using that by (auto simp: linked alerts_for_incident_def linked_alert_summary_def Let_def)
  moreover have "la_is_primary x" if "linked_key x \<le> linked_key y" "la_is_primary y" for x y
    using that by (auto simp: linked_key_def less_eq_prod_def)
  ultimately have "find la_is_primary (ic_linked d) = Some (hd (ic_linked d)) \<and> la_is_primary (hd (ic_linked d))"
    if "\<exists>a \<in> set (rows (st_alerts s)). al_incident_id a = Some k \<and> al_id a = ?p"
    using that find_hd [OF sorted, of la_is_primary] by blast
  then show ?thesis
    using i all sorted by (auto simp: d incident_detail_from_domain_def Let_def)
qed

subsection \<open>Dictionaries built row by row\<close>

lemma keep_first_fold:
  "map_of (fold (\<lambda>i. keep_first (f i) i) xs d) k
     = (case map_of d k of Some v \<Rightarrow> Some v | None \<Rightarrow> find (\<lambda>i. f i = k) xs)"
  by (induction xs arbitrary: d) (auto simp: keep_first_def split: option.splits)

lemma keep_first_distinct: "distinct (map fst d) \<Longrightarrow> distinct (map fst (keep_first k v d))"
  by (auto simp: keep_first_def map_of_eq_None_iff)

lemma fold_keeps: "(\<And>x d. P d \<Longrightarrow> P (f x d)) \<Longrightarrow> P d \<Longrightarrow> P (fold f xs d)"
  by (induction xs arbitrary: d) auto

lemma by_key_sorted:
  assumes "distinct (map fst d)" "\<And>k v. (k, v) \<in> set d \<Longrightarrow> g v = k"
  shows "sorted_wrt (<) (map g (by_key d))"
proof -
  have eq: "map g (by_key d) = map fst (sort_key fst d)" using assms(2) by (auto simp: by_key_def)
  have "mset (map fst (sort_key fst d)) = mset (map fst d)" by simp
  then have "distinct (map fst (sort_key fst d))" using assms(1) by (metis mset_eq_imp_distinct_iff)
  then show ?thesis unfolding eq by (simp add: strict_sorted_iff)
qed

lemma by_key_set: "set (by_key d) = snd ` set d"
  by (simp add: by_key_def)

lemma unique_iocs_dict:
  fixes iocs :: "ioc_read list"
  defines "d \<equiv> fold (\<lambda>i. keep_first (ioc_read_key i) i) iocs []"
  shows "distinct (map fst d)" "(k, i) \<in> set d \<longleftrightarrow> find (\<lambda>j. ioc_read_key j = k) iocs = Some i"
proof -
  show dist: "distinct (map fst d)"
    unfolding d_def by (rule fold_keeps) (simp_all add: keep_first_distinct)
  show "(k, i) \<in> set d \<longleftrightarrow> find (\<lambda>j. ioc_read_key j = k) iocs = Some i"
    using map_of_eq_Some_iff [OF dist, of k i] keep_first_fold [of ioc_read_key iocs "[]" k] by (simp add: d_def)
qed

definition context_id_of :: "context_detail_read \<Rightarrow> string" where
  "context_id_of c = cs_context_id (ct_summary c)"

lemma detail_context_id [simp]: "context_id_of (correlation_detail_from_records c ms) = cx_id (fst c)"
  by (simp add: context_id_of_def correlation_detail_from_records_def context_summary_of_def Let_def)

definition context_step :: "store \<Rightarrow> alert_row \<Rightarrow> (string, context_detail_read) dict \<Rightarrow> (string, context_detail_read) dict" where
  "context_step s a d = (case get_alert_correlation True (al_id a) s of Reply c \<Rightarrow> keep_first (context_id_of c) c d | _ \<Rightarrow> d)"

lemma linked_contexts_eq: "linked_contexts as s = by_key (fold (context_step s) as [])"
proof -
  have "context_step s = (\<lambda>a d. case context_for_alert (al_id a) s of
          None \<Rightarrow> d
        | Some c \<Rightarrow> keep_first (cx_id (fst c)) (correlation_detail_from_records c (context_members (cx_id (fst c)) s)) d)"
    by (intro ext) (simp add: context_step_def get_alert_correlation_def split: option.split)
  then show ?thesis by (simp add: linked_contexts_def)
qed

lemma context_steps:
  "distinct (map fst d) \<Longrightarrow> distinct (map fst (fold (context_step s) as d))"
  "(k, c) \<in> set (fold (context_step s) as d) \<Longrightarrow>
     (k, c) \<in> set d \<or> (k = context_id_of c \<and> (\<exists>a \<in> set as. get_alert_correlation True (al_id a) s = Reply c))"
  "a \<in> set as \<Longrightarrow> get_alert_correlation True (al_id a) s = Reply c \<Longrightarrow>
     context_id_of c \<in> fst ` set (fold (context_step s) as d)"
proof -
  show "distinct (map fst d) \<Longrightarrow> distinct (map fst (fold (context_step s) as d))"
    by (rule fold_keeps) (auto simp: context_step_def keep_first_distinct split: api_reply.split)
  show "(k, c) \<in> set (fold (context_step s) as d) \<Longrightarrow>
     (k, c) \<in> set d \<or> (k = context_id_of c \<and> (\<exists>a \<in> set as. get_alert_correlation True (al_id a) s = Reply c))"
  proof (induction as arbitrary: d)
    case (Cons b as)
    have "(k, c) \<in> set d \<or> (k = context_id_of c \<and> get_alert_correlation True (al_id b) s = Reply c)"
      if "(k, c) \<in> set (context_step s b d)"
      using that by (auto simp: context_step_def keep_first_def split: api_reply.splits if_splits)
    then show ?case using Cons.IH [of "context_step s b d"] Cons.prems by auto
  qed simp
  have mono: "k \<in> fst ` set d \<Longrightarrow> k \<in> fst ` set (fold (context_step s) as d)" for k as d
    by (rule fold_keeps [where P = "\<lambda>d. k \<in> fst ` set d"])
      (auto simp: context_step_def keep_first_def image_iff split: api_reply.splits)
  show "a \<in> set as \<Longrightarrow> get_alert_correlation True (al_id a) s = Reply c \<Longrightarrow>
     context_id_of c \<in> fst ` set (fold (context_step s) as d)"
  proof (induction as arbitrary: d)
    case (Cons b as)
    show ?case
    proof (cases "a = b")
      case True
      have "context_id_of c \<in> fst ` set (context_step s a d)"
        using Cons.prems(2) by (auto simp: context_step_def keep_first_def image_iff map_of_eq_None_iff)
      then show ?thesis using True mono by simp
    next
      case False
      then show ?thesis using Cons by simp
    qed
  qed simp
qed

text \<open>
  C17. The evidence of an incident is complete and free of repetition: it holds the details of exactly its
  linked alerts, every indicator of these alerts once, as the first alert that has it shows it, in the
  order of type and value, and every correlation context one of them belongs to once, as the correlation
  endpoint of that alert shows it, in the order of the context ids.
\<close>

theorem evidence_view_complete:
  assumes "get_incident_evidence db_ok k s = Reply e"
  shows "ie_alerts e = map alert_detail_from_record (alerts_for_incident k s)
    \<and> sorted_wrt (<) (map ioc_read_key (ie_iocs e))
    \<and> (\<forall>i. i \<in> set (ie_iocs e) \<longleftrightarrow>
          find (\<lambda>j. ioc_read_key j = ioc_read_key i) (concat (map ad_iocs (ie_alerts e))) = Some i)
    \<and> sorted_wrt (<) (map context_id_of (ie_contexts e))
    \<and> (\<forall>c \<in> set (ie_contexts e). \<exists>a \<in> set (alerts_for_incident k s). get_alert_correlation True (al_id a) s = Reply c)
    \<and> (\<forall>a \<in> set (alerts_for_incident k s). \<forall>c. get_alert_correlation True (al_id a) s = Reply c
          \<longrightarrow> context_id_of c \<in> context_id_of ` set (ie_contexts e))"
proof -
  let ?as = "alerts_for_incident k s"
  let ?is = "concat (map ad_iocs (map alert_detail_from_record ?as))"
  let ?d = "fold (context_step s) ?as []"
  have e: "ie_alerts e = map alert_detail_from_record ?as" "ie_iocs e = unique_iocs (map alert_detail_from_record ?as)"
    "ie_contexts e = by_key ?d"
    using assms by (auto simp: get_incident_evidence_def linked_contexts_eq Let_def split: if_splits option.splits)
  have key: "ioc_read_key i = x" if "find (\<lambda>j. ioc_read_key j = x) iocs = Some i" for x i iocs
    using that by (auto simp: find_Some_iff)
  have listed: "sorted_wrt (<) (map ioc_read_key (ie_iocs e))"
    unfolding e(2) unique_iocs_def
  proof (rule by_key_sorted)
    show "distinct (map fst (fold (\<lambda>i. keep_first (ioc_read_key i) i) ?is []))" by (rule unique_iocs_dict(1))
    show "ioc_read_key i = x" if "(x, i) \<in> set (fold (\<lambda>i. keep_first (ioc_read_key i) i) ?is [])" for x i
      using that key unfolding unique_iocs_dict(2) by blast
  qed
  have each: "i \<in> set (ie_iocs e) \<longleftrightarrow> find (\<lambda>j. ioc_read_key j = ioc_read_key i) ?is = Some i" for i
  proof -
    have "i \<in> set (ie_iocs e) \<longleftrightarrow> (\<exists>x. find (\<lambda>j. ioc_read_key j = x) ?is = Some i)"
      by (simp only: e(2) unique_iocs_def by_key_set unique_iocs_dict(2) [symmetric]) force
    then show ?thesis using key by metis
  qed
  have keys: "context_id_of c = x \<and> (\<exists>a \<in> set ?as. get_alert_correlation True (al_id a) s = Reply c)"
    if "(x, c) \<in> set ?d" for x c using context_steps(2) [OF that] by simp
  have sorted: "sorted_wrt (<) (map context_id_of (ie_contexts e))"
    unfolding e(3) using context_steps(1) keys by (intro by_key_sorted) simp_all
  have own: "\<exists>a \<in> set ?as. get_alert_correlation True (al_id a) s = Reply c" if "c \<in> set (ie_contexts e)" for c
    using that keys by (auto simp: e(3) by_key_set)
  have shown: "context_id_of c \<in> context_id_of ` set (ie_contexts e)"
    if "a \<in> set ?as" "get_alert_correlation True (al_id a) s = Reply c" for a c
    using context_steps(3) [OF that, of "[]"] keys by (force simp: e(3) by_key_set image_iff)
  show ?thesis using listed each sorted own shown e(1) by simp
qed

end
