(* ===== verification/Context_Evidence.thy ===== *)
theory Context_Evidence
  imports Read_Facts
begin

text \<open>
  What the correlation endpoints show of a context: the members and the evidence that relates them.
\<close>

subsection \<open>The evidence of a context\<close>

type_synonym member_pair = "member_row \<times> alert_row"

definition member_id :: "member_pair \<Rightarrow> string" where
  "member_id p = uuid_str (mb_alert_id (fst p))"

definition item_key :: "correlation_evidence_item \<Rightarrow> string \<times> string" where
  "item_key i = (ce_type i, ce_value i)"

text \<open>The alerts an item of evidence names: the member that carries it and its peer.\<close>

definition related_ids :: "member_pair list \<Rightarrow> string \<times> string \<Rightarrow> string set" where
  "related_ids ps key = (\<Union>p \<in> set ps. \<Union>i \<in> {i \<in> set (mb_evidence (fst p)). item_key i = key}. {member_id p, ce_peer i})"

definition looked_up :: "('k, 'v list) dict \<Rightarrow> 'k \<Rightarrow> 'v set" where
  "looked_up d k = (case map_of d k of None \<Rightarrow> {} | Some r \<Rightarrow> set r)"

lemma relate_step:
  "looked_up (relate x i d) key = looked_up d key \<union> (if item_key i = key then {x, ce_peer i} else {})"
  "fst ` set (relate x i d) = insert (item_key i) (fst ` set d)"
  "distinct (map fst d) \<Longrightarrow> distinct (map fst (relate x i d))"
  by (auto simp: looked_up_def relate_def item_key_def update_conv' dom_update distinct_update Let_def split: option.split)

lemma relate_items:
  "looked_up (fold (relate x) es d) key = looked_up d key \<union> (\<Union>i \<in> {i \<in> set es. item_key i = key}. {x, ce_peer i})"
  "fst ` set (fold (relate x) es d) = item_key ` set es \<union> fst ` set d"
  by (induction es arbitrary: d) (auto simp: relate_step)

lemma aggregated_fold:
  "looked_up (fold (\<lambda>(m, a). fold (relate (uuid_str (mb_alert_id m))) (mb_evidence m)) ps d) key = looked_up d key \<union> related_ids ps key"
  "fst ` set (fold (\<lambda>(m, a). fold (relate (uuid_str (mb_alert_id m))) (mb_evidence m)) ps d)
     = (\<Union>p \<in> set ps. item_key ` set (mb_evidence (fst p))) \<union> fst ` set d"
proof (induction ps arbitrary: d)
  case (Cons p ps)
  {
    case 1
    have "related_ids (p # ps) key = (\<Union>i \<in> {i \<in> set (mb_evidence (fst p)). item_key i = key}. {member_id p, ce_peer i}) \<union> related_ids ps key"
      by (simp only: related_ids_def list.set(2) UN_insert)
    then show ?case by (simp only: fold_Cons comp_def case_prod_unfold Cons(1) [unfolded case_prod_unfold] relate_items member_id_def Un_assoc)
  next
    case 2
    show ?case
      by (simp only: fold_Cons comp_def case_prod_unfold Cons(2) [unfolded case_prod_unfold] relate_items list.set(2) UN_insert Un_assoc Un_left_commute)
  }
qed (simp_all add: related_ids_def)

lemma aggregated_distinct: "distinct (map fst (aggregated ps))"
  unfolding aggregated_def
  by (rule fold_keeps) (auto intro!: fold_keeps [where P = "\<lambda>d. distinct (map fst d)"] relate_step(3))

lemma aggregated_exact:
  assumes "(key, related) \<in> set (aggregated ps)"
  shows "set related = related_ids ps key"
proof -
  have "map_of (aggregated ps) key = Some related" using assms aggregated_distinct by simp
  moreover have "looked_up (aggregated ps) key = related_ids ps key"
    by (simp add: aggregated_def aggregated_fold) (simp add: looked_up_def)
  ultimately show ?thesis by (simp add: looked_up_def)
qed

lemma received_times_lookup:
  "distinct (map member_id ps) \<Longrightarrow> p \<in> set ps \<Longrightarrow> map_of (received_times ps) (member_id p) = Some (al_received_at (snd p))"
proof (induction ps rule: rev_induct)
  case (snoc q ps)
  have step: "received_times (ps @ [q]) = AList.update (member_id q) (al_received_at (snd q)) (received_times ps)"
    by (simp add: received_times_def member_id_def case_prod_unfold)
  show ?case
  proof (cases "p = q")
    case False
    then have "p \<in> set ps" using snoc.prems by auto
    moreover from this have "member_id p \<noteq> member_id q" using snoc.prems(1) by (auto simp: image_iff)
    ultimately show ?thesis using snoc unfolding step by (simp add: update_conv')
  qed (simp add: step update_conv')
qed simp

lemma received_times_keys: "fst ` set (received_times ps) = member_id ` set ps"
proof (induction ps rule: rev_induct)
  case (snoc q ps)
  then show ?case by (simp add: received_times_def member_id_def case_prod_unfold dom_update)
qed (simp add: received_times_def)

lemma relate_distinct_ids: "\<forall>r \<in> snd ` set d. distinct r \<Longrightarrow> \<forall>r \<in> snd ` set (relate x i d). distinct r"
proof -
  assume old: "\<forall>r \<in> snd ` set d. distinct r"
  have set_update: "set (AList.update k v d) \<subseteq> insert (k, v) (set d)" for k :: "string \<times> string" and v
    by (induction d) auto
  have "distinct (case map_of d k of None \<Rightarrow> [] | Some r \<Rightarrow> r)" for k
    using old by (force split: option.split dest: map_of_SomeD)
  then show ?thesis using old set_update by (fastforce simp: relate_def Let_def)
qed

lemma aggregated_distinct_ids: "(key, related) \<in> set (aggregated ps) \<Longrightarrow> distinct related"
proof -
  let ?P = "\<lambda>d :: (string \<times> string, string list) dict. \<forall>r \<in> snd ` set d. distinct r"
  have step: "?P (fold (relate x) es d)" if "?P d" for x es d
    by (rule fold_keeps [where P = ?P]) (rule relate_distinct_ids, assumption, rule that)
  have "?P (aggregated ps)"
    unfolding aggregated_def case_prod_unfold
    by (rule fold_keeps [where P = ?P]) (rule step, assumption, simp)
  then show "(key, related) \<in> set (aggregated ps) \<Longrightarrow> distinct related" by force
qed

lemma aggregated_keys: "fst ` set (aggregated ps) = (\<Union>p \<in> set ps. item_key ` set (mb_evidence (fst p)))"
  by (simp add: aggregated_def aggregated_fold)

text \<open>The instants at which the members among given ids were received.\<close>

definition received_of :: "member_pair list \<Rightarrow> string set \<Rightarrow> instant set" where
  "received_of ps ids = (\<lambda>p. al_received_at (snd p)) ` {p \<in> set ps. member_id p \<in> ids}"

lemma evidence_row_exact:
  assumes dist: "distinct (map member_id ps)" and row: "(key, related) \<in> set (aggregated ps)"
  defines "e \<equiv> evidence_row (received_times ps) (key, related)"
  shows "(er_type e, er_value e) = key" "sorted_wrt (<) (er_related e)"
    "set (er_related e) = related_ids ps key \<inter> member_id ` set ps"
    "er_related e \<noteq> []"
    "er_first_seen e = isoformat (Min (received_of ps (set (er_related e))))"
    "er_last_seen e = isoformat (Max (received_of ps (set (er_related e))))"
proof -
  let ?ids = "sort (filter (\<lambda>i. i \<in> fst ` set (received_times ps)) related)"
  let ?at = "\<lambda>i. the (map_of (received_times ps) i)"
  have e: "er_related e = ?ids" by (simp add: e_def evidence_row_def Let_def case_prod_unfold)
  show "(er_type e, er_value e) = key" by (simp add: e_def evidence_row_def Let_def case_prod_unfold)
  show "sorted_wrt (<) (er_related e)"
    unfolding e using aggregated_distinct_ids [OF row] by (simp add: strict_sorted_iff)
  show ids: "set (er_related e) = related_ids ps key \<inter> member_id ` set ps"
    unfolding e by (simp add: received_times_keys aggregated_exact [OF row] Int_def)
  have "key \<in> fst ` set (aggregated ps)" using row by force
  then obtain p i where p: "p \<in> set ps" and i: "i \<in> set (mb_evidence (fst p))" "item_key i = key"
    unfolding aggregated_keys by blast
  then have "member_id p \<in> related_ids ps key" unfolding related_ids_def by blast
  then have "member_id p \<in> set (er_related e)" using p unfolding ids by blast
  then show some: "er_related e \<noteq> []" by auto
  have "?at ` set (er_related e) = received_of ps (set (er_related e))"
  proof
    show "?at ` set (er_related e) \<subseteq> received_of ps (set (er_related e))"
    proof
      fix t assume "t \<in> ?at ` set (er_related e)"
      then obtain x where x: "x \<in> set (er_related e)" "t = ?at x" by blast
      then obtain q where q: "q \<in> set ps" "x = member_id q" unfolding ids by blast
      then have "t = al_received_at (snd q)" using x(2) received_times_lookup [OF dist q(1)] by simp
      then show "t \<in> received_of ps (set (er_related e))" using q x(1) unfolding received_of_def by blast
    qed
    show "received_of ps (set (er_related e)) \<subseteq> ?at ` set (er_related e)"
      using received_times_lookup [OF dist] unfolding received_of_def by force
  qed
  then have at: "set (map ?at ?ids) = received_of ps (set (er_related e))" unfolding e by (simp only: set_map)
  have "map ?at ?ids \<noteq> []" using some unfolding e by simp
  then have "er_first_seen e = isoformat (Min (set (map ?at ?ids))) \<and> er_last_seen e = isoformat (Max (set (map ?at ?ids)))"
    unfolding e_def evidence_row_def case_prod_unfold Let_def by simp
  then show "er_first_seen e = isoformat (Min (received_of ps (set (er_related e))))"
    "er_last_seen e = isoformat (Max (received_of ps (set (er_related e))))"
    unfolding at by blast+
qed

lemma same_members:
  assumes "set ps = set qs"
  shows "related_ids ps = related_ids qs" "received_of ps = received_of qs"
  using assms by (simp_all add: fun_eq_iff related_ids_def received_of_def)

text \<open>
  C16. The evidence shown for a correlation context is exactly its members' evidence: one row for every type
  and value that some member carries, relating the current members that carry it or are named by it as
  peers, each once and in order, with the earliest and the latest time these members were received; the
  members themselves are all shown.
\<close>

theorem context_evidence_exact:
  assumes run: "get_correlation db_ok k s = Reply d" and ids: "distinct (map member_id (context_members k s))"
  shows "mset (ct_members d) = image_mset member_read_of (mset (context_members k s))
    \<and> distinct (map (\<lambda>e. (er_type e, er_value e)) (ct_evidence d))
    \<and> (\<lambda>e. (er_type e, er_value e)) ` set (ct_evidence d)
        = (\<Union>p \<in> set (context_members k s). item_key ` set (mb_evidence (fst p)))
    \<and> (\<forall>e \<in> set (ct_evidence d). er_related e \<noteq> [] \<and> sorted_wrt (<) (er_related e)
        \<and> set (er_related e) = related_ids (context_members k s) (er_type e, er_value e) \<inter> member_id ` set (context_members k s)
        \<and> er_first_seen e = isoformat (Min (received_of (context_members k s) (set (er_related e))))
        \<and> er_last_seen e = isoformat (Max (received_of (context_members k s) (set (er_related e)))))"
proof -
  define ps where "ps = sort_key (\<lambda>(m, a). (al_received_at a, mb_alert_id m)) (context_members k s)"
  let ?agg = "sort_key (evidence_sort_key \<circ> fst) (aggregated ps)"
  have set_ps: "set ps = set (context_members k s)" "mset ps = mset (context_members k s)" by (simp_all add: ps_def)
  have "mset (map member_id ps) = mset (map member_id (context_members k s))" by (simp add: set_ps)
  then have dist: "distinct (map member_id ps)" using ids mset_eq_imp_distinct_iff by blast
  have d: "ct_members d = map member_read_of ps" "ct_evidence d = map (evidence_row (received_times ps)) ?agg"
    using run by (auto simp: get_correlation_def correlation_detail_from_records_def ps_def Let_def split: if_splits option.splits)
  have keys: "map (\<lambda>e. (er_type e, er_value e)) (ct_evidence d) = map fst ?agg"
    by (simp add: d evidence_row_def Let_def case_prod_unfold)
  have "mset (map fst ?agg) = mset (map fst (aggregated ps))" by simp
  then have once: "distinct (map (\<lambda>e. (er_type e, er_value e)) (ct_evidence d))"
    unfolding keys using aggregated_distinct mset_eq_imp_distinct_iff by blast
  have "(\<lambda>e. (er_type e, er_value e)) ` set (ct_evidence d) = fst ` set (aggregated ps)"
    using arg_cong [OF keys, of set] by simp
  then have all: "(\<lambda>e. (er_type e, er_value e)) ` set (ct_evidence d)
      = (\<Union>p \<in> set (context_members k s). item_key ` set (mb_evidence (fst p)))"
    unfolding aggregated_keys set_ps .
  have each: "\<exists>key related. (key, related) \<in> set (aggregated ps) \<and> e = evidence_row (received_times ps) (key, related)"
    if "e \<in> set (ct_evidence d)" for e
    using that unfolding d(2) by auto
  have rows: "er_related e \<noteq> [] \<and> sorted_wrt (<) (er_related e)
        \<and> set (er_related e) = related_ids (context_members k s) (er_type e, er_value e) \<inter> member_id ` set (context_members k s)
        \<and> er_first_seen e = isoformat (Min (received_of (context_members k s) (set (er_related e))))
        \<and> er_last_seen e = isoformat (Max (received_of (context_members k s) (set (er_related e))))"
    if "e \<in> set (ct_evidence d)" for e
    using each [OF that] evidence_row_exact [OF dist] unfolding same_members [OF set_ps(1)] set_ps(1) by metis
  have "mset (ct_members d) = image_mset member_read_of (mset (context_members k s))" by (simp add: d set_ps(2))
  then show ?thesis using once all rows by blast
qed

end
