(* ===== verification/Desk_Examples.thy ===== *)
theory Desk_Examples
  imports Incident_Desk
begin

text \<open>Runs of the analyst's endpoints on one alert linked to one open incident.\<close>

definition desk_store :: store where
  "desk_store = empty_store\<lparr>st_alerts := [(1, sample_alert_row\<lparr>al_incident_id := Some ''INC-1970-01-01-0001''\<rparr>)],
     st_incidents := [(''INC-1970-01-01-0001'', sample_incident)]\<rparr>"

abbreviation desk_incident :: string where
  "desk_incident \<equiv> ''INC-1970-01-01-0001''"

lemma desk_ok: "incidents_ok desk_store" "one_open_per_group desk_store"
  by (simp_all add: incidents_ok_def one_open_per_group_def desk_store_def sample_incident_def)

lemma desk_rows:
  "get_incident desk_incident desk_store = Some sample_incident" "get_alert_row 1 desk_store \<noteq> None"
  "incident_for_alert 1 desk_store = Some sample_incident" "st_feedback desk_store = []" "st_audit desk_store = []"
  by (simp_all add: desk_store_def get_incident_def get_alert_row_def incident_for_alert_def empty_store_def)

lemma desk_incident_simps [simp]: "inc_id sample_incident = desk_incident" "inc_status sample_incident = OPEN"
  by (simp_all add: sample_incident_def)

definition benign_request :: feedback_request where
  "benign_request = \<lparr>fq_verdict = Benign, fq_notes = Some '' scanner '', fq_actor = None\<rparr>"

lemma benign_run:
  obtains s' where "submit_feedback True 1 benign_request 9 desk_store = (Reply (Some (''open'', ''false_positive'')), s')"
proof -
  let ?s = "feedback_stored 1 benign_request 9 desk_store"
  have linked: "incident_for_alert 1 ?s = Some sample_incident"
    using incident_for_alert_frame [of ?s desk_store 1] desk_rows(3) by simp
  have plan: "plan_incident_sync sample_incident Benign = Some FALSE_POSITIVE"
    by (simp add: plan_incident_sync_def feedback_targets_def can_transition_def)
  have "get_incident desk_incident ?s = Some sample_incident" using desk_rows(1) by simp
  then have "update_status desk_incident FALSE_POSITIVE 9 ?s
      = Inr (moved sample_incident FALSE_POSITIVE 9, put_incident (moved sample_incident FALSE_POSITIVE 9) ?s)"
    by (simp add: update_status_eq can_transition_def)
  then have "\<exists>s'. sync_incident_with_feedback sample_incident 1 Benign ''analyst'' 9 ?s
      = Inr (Some (''open'', ''false_positive''), s')"
    by (simp add: sync_incident_with_feedback_def plan db_bind_def db_run audit_append_def)
  moreover have "analyst_of None = ''analyst''" by code_simp
  ultimately have "\<exists>s'. feedback_body 1 benign_request 9 desk_store = Inr (Some (Some (''open'', ''false_positive'')), s')"
    using desk_rows(2) linked
    by (auto simp: feedback_body_def feedback_add_def benign_request_def audit_append_def db_bind_def db_run
        feedback_stored_def get_alert_row_def Let_def)
  then show thesis using that by (auto simp: submit_feedback_def session_scope_def)
qed

theorem feedback_all_or_nothing_witness:
  "\<exists>s'. submit_feedback True 1 benign_request 9 desk_store = (Reply (Some (''open'', ''false_positive'')), s')
     \<and> map fb_verdict (st_feedback s') = [''benign''] \<and> st_alerts s' = st_alerts desk_store"
proof (rule benign_run)
  fix s' assume run: "submit_feedback True 1 benign_request 9 desk_store = (Reply (Some (''open'', ''false_positive'')), s')"
  have "fq_verdict benign_request = Benign" by (simp add: benign_request_def)
  with feedback_all_or_nothing [OF desk_ok(1) run] run desk_rows(4) show ?thesis by simp
qed

theorem feedback_follows_lifecycle_witness:
  "\<exists>s'. submit_feedback True 1 benign_request 9 desk_store = (Reply (Some (''open'', ''false_positive'')), s')
     \<and> get_incident desk_incident s' = Some (moved sample_incident FALSE_POSITIVE 9)"
proof (rule benign_run)
  fix s' assume run: "submit_feedback True 1 benign_request 9 desk_store = (Reply (Some (''open'', ''false_positive'')), s')"
  have "fq_verdict benign_request = Benign" by (simp add: benign_request_def)
  with feedback_follows_lifecycle [OF desk_ok run, of "Some FALSE_POSITIVE"] run desk_rows(3) show ?thesis by simp
qed

theorem feedback_acknowledges_witness:
  "\<exists>s'. submit_feedback True 1 benign_request 9 desk_store = (Reply (Some (''open'', ''false_positive'')), s')
     \<and> get_feedback_status True 1 s' = Reply \<lparr>fs_acknowledged = True, fs_has_feedback = True, fs_count = 1,
         fs_latest = Some ''benign'', fs_acknowledged_at = Some 9\<rparr>"
proof (rule benign_run)
  fix s' assume run: "submit_feedback True 1 benign_request 9 desk_store = (Reply (Some (''open'', ''false_positive'')), s')"
  have "fq_verdict benign_request = Benign" "feedback_for_alert 1 desk_store = []"
    using desk_rows(4) by (simp_all add: benign_request_def feedback_for_alert_def)
  with feedback_acknowledges [OF desk_ok(1) run] run desk_rows(4) show ?thesis by simp
qed

definition resolve_request :: status_request where
  "resolve_request = \<lparr>sq_status = RESOLVED, sq_notes = None, sq_actor = Some ''kim''\<rparr>"

theorem status_endpoint_enforces_lifecycle_witness:
  "update_incident_status True desk_incident resolve_request 9 desk_store
     = (Illegal_transition OPEN RESOLVED [''acknowledged'', ''escalated'', ''false_positive'', ''investigating''], desk_store)"
proof -
  have "update_incident_status True desk_incident resolve_request 9 desk_store = (conflict_of sample_incident RESOLVED, desk_store)"
    using status_body_eq [OF desk_ok(1) desk_rows(1), of resolve_request 9]
    by (simp add: update_incident_status_def session_scope_def resolve_request_def can_transition_def)
  moreover have "conflict_of sample_incident RESOLVED
      = Illegal_transition OPEN RESOLVED [''acknowledged'', ''escalated'', ''false_positive'', ''investigating'']"
    by code_simp
  ultimately have run: "update_incident_status True desk_incident resolve_request 9 desk_store
     = (Illegal_transition OPEN RESOLVED [''acknowledged'', ''escalated'', ''false_positive'', ''investigating''], desk_store)" by simp
  from status_endpoint_enforces_lifecycle [OF desk_ok(1) run] run show ?thesis by simp
qed

lemma desk_note:
  "add_incident_note True desk_incident '' seen '' None 4 desk_store
     = (Note_added ''analyst'' ''seen'', audit_append_one 4 (note_entry ''analyst'' desk_incident ''seen'') desk_store)"
proof -
  have "analyst_of None = ''analyst''" "strip '' seen '' = ''seen''" by code_simp+
  then show ?thesis
    using desk_rows(1) by (simp add: add_incident_note_def session_scope_def db_bind_def db_run audit_append_def Let_def)
qed

lemma desk_no_notes: "list_incident_notes True desk_incident desk_store = Reply []"
  using desk_rows(1,5) by (simp add: list_incident_notes_def audit_for_entity_ids_def)

theorem note_readable_witness:
  "list_incident_notes True desk_incident (snd (add_incident_note True desk_incident '' seen '' None 4 desk_store))
     = Reply [\<lparr>in_actor = ''analyst'', in_note = JStr ''seen'', in_created_at = 4\<rparr>]"
proof -
  have "list_incident_notes True desk_incident (audit_append_one 4 (note_entry ''analyst'' desk_incident ''seen'') desk_store)
     = Reply ([] @ [\<lparr>in_actor = ''analyst'', in_note = JStr ''seen'', in_created_at = 4\<rparr>])"
    by (rule note_readable [OF desk_note _ desk_no_notes, unfolded note_reply.case, THEN conjunct2, THEN conjunct2])
       (simp add: desk_rows(5))
  then show ?thesis by (simp only: desk_note snd_conv append_Nil)
qed

theorem timeline_complete_and_safe_witness:
  "\<exists>events r. get_incident_timeline True desk_incident (snd (add_incident_note True desk_incident '' seen '' None 4 desk_store)) = Reply events
     \<and> list_all2 shows_row events [r] \<and> au_entry r = note_entry ''analyst'' desk_incident ''seen''"
proof -
  let ?s = "audit_append_one 4 (note_entry ''analyst'' desk_incident ''seen'') desk_store"
  let ?own = "\<lambda>r. ae_entity_id (au_entry r) = desk_incident
      \<or> (\<exists>a \<in> set (rows (st_alerts ?s)). al_incident_id a = Some desk_incident \<and> ae_entity_id (au_entry r) = uuid_str (al_id a))"
  have known: "get_incident desk_incident ?s = Some sample_incident" using desk_rows(1) by (simp add: get_incident_def)
  then obtain events where run: "get_incident_timeline True desk_incident ?s = Reply events"
    by (simp add: get_incident_timeline_def)
  obtain records where records: "list_all2 shows_row events records" "mset records = mset (filter ?own (st_audit ?s))"
    using timeline_complete_and_safe [OF run] by blast
  obtain r where "st_audit ?s = [r]" and r: "au_entry r = note_entry ''analyst'' desk_incident ''seen''"
    using desk_rows(5) by (auto simp: audit_append_one_def)
  moreover have "?own r" by (simp add: r note_entry_def entry_def)
  ultimately have "filter ?own (st_audit ?s) = [r]" by simp
  then have "records = [r]" using records(2) by simp
  then show ?thesis using records(1) run r desk_note by auto
qed

theorem assignment_readable_witness:
  "\<exists>r s'. update_incident_assignment (True, True) desk_incident (Some ''kim'') None 4 desk_store = (Inr (Some r), s')
     \<and> get_incident_assignment True desk_incident s' = Inr (Some (JStr ''kim'')) \<and> as_previous r = JNull"
proof -
  have "current_assignment (audit_for_entity_ids [desk_incident] desk_store) = JNull"
    using desk_rows(5) by (simp add: current_assignment_def audit_for_entity_ids_def)
  then obtain r s' where run: "update_incident_assignment (True, True) desk_incident (Some ''kim'') None 4 desk_store = (Inr (Some r), s')"
    "as_previous r = JNull"
    using desk_rows(1) by (auto simp: update_incident_assignment_def session_scope_def db_bind_def db_run audit_append_def
        assignee_json_def Let_def)
  from assignment_readable [OF run(1)] desk_rows(5) run show ?thesis by (simp add: assignee_json_def)
qed

end
