(* ===== verification/Views_Examples.thy ===== *)
theory Views_Examples
  imports Daily_Stats Context_Evidence Desk_Examples
begin

text \<open>
  Runs of the read endpoints and of the daily digest: two alerts of one incident and of one correlation
  context, and three false-positive verdicts on the first of them.
\<close>

definition views_alert :: "uuid \<Rightarrow> alert_row" where
  "views_alert k = sample_alert_row\<lparr>al_id := k, al_incident_id := Some ''INC-1970-01-01-0001''\<rparr>"

definition views_member :: "uuid \<Rightarrow> uuid \<Rightarrow> member_row" where
  "views_member k peer = \<lparr>mb_id = k, mb_context_id = ''C1'', mb_alert_id = k, mb_joined_at = 5,
     mb_evidence = [\<lparr>ce_type = ''same_agent'', ce_value = ''a'', ce_peer = uuid_str peer\<rparr>]\<rparr>"

definition views_verdict :: "nat \<Rightarrow> feedback_row" where
  "views_verdict n = \<lparr>fb_id = n, fb_alert_id = 1, fb_received_at = 7, fb_actor = ''kim'', fb_verdict = ''false_positive'', fb_notes = None\<rparr>"

definition views_store :: store where
  "views_store = desk_store\<lparr>st_alerts := [(1, views_alert 1), (2, views_alert 2)],
     st_contexts := [(''C1'', new_context ''C1'' 5)], st_members := [views_member 1 2, views_member 2 1],
     st_feedback := [views_verdict 1, views_verdict 2, views_verdict 3]\<rparr>"

lemma views_rows:
  "rows (st_alerts views_store) = [views_alert 1, views_alert 2]"
  "get_incident desk_incident views_store = Some sample_incident"
  "get_context ''C1'' views_store = Some (new_context ''C1'' 5, 2)"
  "context_members ''C1'' views_store = [(views_member 1 2, views_alert 1), (views_member 2 1, views_alert 2)]"
  "alerts_for_incident desk_incident views_store = [views_alert 1, views_alert 2]"
  using desk_rows(1)
  by (simp_all add: views_store_def rows_def get_incident_def get_context_def member_count_def views_member_def
      context_members_def alerts_for_incident_def views_alert_def sample_alert_row_def List.map_filter_simps)

lemma views_ids: "distinct (map member_id (context_members ''C1'' views_store))"
proof -
  have "uuid_str 1 \<noteq> uuid_str 2" by code_simp
  then show ?thesis by (simp add: views_rows member_id_def views_member_def)
qed

theorem context_evidence_exact_witness:
  "\<exists>d. get_correlation True ''C1'' views_store = Reply d
     \<and> (\<lambda>e. (er_type e, er_value e)) ` set (ct_evidence d) = {(''same_agent'', ''a'')}"
proof -
  obtain d where d: "get_correlation True ''C1'' views_store = Reply d" by (simp add: get_correlation_def views_rows)
  have "(\<Union>p \<in> set (context_members ''C1'' views_store). item_key ` set (mb_evidence (fst p))) = {(''same_agent'', ''a'')}"
    by (simp add: views_rows views_member_def item_key_def)
  with context_evidence_exact [OF d views_ids] d show ?thesis by auto
qed

theorem evidence_view_complete_witness:
  "\<exists>e. get_incident_evidence True desk_incident views_store = Reply e
     \<and> ie_alerts e = map alert_detail_from_record [views_alert 1, views_alert 2] \<and> sorted_wrt (<) (map context_id_of (ie_contexts e))"
proof -
  obtain e where e: "get_incident_evidence True desk_incident views_store = Reply e"
    by (simp add: get_incident_evidence_def views_rows Let_def)
  from evidence_view_complete [OF e] e show ?thesis unfolding views_rows by blast
qed

theorem incident_view_complete_witness:
  "\<exists>d. get_incident_view True desk_incident views_store = Reply d \<and> ic_linked_count d = 2
     \<and> ic_primary d = Some (hd (ic_linked d)) \<and> la_is_primary (hd (ic_linked d))"
proof -
  obtain d where d: "get_incident_view True desk_incident views_store = Reply d" by (simp add: get_incident_view_def views_rows)
  have linked: "filter (\<lambda>a. al_incident_id a = Some desk_incident) (rows (st_alerts views_store)) = [views_alert 1, views_alert 2]"
    by (simp add: views_rows views_alert_def)
  have "inc_primary_alert_id sample_incident = al_id (views_alert 1)"
    by (simp add: sample_incident_def new_incident_def views_alert_def)
  then have "\<exists>a \<in> set (rows (st_alerts views_store)). al_incident_id a = Some desk_incident \<and> al_id a = inc_primary_alert_id sample_incident"
    by (simp add: views_rows views_alert_def)
  moreover have "length xs = 2" if "mset xs = image_mset f (mset [views_alert 1, views_alert 2])" for xs :: "linked_alert list" and f
    using that by (metis length_map mset_map size_mset length_Cons list.size(3) numeral_2_eq_2)
  ultimately show ?thesis
    using incident_view_complete [OF d] d unfolding linked by (auto simp: views_rows(2))
qed

abbreviation no_filter :: alert_filter where
  "no_filter \<equiv> \<lparr>q_source = None, q_incident_id = None, q_rule_id = None, q_agent_id = None, q_tier = None,
     q_severity = None, q_group_key = None, q_duplicate = None\<rparr>"

theorem alert_pages_complete_witness:
  "\<exists>p found. list_alerts_view True no_filter 1 0 views_store = Reply (p 0) \<and> list_alerts_view True no_filter 1 1 views_store = Reply (p 1)
     \<and> mset found = {#views_alert 1, views_alert 2#} \<and> ls_items (p 0) @ ls_items (p (1::nat)) = map alert_summary_from_record found"
proof -
  have all: "filter_alerts no_filter views_store = [views_alert 1, views_alert 2]"
    by (simp add: filter_alerts_def views_rows eq_filter_def nullable_filter_def)
  define p where "p k = listing_of alert_summary_from_record 1 (int k) (list_alerts no_filter 1 (int k) views_store)" for k
  have pages: "list_alerts_view True no_filter (int 1) (int k * int 1) views_store = Reply (p k)" for k
    by (simp add: p_def list_alerts_view_def)
  have stop: "\<not> pg_has_more (ls_pagination (p (2 - 1)))"
    by (simp add: p_def listing_of_def make_pagination_def list_alerts_def all Let_def)
  have "\<exists>found. mset found = mset (filter_alerts no_filter views_store)
      \<and> concat (map (\<lambda>k. ls_items (p k)) [0..<2]) = map alert_summary_from_record found"
    using alert_pages_complete [of 1 2 no_filter views_store p] pages stop by (auto simp: max_page_limit_def)
  then show ?thesis using pages [of 0] pages [of 1] by (auto simp: all numeral_2_eq_2)
qed

theorem digest_is_the_day_witness:
  "\<exists>shown r. get_daily_stats True (Some 0) 0 views_store = Some (shown, r) \<and> ds_alerts r = 2 \<and> ds_feedback r = 3
     \<and> top_of 10 (\<lambda>_. True) [al_rule_id sample_alert_row, al_rule_id sample_alert_row] (ds_top_rules r)"
proof -
  obtain shown r where r: "get_daily_stats True (Some 0) 0 views_store = Some (shown, r)"
    using digest_fails [of True "Some 0" 0 views_store] by (auto simp: selected_date_def date_max_def epoch_ordinal_def)
  have "filter (received_on 0) (rows (st_alerts views_store)) = [views_alert 1, views_alert 2]"
    by (simp add: views_rows received_on_def views_alert_def sample_alert_row_def)
  moreover have "filter (judged_on 0) (st_feedback views_store) = [views_verdict 1, views_verdict 2, views_verdict 3]"
    by (simp add: views_store_def judged_on_def views_verdict_def us_per_day_def us_per_second_def)
  ultimately show ?thesis
    using digest_is_the_day [OF r] r by (auto simp: selected_date_def views_alert_def)
qed

theorem digests_add_up_witness:
  "(\<Sum>d \<in> {0..<2}. count_alerts (d * us_per_day) ((d + 1) * us_per_day) views_store) = 2"
proof -
  have "count_alerts (0 * us_per_day) (2 * us_per_day) views_store = 2"
    by (simp add: count_alerts_def views_rows in_window_def views_alert_def sample_alert_row_def us_per_day_def us_per_second_def)
  then show ?thesis using digests_add_up [of 0 2 views_store] by simp
qed

end
