(* ===== verification/Spec2Isabelle.thy ===== *)
theory Spec2Isabelle
  imports Scoring_Facts Decision_Router Assessment Sweeper Correlation_Facts Intel_Facts
    Extraction_Facts Wazuh_Normalizer Asset_Inventory Allowlist
    Notification_Examples Intake_Availability Late_Examples Views_Examples
begin

text \<open>
  Verification development of the SOC alert triage service (src/app/src/soc\_triage).

  The program. A Wazuh manager posts alerts. The service keys and fingerprints a delivery
  (ingest/deduplication.py), absorbs repeats (ingest/persistent\_deduplication.py), enriches the
  indicators of a new alert (enrichment/), scores it (scoring/), decides what to do (decisions/),
  persists assessment, audit trail and incident in one unit of work
  (services/assessment\_persistence.py), links it to related alerts (correlation/), and later closes
  incidents nobody touches (sweeper.py). All state is in one relational store
  (models/orm.py, models/repositories.py, db/session.py).

  Shared definitions.
  \<^item> Prelude: the vocabulary (dictionaries as association lists, instants as integers of
    microseconds, UUIDs as numbers, JSON values with CPython's truthiness, the exceptions) and the
    text functions of the standard library the code uses. Calendar: the proleptic Gregorian date of
    an instant. Sequence\_Ids: ids of the form PREFIX-date-number.
  \<^item> Alert\_Model: models/canonical.py, ioc.py, assessment.py.
  \<^item> Store: the tables as rows and dictionaries; an operation is a function from the store to a
    result or an exception and the store. \<open>session\_scope\<close> is db/session.py: a commit keeps the new
    store, every exception (a refused commit included) gives the old one back. What the database
    answers is an input (\<open>db\_ok\<close>, a list of \<open>db\_fate\<close>s).

  Components, with the theory that models them and what is proved.
  \<^item> Deduplication: Dedup\_Keys (keys, identities, fingerprints; SHA-256 is a parameter), Dedup\_State
    (the decision and its two updates), Dedup\_Memory (the in-memory deduplicator), Dedup\_Contract
    (what the two back ends share, as a locale interpreted on both), Alert\_Repository and
    Stored\_Groups (the tables), Dedup\_Protocol (sequences of deliveries), Persistent\_Dedup. Proved:
    the classification of a delivery on every branch, that keys are collision free, that a repeated
    delivery changes nothing but one counter, that the stored deduplicator refines the in-memory one.
  \<^item> Scoring: Scoring\_Policy (the tables and their validators), Scoring\_Engine (factors, clamp,
    degraded fallback), Scoring\_Facts (contract of the scorer, threat intelligence as a capped sum,
    what an outage can change). Scores are integers; rational weights are not used by the code.
  \<^item> Decisions: Decision\_Router (policy, validators, \<open>decide\<close>).
  \<^item> Incidents: Incident\_Lifecycle (statuses and the transition table), Incident\_Repository,
    Incident\_Facts (lifecycle, numbering, at most one open incident per group).
  \<^item> Audit\_Entries: every builder of audit.py.
  \<^item> Assessment: \<open>persist\_assessment\<close>, all or nothing, one open incident per group.
  \<^item> Sweeper: \<open>sweep\_once\<close> against a world in which other writers act between the candidate query and
    each close; exactly the stale open incidents are closed and a manual change wins.
  \<^item> Correlation: Correlation\_Evidence (evidence between two alerts), Correlation\_Repository,
    Correlation\_Service, Correlation\_Facts: one call unites the classes of the alert's peers, decides
    every alert, is idempotent, touches nothing else.
  \<^item> Enrichment: Enrichment\_Chain (chain.py, providers.py; a provider is a parameter that may raise
    or change its own state), Enrichment\_Cache and Cache\_Facts (cache.py; the contract of a response
    cache is a locale, interpreted on the persistent cache), Threat\_Intel, Intel\_Providers and
    Intel\_Facts (threat\_intel.py, virustotal.py, misp.py; the upstream service's answers, the rate
    limiter's and the clock's are lists of the world).

  \<^item> Indicators: Text\_Patterns (the fragment of regular expressions the code uses, with \<open>finditer\<close>,
    greedy repetition and substitution), Ipv4 (policy.py and the standard library's addresses),
    Ioc\_Normalize (normalize.py), Ioc\_Extractor (extractor.py), Extraction\_Facts: every extracted
    indicator is in normal form, once, in order and with evidence; what the expressions let through.
  \<^item> Intake: Wazuh\_Normalizer (ingest/normalizer.py), Asset\_Inventory (asset\_inventory.py: the
    indexes are a search), Allowlist (allowlist.py: an indicator is marked exactly if covered).
  \<^item> Notifications: Notification\_Payload (payload.py: nothing of the raw event reaches n8n),
    Notification\_Client (client.py; what a notifier promises is a locale, interpreted on the client),
    Alert\_Notifier (\<open>_notify_n8n\<close> of api/alerts.py and its repository: an alert is delivered once,
    nothing else is touched), Notification\_Examples (a run).
  \<^item> The whole intake: Alert\_Ingest (\<open>ingest_alert\<close> of api/alerts.py: body, normalisation,
    enrichment, deduplication, assessment, correlation, notification, answer), Ingest\_Facts (a
    rejection leaves no trace, an accepted alert is on record, correlation and notification cannot
    change an answer, a repetition is answered with the original), Intake\_Availability (when it accepts).

  \<^item> Late enrichment: Late\_Enrichment (services/late\_enrichment.py and its sweep), Late\_Facts (the
    fingerprint is the content of an enrichment state, an alert is rewritten exactly when that content
    changed, a replay changes nothing, a sweep isolates failures), Late\_Examples (runs; an outage erases
    a verdict). Assessment\_Frame holds what an assessment leaves alone, for the intake and for this.

  \<^item> Analysts: Redaction (core/redaction.py), Analyst\_Feedback (api/feedback.py: a verdict is stored
    whole or not at all and moves the linked incident only along the lifecycle), Incident\_Desk
    (api/incidents.py, timeline.py, api/incident\_notes.py, api/incident\_assignment.py: status updates,
    timeline, notes and assignment, the last two kept in the audit log and read back from it),
    Desk\_Examples (runs).
  \<^item> Reading: Daily\_Stats (services/stats.py and its queries: the digest counts exactly the day it
    names, its rankings are exact, its rate is the nearest four-digit decimal), Read\_Views
    (api/schemas.py and the GET handlers of api/alerts.py, incidents.py, correlations.py,
    incident\_evidence.py), Read\_Facts (no answer depends on raw logs, secrets or raw indicator text;
    pages, linked alerts and evidence are complete), Context\_Evidence (the evidence shown for a
    correlation context is its members'), Views\_Examples (runs).

  Bounds. No definition uses fuel: the retry loop recurses on the attempts left, the others on lists.

  Not modelled: FastAPI routing and pydantic's coercion of request bodies; configuration, logging and
  metrics; the asyncio loop around the sweeper; the lengths of pauses between retries; statement-level
  concurrency inside one transaction; schema migrations; the explanation builder, the TheHive
  export and the Wazuh integrator script.
\<close>

end
